(* ===== verification/Prelude.thy ===== *)
theory Prelude
  imports Complex_Main "HOL-Library.Word" "HOL-Library.Sublist"
begin

text \<open>
  Shared vocabulary of the development: the types that name the model's values
  (paths, the numpy \<open>int64\<close> cells), the pieces of the Python runtime that
  \<^verbatim>\<open>src/app.py\<close> relies on (\<open>str(int)\<close> inside f-strings, \<open>str.join\<close>,
  \<open>str.replace\<close>), a small parser toolkit used to read generated filter strings
  back, and the generic lemmas on strings that the component theories share.
\<close>

named_theorems render_simps
  "equations that evaluate the rendering of numbers and fixed literals"

type_synonym path = string
type_synonym int64 = "64 word"

abbreviation squote :: char where "squote \<equiv> CHR 0x27"
abbreviation dquote :: char where "dquote \<equiv> CHR 0x22"
abbreviation bslash :: char where "bslash \<equiv> CHR 0x5C"

section \<open>Python's decimal rendering of integers\<close>

text \<open>
  An f-string field \<open>{v}\<close> with an integer \<open>v\<close> renders \<open>str(v)\<close>: the decimal
  digits, with a leading \<open>-\<close> for negative values and no leading zeros.
\<close>

definition digit_char :: "nat \<Rightarrow> char" where
  "digit_char d = char_of (48 + d)"

fun string_of_nat :: "nat \<Rightarrow> string" where
  "string_of_nat n =
     (if n < 10 then [digit_char n] else string_of_nat (n div 10) @ [digit_char (n mod 10)])"

declare string_of_nat.simps [simp del]

definition py_str_int :: "int \<Rightarrow> string" where
  "py_str_int i =
     (if i < 0 then CHR ''-'' # string_of_nat (nat (- i)) else string_of_nat (nat i))"

section \<open>Reading decimals back\<close>

text \<open>
  A parser consumes a prefix of its input and returns the value read and the rest,
  or \<open>None\<close> when the input does not start with what it expects.
\<close>

type_synonym 'a parser = "string \<Rightarrow> ('a \<times> string) option"

definition is_digit :: "char \<Rightarrow> bool" where
  "is_digit c \<longleftrightarrow> 48 \<le> (of_char c :: nat) \<and> (of_char c :: nat) \<le> 57"

fun digits_acc :: "nat \<Rightarrow> string \<Rightarrow> nat \<times> string" where
  "digits_acc acc [] = (acc, [])"
| "digits_acc acc (c # cs) =
     (if is_digit c then digits_acc (10 * acc + (of_char c - 48)) cs else (acc, c # cs))"

definition parse_nat :: "nat parser" where
  "parse_nat s = (case s of [] \<Rightarrow> None
                   | c # _ \<Rightarrow> if is_digit c then Some (digits_acc 0 s) else None)"

definition parse_int :: "int parser" where
  "parse_int s =
     (case s of
        [] \<Rightarrow> None
      | c # cs \<Rightarrow>
          if c = CHR ''-'' then map_option (\<lambda>(n, r). (- int n, r)) (parse_nat cs)
          else map_option (\<lambda>(n, r). (int n, r)) (parse_nat s))"

text \<open>Matching a fixed literal at the front of the input.\<close>

fun match_lit :: "string \<Rightarrow> string \<Rightarrow> string option" where
  "match_lit [] s = Some s"
| "match_lit (x # xs) [] = None"
| "match_lit (x # xs) (y # ys) = (if x = y then match_lit xs ys else None)"

text \<open>Reading up to (not including) a delimiter character; \<open>None\<close> if it never comes.\<close>

fun take_to :: "char \<Rightarrow> string \<Rightarrow> (string \<times> string) option" where
  "take_to d [] = None"
| "take_to d (c # cs) =
     (if c = d then Some ([], cs) else map_option (\<lambda>(t, r). (c # t, r)) (take_to d cs))"

section \<open>\<open>str.join\<close> and \<open>str.replace\<close>\<close>

fun py_join :: "string \<Rightarrow> string list \<Rightarrow> string" where
  "py_join sep [] = []"
| "py_join sep [x] = x"
| "py_join sep (x # y # xs) = x @ sep @ py_join sep (y # xs)"

text \<open>
  \<open>s.replace(old, new)\<close> scans left to right and replaces every non-overlapping
  occurrence of a non-empty \<open>old\<close>; an empty \<open>old\<close> inserts \<open>new\<close> before
  every character and at the end.
\<close>

function replace_scan :: "string \<Rightarrow> string \<Rightarrow> string \<Rightarrow> string" where
  "replace_scan old new [] = []"
| "replace_scan old new (c # cs) =
     (if old \<noteq> [] \<and> prefix old (c # cs)
      then new @ replace_scan old new (drop (length old) (c # cs))
      else c # replace_scan old new cs)"
  by pat_completeness auto
termination
  by (relation "measure (\<lambda>(old, new, s). length s)") auto

definition py_replace :: "string \<Rightarrow> string \<Rightarrow> string \<Rightarrow> string" where
  "py_replace s old new =
     (if old = [] then new @ concat (map (\<lambda>c. c # new) s) else replace_scan old new s)"

section \<open>Lemmas on rendering and parsing\<close>

lemma digit_char_is_digit [simp]: "d < 10 \<Longrightarrow> is_digit (digit_char d)"
  by (simp add: digit_char_def is_digit_def)

lemma of_char_digit_char [simp]: "d < 10 \<Longrightarrow> of_char (digit_char d) - 48 = d"
  by (simp add: digit_char_def)

lemma string_of_nat_nonempty [simp]: "string_of_nat n \<noteq> []"
  by (subst string_of_nat.simps) simp

lemma string_of_nat_digits: "c \<in> set (string_of_nat n) \<Longrightarrow> is_digit c"
proof (induction n rule: string_of_nat.induct)
  case (1 n)
  then show ?case
    by (cases "n < 10") (auto simp: string_of_nat.simps [of n])
qed

lemma string_of_nat_hd_digit: "is_digit (hd (string_of_nat n))"
  using string_of_nat_digits hd_in_set string_of_nat_nonempty by blast

lemma py_str_int_chars: "c \<in> set (py_str_int i) \<Longrightarrow> is_digit c \<or> c = CHR ''-''"
  by (auto simp: py_str_int_def dest: string_of_nat_digits split: if_splits)

lemma py_str_int_Cons: "\<exists>c cs. py_str_int i = c # cs \<and> (is_digit c \<or> c = CHR ''-'')"
proof -
  obtain c cs where "py_str_int i = c # cs"
    by (cases "py_str_int i") (auto simp: py_str_int_def split: if_splits)
  moreover have "is_digit c \<or> c = CHR ''-''"
    using py_str_int_chars [of c i] calculation by simp
  ultimately show ?thesis by blast
qed

lemma minus_not_digit [simp]: "\<not> is_digit CHR ''-''"
  by (simp add: is_digit_def)

lemma digits_acc_string_of_nat:
  "digits_acc acc (string_of_nat n @ rest) =
     digits_acc (acc * 10 ^ length (string_of_nat n) + n) rest"
proof (induction n arbitrary: acc rest rule: string_of_nat.induct)
  case (1 n)
  show ?case
  proof (cases "n < 10")
    case True
    then show ?thesis by (simp add: string_of_nat.simps [of n] mult.commute)
  next
    case False
    let ?k = "length (string_of_nat (n div 10))"
    have "digits_acc acc (string_of_nat n @ rest)
        = digits_acc acc (string_of_nat (n div 10) @ digit_char (n mod 10) # rest)"
      using False by (simp add: string_of_nat.simps [of n])
    also have "\<dots> = digits_acc (10 * (acc * 10 ^ ?k + n div 10) + n mod 10) rest"
      using False "1.IH" by simp
    also have "10 * (acc * 10 ^ ?k + n div 10) + n mod 10 = acc * 10 ^ Suc ?k + n"
      by (simp add: algebra_simps)
    finally show ?thesis
      using False by (simp add: string_of_nat.simps [of n])
  qed
qed

definition no_digit_start :: "string \<Rightarrow> bool" where
  "no_digit_start s \<longleftrightarrow> (case s of [] \<Rightarrow> True | c # _ \<Rightarrow> \<not> is_digit c)"

lemma no_digit_start_simps [simp]:
  "no_digit_start []"
  "no_digit_start (c # cs) \<longleftrightarrow> \<not> is_digit c"
  by (simp_all add: no_digit_start_def)

lemma digits_acc_stop: "no_digit_start rest \<Longrightarrow> digits_acc acc rest = (acc, rest)"
  by (cases rest) auto

lemma parse_nat_string_of_nat:
  assumes "no_digit_start rest"
  shows "parse_nat (string_of_nat n @ rest) = Some (n, rest)"
proof -
  obtain c cs where sn: "string_of_nat n = c # cs"
    by (cases "string_of_nat n") auto
  have "is_digit c"
    using string_of_nat_hd_digit [of n] sn by simp
  moreover have "digits_acc 0 (string_of_nat n @ rest) = (n, rest)"
    using assms by (simp add: digits_acc_string_of_nat digits_acc_stop)
  ultimately show ?thesis
    by (simp add: parse_nat_def sn)
qed

lemma parse_int_py_str_int [render_simps]:
  assumes "no_digit_start rest"
  shows "parse_int (py_str_int i @ rest) = Some (i, rest)"
proof (cases "i < 0")
  case True
  then show ?thesis
    using assms by (simp add: py_str_int_def parse_int_def parse_nat_string_of_nat)
next
  case False
  obtain c cs where sn: "string_of_nat (nat i) = c # cs"
    by (cases "string_of_nat (nat i)") auto
  have "c \<noteq> CHR ''-''"
    using string_of_nat_hd_digit [of "nat i"] sn by auto
  moreover have "parse_nat (c # cs @ rest) = Some (nat i, rest)"
    using parse_nat_string_of_nat [OF assms, of "nat i"] sn by simp
  ultimately show ?thesis
    using False sn by (simp add: py_str_int_def parse_int_def)
qed

lemma match_lit_append [simp, render_simps]: "match_lit p (p @ s) = Some s"
  by (induction p) auto

lemma take_to_Some_length: "take_to d s = Some (t, r) \<Longrightarrow> length r < length s"
  by (induction d s arbitrary: t rule: take_to.induct) (auto split: if_splits)

lemma take_to_append [render_simps]:
  "d \<notin> set t \<Longrightarrow> take_to d (t @ d # s) = Some (t, s)"
  by (induction t) auto

lemma py_join_Cons:
  "py_join sep (x # xs) = x @ (if xs = [] then [] else sep @ py_join sep xs)"
  by (cases xs) auto

lemma py_join_concat: "py_join sep (x # xs) = x @ concat (map (\<lambda>y. sep @ y) xs)"
  by (induction xs arbitrary: x) (auto simp: py_join_Cons)

lemma py_join_empty_iff: "(\<forall>x \<in> set xs. x \<noteq> []) \<Longrightarrow> py_join sep xs = [] \<longleftrightarrow> xs = []"
  by (induction sep xs rule: py_join.induct) auto

lemma those_map_Some:
  "(\<forall>x \<in> set xs. f x = Some (g x)) \<Longrightarrow> those (map f xs) = Some (map g xs)"
  by (induction xs) auto

lemma indicators_all_zero:
  "(\<forall>x \<in> set (map (\<lambda>y. if P y then 1 else (0::real)) xs). x = 0) \<longleftrightarrow> (\<forall>y \<in> set xs. \<not> P y)"
  by (induction xs) auto

lemma replace_scan_no_occurrence:
  "\<not> sublist old s \<Longrightarrow> replace_scan old new s = s"
proof (induction old new s rule: replace_scan.induct)
  case (1 old new)
  then show ?case by simp
next
  case (2 old new c cs)
  have "\<not> prefix old (c # cs)"
    using "2.prems" prefix_imp_sublist by blast
  moreover have "\<not> sublist old cs"
    using "2.prems" by (auto simp: sublist_Cons_right)
  ultimately show ?case
    using "2.IH"(2) by simp
qed

lemma replace_scan_unchanged:
  "old \<noteq> [] \<Longrightarrow> length new = length old \<Longrightarrow> new \<noteq> old \<Longrightarrow>
   replace_scan old new s = s \<Longrightarrow> \<not> sublist old s"
proof (induction old new s rule: replace_scan.induct)
  case (1 old new)
  then show ?case by simp
next
  case (2 old new c cs)
  show ?case
  proof (cases "prefix old (c # cs)")
    case True
    then have "take (length old) (c # cs) = old"
      by (metis prefix_def append_eq_conv_conj)
    moreover have "take (length old) (new @ replace_scan old new (drop (length old) (c # cs))) =
                   take (length old) (c # cs)"
      using True "2.prems" by simp
    ultimately show ?thesis
      using "2.prems" by simp
  next
    case False
    then have "replace_scan old new cs = cs"
      using "2.prems" by simp
    then have "\<not> sublist old cs"
      using "2.IH"(2) "2.prems"(1-3) False by blast
    then show ?thesis
      using False by (auto simp: sublist_Cons_right)
  qed
qed

lemma py_replace_no_occurrence:
  "old \<noteq> [] \<Longrightarrow> \<not> sublist old s \<Longrightarrow> py_replace s old new = s"
  by (simp add: py_replace_def replace_scan_no_occurrence)

end
