(* ===== verification/FFmpeg.thy ===== *)
theory FFmpeg
  imports Prelude
begin

text \<open>
  The part of the external tool that gives the generated strings their meaning.
  \<^verbatim>\<open>src/app.py\<close> hands ffmpeg a filter graph description (\<open>-vf\<close>, \<open>-af\<close>); ffmpeg
  reads it in two levels of quoting: the graph parser splits filters at unquoted
  \<open>,\<close> and takes each filter's argument string with \<open>av_get_token\<close>, which
  removes one level of \<open>'...'\<close> quotes and backslash escapes; the filter then
  splits its arguments at unquoted \<open>:\<close> into \<open>key=value\<close> pairs, again with
  \<open>av_get_token\<close>. Expressions such as \<open>between(t,5,10)\<close> are then parsed and
  evaluated by \<open>libavutil/eval.c\<close>. None of this is code of the repository: it is
  modelled from ffmpeg's documented syntax and its tokenizer, for the subset the
  repository emits, and is not part of the map.
\<close>

section \<open>\<open>av_get_token\<close>\<close>

definition is_ws :: "char \<Rightarrow> bool" where
  "is_ws c \<longleftrightarrow> c = CHR '' '' \<or> c = CHR 0x0A \<or> c = CHR 0x09 \<or> c = CHR 0x0D"

text \<open>
  The loop of \<open>av_get_token\<close>: \<open>out\<close> is the text produced so far and \<open>e\<close> the
  position after the last escaped or quoted character (the C variable \<open>end\<close>);
  trailing whitespace at or after \<open>e\<close> is removed at the end.
\<close>

function tok_loop :: "string \<Rightarrow> string \<Rightarrow> nat \<Rightarrow> string \<Rightarrow> string \<times> nat \<times> string" where
  "tok_loop stops out e [] = (out, e, [])"
| "tok_loop stops out e (c # p) =
     (if c \<in> set stops then (out, e, c # p)
      else if c = bslash \<and> p \<noteq> [] then tok_loop stops (out @ [hd p]) (Suc (length out)) (tl p)
      else if c = squote then
        (case take_to squote p of
           None \<Rightarrow> (out @ p, e, [])
         | Some (q, p') \<Rightarrow> tok_loop stops (out @ q) (length out + length q) p')
      else tok_loop stops (out @ [c]) e p)"
  by pat_completeness auto
termination
  by (relation "measure (\<lambda>(stops, out, e, p). length p)")
     (auto dest: take_to_Some_length)

definition strip_trailing_ws :: "nat \<Rightarrow> string \<Rightarrow> string" where
  "strip_trailing_ws e out = take e out @ rev (dropWhile is_ws (rev (drop e out)))"

definition av_get_token :: "string \<Rightarrow> string \<Rightarrow> string \<times> string" where
  "av_get_token stops s =
     (let (out, e, rest) = tok_loop stops [] 0 (dropWhile is_ws s)
      in (strip_trailing_ws e out, rest))"

text \<open>Characters that \<open>av_get_token\<close> copies verbatim and that never end a token.\<close>

definition plain_for :: "string \<Rightarrow> string \<Rightarrow> bool" where
  "plain_for stops w \<longleftrightarrow> (\<forall>x \<in> set w. x \<notin> set stops \<and> x \<noteq> bslash \<and> x \<noteq> squote)"

lemma plain_for_simps [simp]:
  "plain_for stops []"
  "plain_for stops (x # w) \<longleftrightarrow> x \<notin> set stops \<and> x \<noteq> bslash \<and> x \<noteq> squote \<and> plain_for stops w"
  by (auto simp: plain_for_def)

lemma plain_for_append:
  "plain_for stops (w @ v) \<longleftrightarrow> plain_for stops w \<and> plain_for stops v"
  by (auto simp: plain_for_def)

lemma plain_for_no_squote: "plain_for stops w \<Longrightarrow> squote \<notin> set w"
  by (auto simp: plain_for_def)

lemma tok_loop_plain:
  "plain_for stops w \<Longrightarrow> tok_loop stops out e (w @ r) = tok_loop stops (out @ w) e r"
  by (induction w arbitrary: out) auto

lemma tok_loop_quoted:
  "squote \<notin> set stops \<Longrightarrow> squote \<notin> set q \<Longrightarrow>
     tok_loop stops out e (squote # q @ squote # r) = tok_loop stops (out @ q) (length out + length q) r"
  by (simp add: take_to_append)

lemma tok_loop_stop: "c \<in> set stops \<Longrightarrow> tok_loop stops out e (c # r) = (out, e, c # r)"
  by simp

lemma tok_loop_end: "tok_loop stops out e [] = (out, e, [])"
  by simp

lemmas tok_loop_rules = tok_loop_plain tok_loop_quoted tok_loop_stop tok_loop_end

lemma tok_loop_rest_le: "length (snd (snd (tok_loop stops out e p))) \<le> length p"
proof (induction stops out e p rule: tok_loop.induct)
  case (2 stops out e c p)
  show ?case
  proof (cases "take_to squote p")
    case None
    then show ?thesis using "2.IH" by (auto simp: Let_def)
  next
    case (Some a)
    then obtain q p' where a: "take_to squote p = Some (q, p')" by (cases a) auto
    then have lt: "length p' < length p" by (auto dest: take_to_Some_length)
    show ?thesis
    proof (cases "c \<notin> set stops \<and> \<not> (c = bslash \<and> p \<noteq> []) \<and> c = squote")
      case True
      with a "2.IH"(2) have
        "length (snd (snd (tok_loop stops (out @ q) (length out + length q) p'))) \<le> length p'"
        by auto
      with True a lt show ?thesis by auto
    next
      case False
      with "2.IH"(1,3) show ?thesis by (auto simp: Let_def intro: le_SucI)
    qed
  qed
qed simp

lemma av_get_token_rest_le: "av_get_token stops s = (v, r) \<Longrightarrow> length r \<le> length s"
  using tok_loop_rest_le [of stops "[]" 0 "dropWhile is_ws s"] length_dropWhile_le [of is_ws s]
  by (auto simp: av_get_token_def split: prod.splits)

subsection \<open>Strings made of plain and quoted pieces\<close>

text \<open>
  The argument strings the repository writes alternate plain text with
  \<open>'...'\<close>-quoted text. \<open>render_seg\<close> writes a piece as it appears in the
  string, \<open>seg_text\<close> is what \<open>av_get_token\<close> makes of it.
\<close>

datatype seg = Plain string | Quoted string

fun render_seg :: "seg \<Rightarrow> string" where
  "render_seg (Plain w) = w"
| "render_seg (Quoted q) = squote # q @ [squote]"

fun seg_text :: "seg \<Rightarrow> string" where
  "seg_text (Plain w) = w"
| "seg_text (Quoted q) = q"

fun seg_ok :: "string \<Rightarrow> seg \<Rightarrow> bool" where
  "seg_ok stops (Plain w) = plain_for stops w"
| "seg_ok stops (Quoted q) = (squote \<notin> set q)"

fun seg_end :: "nat \<Rightarrow> nat \<Rightarrow> seg list \<Rightarrow> nat" where
  "seg_end n e [] = e"
| "seg_end n e (Plain w # ss) = seg_end (n + length w) e ss"
| "seg_end n e (Quoted q # ss) = seg_end (n + length q) (n + length q) ss"

definition render_segs :: "seg list \<Rightarrow> string" where
  "render_segs ss = concat (map render_seg ss)"

definition segs_text :: "seg list \<Rightarrow> string" where
  "segs_text ss = concat (map seg_text ss)"

lemma tok_loop_segs:
  assumes "squote \<notin> set stops" "\<forall>x \<in> set ss. seg_ok stops x"
  shows "tok_loop stops out e (render_segs ss @ r) =
           tok_loop stops (out @ segs_text ss) (seg_end (length out) e ss) r"
  using assms(2)
proof (induction ss arbitrary: out e)
  case Nil
  then show ?case by (simp add: render_segs_def segs_text_def)
next
  case (Cons x ss)
  then show ?case
  proof (cases x)
    case (Plain w)
    with Cons show ?thesis
      by (simp add: render_segs_def segs_text_def tok_loop_plain)
  next
    case (Quoted q)
    with Cons assms(1) show ?thesis
      by (simp add: render_segs_def segs_text_def take_to_append)
  qed
qed

definition starts_non_ws :: "string \<Rightarrow> bool" where
  "starts_non_ws s \<longleftrightarrow> (case s of [] \<Rightarrow> True | c # _ \<Rightarrow> \<not> is_ws c)"

definition at_stop :: "string \<Rightarrow> string \<Rightarrow> bool" where
  "at_stop stops r \<longleftrightarrow> (case r of [] \<Rightarrow> True | c # _ \<Rightarrow> c \<in> set stops)"

lemma seg_end_last_quoted:
  "seg_end n e (ss @ [Quoted q]) = n + length (segs_text (ss @ [Quoted q]))"
proof (induction ss arbitrary: n e)
  case (Cons x ss)
  then show ?case by (cases x) (simp_all add: segs_text_def)
qed (simp add: segs_text_def)

lemma tok_loop_at_stop: "at_stop stops r \<Longrightarrow> tok_loop stops out e r = (out, e, r)"
  by (cases r) (auto simp: at_stop_def)

text \<open>A token made of pieces that ends with a quoted piece comes back unquoted, untrimmed.\<close>

lemma av_get_token_segs:
  assumes "squote \<notin> set stops" "\<forall>x \<in> set (ss @ [Quoted q]). seg_ok stops x"
    and "starts_non_ws (render_segs (ss @ [Quoted q]) @ r)" "at_stop stops r"
  shows "av_get_token stops (render_segs (ss @ [Quoted q]) @ r) = (segs_text (ss @ [Quoted q]), r)"
proof -
  let ?w = "render_segs (ss @ [Quoted q]) @ r"
  have "dropWhile is_ws ?w = ?w"
    using assms(3) by (cases ?w) (auto simp: starts_non_ws_def)
  moreover have "tok_loop stops [] 0 ?w =
      (segs_text (ss @ [Quoted q]), length (segs_text (ss @ [Quoted q])), r)"
    using tok_loop_segs [OF assms(1,2), of "[]" 0 r] assms(4)
    by (simp add: seg_end_last_quoted tok_loop_at_stop)
  ultimately show ?thesis
    by (simp add: av_get_token_def strip_trailing_ws_def)
qed

definition trimmed :: "string \<Rightarrow> bool" where
  "trimmed v \<longleftrightarrow> v = [] \<or> (\<not> is_ws (hd v) \<and> \<not> is_ws (last v))"

lemma av_get_token_plain:
  assumes "plain_for stops v" "trimmed v" "at_stop stops r" "\<forall>x \<in> set stops. \<not> is_ws x"
  shows "av_get_token stops (v @ r) = (v, r)"
proof -
  have r0: "dropWhile is_ws r = r"
    using assms(3,4) by (cases r) (auto simp: at_stop_def)
  have "dropWhile is_ws (v @ r) = v @ r"
    using assms(2) r0 by (cases v) (auto simp: trimmed_def)
  moreover have "tok_loop stops [] 0 (v @ r) = (v, 0, r)"
    using assms(1,3) by (simp add: tok_loop_plain tok_loop_at_stop)
  moreover have "rev (dropWhile is_ws (rev v)) = v"
    using assms(2) by (cases "rev v") (auto simp: trimmed_def)
  ultimately show ?thesis
    by (simp add: av_get_token_def strip_trailing_ws_def)
qed

section \<open>The filter chain\<close>

text \<open>
  One filter of a chain (\<open>parse_filter\<close> of \<open>libavfilter/graphparser.c\<close>): the name
  up to \<open>=\<close>, \<open>,\<close>, \<open>;\<close> or \<open>[\<close>, then, after \<open>=\<close>, the argument token up to an
  unquoted \<open>[\<close>, \<open>]\<close>, \<open>,\<close> or \<open>;\<close>. A chain is filters separated by \<open>,\<close>;
  an empty name is an error, and anything else after a filter (a \<open>;\<close> or a
  link label) is outside the single-chain descriptions modelled here (\<open>None\<close>).
\<close>

definition parse_filter :: "string \<Rightarrow> (string \<times> string option) \<times> string" where
  "parse_filter s =
     (case av_get_token ''=,;['' s of
        (name, c # r') \<Rightarrow>
          if c = CHR ''=''
          then (case av_get_token ''[],;'' r' of (v, r'') \<Rightarrow> ((name, Some v), r''))
          else ((name, None), c # r')
      | (name, []) \<Rightarrow> ((name, None), []))"

lemma parse_filter_rest_le: "parse_filter s = (f, r) \<Longrightarrow> length r \<le> length s"
  by (auto simp: parse_filter_def split: prod.splits list.splits if_splits
           dest!: av_get_token_rest_le)

lemma dropWhile_Cons_shorter:
  "dropWhile P r = c # r' \<Longrightarrow> length r' < length r"
  using length_dropWhile_le [of P r] by simp

function parse_chain :: "string \<Rightarrow> (string \<times> string option) list option" where
  "parse_chain s =
     (case parse_filter s of
        ((name, opts), r) \<Rightarrow>
          if name = [] then None
          else (case dropWhile is_ws r of
                  [] \<Rightarrow> Some [(name, opts)]
                | c # r' \<Rightarrow>
                    if c = CHR '','' then map_option (Cons (name, opts)) (parse_chain r')
                    else None))"
  by pat_completeness auto
termination
proof (relation "measure length")
  fix s f r c r'
  assume "(f, r) = parse_filter s" "dropWhile is_ws r = c # r'"
  then have "length r \<le> length s" "length r' < length r"
    by (auto intro: parse_filter_rest_le [OF sym] dropWhile_Cons_shorter)
  then show "(r', s) \<in> measure length" by simp
qed simp

declare parse_chain.simps [simp del]

lemma av_get_token_skip_ws: "is_ws c \<Longrightarrow> av_get_token stops (c # s) = av_get_token stops s"
  by (simp add: av_get_token_def)

lemma parse_chain_skip_ws: "is_ws c \<Longrightarrow> parse_chain (c # s) = parse_chain s"
  by (simp add: parse_chain.simps [of "c # s"] parse_chain.simps [of s] parse_filter_def
                av_get_token_skip_ws)

definition filter_name_ok :: "string \<Rightarrow> bool" where
  "filter_name_ok n \<longleftrightarrow> n \<noteq> [] \<and> plain_for ''=,;['' n \<and> trimmed n"

lemma parse_chain_filter:
  assumes "filter_name_ok n" "av_get_token ''[],;'' (a @ rest) = (v, rest)"
  shows "parse_chain (n @ CHR ''='' # a @ rest) =
           (case dropWhile is_ws rest of
              [] \<Rightarrow> Some [(n, Some v)]
            | c # r' \<Rightarrow>
                if c = CHR '','' then map_option (Cons (n, Some v)) (parse_chain r') else None)"
proof -
  have "av_get_token ''=,;['' (n @ CHR ''='' # a @ rest) = (n, CHR ''='' # a @ rest)"
    using assms(1) by (intro av_get_token_plain) (auto simp: filter_name_ok_def at_stop_def is_ws_def)
  then have "parse_filter (n @ CHR ''='' # a @ rest) = ((n, Some v), rest)"
    using assms(2) by (simp add: parse_filter_def)
  then show ?thesis
    using assms(1) by (simp add: parse_chain.simps [of "n @ CHR ''='' # a @ rest"] filter_name_ok_def)
qed

section \<open>Filter options\<close>

text \<open>
  A filter's argument string is a list of \<open>key=value\<close> pairs separated by \<open>:\<close>
  (\<open>process_options\<close> of \<open>libavfilter/avfilter.c\<close> with \<open>av_opt_get_key_value\<close>):
  the key is a run of key characters followed by \<open>=\<close>; the value is an
  \<open>av_get_token\<close> up to an unquoted \<open>:\<close>. A value without a key is positional and is
  accepted only before the first keyed pair (\<open>imp\<close>); a later one is an error.
\<close>

definition is_key_char :: "char \<Rightarrow> bool" where
  "is_key_char c \<longleftrightarrow>
     (let n = (of_char c :: nat) in
        (97 \<le> n \<and> n \<le> 122) \<or> (65 \<le> n \<and> n \<le> 90) \<or> (48 \<le> n \<and> n \<le> 57) \<or>
        c = CHR ''-'' \<or> c = CHR ''_'' \<or> c = CHR ''/'' \<or> c = CHR ''.'')"

definition get_key :: "string \<Rightarrow> (string \<times> string) option" where
  "get_key s =
     (let s1 = dropWhile is_ws s;
          s2 = dropWhile is_ws (dropWhile is_key_char s1)
      in case s2 of
           c # s3 \<Rightarrow> if c = CHR ''='' then Some (takeWhile is_key_char s1, s3) else None
         | [] \<Rightarrow> None)"

lemma get_key_rest_le: "get_key s = Some (k, r) \<Longrightarrow> length r < length s"
proof -
  assume a: "get_key s = Some (k, r)"
  let ?s2 = "dropWhile is_ws (dropWhile is_key_char (dropWhile is_ws s))"
  have "length ?s2 \<le> length s"
    by (meson length_dropWhile_le order_trans)
  with a show ?thesis
    by (cases ?s2) (auto simp: get_key_def Let_def split: if_splits)
qed

function parse_opts :: "bool \<Rightarrow> string \<Rightarrow> (string option \<times> string) list option" where
  "parse_opts imp [] = Some []"
| "parse_opts imp (c # cs) =
     (case get_key (c # cs) of
        Some (k, s1) \<Rightarrow>
          (case av_get_token '':'' s1 of
             (v, s2) \<Rightarrow> map_option (Cons (Some k, v)) (parse_opts False (drop 1 s2)))
      | None \<Rightarrow>
          if imp then
            (case av_get_token '':'' (c # cs) of
               (v, s2) \<Rightarrow> map_option (Cons (None, v)) (parse_opts True (drop 1 s2)))
          else None)"
  by pat_completeness auto
termination
  by (relation "measure (\<lambda>(imp, s). length s)")
     (auto dest!: get_key_rest_le av_get_token_rest_le [OF sym])

definition kv_string :: "string \<times> string \<Rightarrow> string" where
  "kv_string kv = fst kv @ CHR ''='' # snd kv"

definition key_ok :: "string \<Rightarrow> bool" where
  "key_ok k \<longleftrightarrow> k \<noteq> [] \<and> (\<forall>x \<in> set k. is_key_char x)"

definition value_ok :: "string \<Rightarrow> bool" where
  "value_ok v \<longleftrightarrow> plain_for '':'' v \<and> trimmed v"

lemma key_char_not_ws: "is_key_char c \<Longrightarrow> \<not> is_ws c"
  by (auto simp: is_key_char_def is_ws_def)

lemma get_key_key_ok:
  assumes "key_ok k"
  shows "get_key (k @ CHR ''='' # rest) = Some (k, rest)"
proof -
  have eq: "\<not> is_key_char CHR ''=''" "\<not> is_ws CHR ''=''"
    by (simp_all add: is_key_char_def is_ws_def)
  have "dropWhile is_ws (k @ CHR ''='' # rest) = k @ CHR ''='' # rest"
    using assms key_char_not_ws by (cases k) (auto simp: key_ok_def)
  moreover have "takeWhile is_key_char (k @ CHR ''='' # rest) = k"
    using assms eq by (simp add: key_ok_def takeWhile_append2)
  moreover have "dropWhile is_key_char (k @ CHR ''='' # rest) = CHR ''='' # rest"
    using assms eq by (simp add: key_ok_def dropWhile_append2)
  ultimately show ?thesis
    using eq by (simp add: get_key_def)
qed

text \<open>Keyed pairs with plain, trimmed values are read back exactly, in order.\<close>

lemma parse_opts_kvs:
  assumes "\<forall>kv \<in> set kvs. key_ok (fst kv) \<and> value_ok (snd kv)"
  shows "parse_opts imp (py_join '':'' (map kv_string kvs)) = Some (map (\<lambda>kv. (Some (fst kv), snd kv)) kvs)"
  using assms
proof (induction kvs arbitrary: imp)
  case Nil
  then show ?case by simp
next
  case (Cons kv kvs)
  obtain k v where kv: "kv = (k, v)" by (cases kv)
  let ?R = "if kvs = [] then [] else CHR '':'' # py_join '':'' (map kv_string kvs)"
  have str: "py_join '':'' (map kv_string (kv # kvs)) = k @ CHR ''='' # v @ ?R"
    by (cases kvs) (simp_all add: kv kv_string_def)
  have k: "key_ok k" and v: "value_ok v"
    using Cons.prems kv by auto
  then obtain c cs where kc: "k = c # cs" by (cases k) (auto simp: key_ok_def)
  have "av_get_token '':'' (v @ ?R) = (v, ?R)"
    using v by (intro av_get_token_plain) (auto simp: value_ok_def at_stop_def is_ws_def)
  moreover have "parse_opts False (drop 1 ?R) = Some (map (\<lambda>kv. (Some (fst kv), snd kv)) kvs)"
    using Cons.IH Cons.prems by auto
  ultimately show ?case
    using get_key_key_ok [OF k, of "v @ ?R"] kv kc str by simp
qed

section \<open>Expressions\<close>

text \<open>
  The expressions of \<open>libavutil/eval.c\<close> that the repository writes: numbers, the
  timestamp variable \<open>t\<close>, sums, \<open>between(x,a,b)\<close> (1 when \<open>a \<le> x \<le> b\<close>,
  else 0) and \<open>not(x)\<close> (1 when \<open>x = 0\<close>, else 0). Sums associate to the left,
  as \<open>parse_subexpr\<close> builds them.
\<close>

datatype fexpr =
    ENum int
  | EVar string
  | EAdd fexpr fexpr
  | EBetween fexpr fexpr fexpr
  | ENot fexpr

primrec eval_fexpr :: "(string \<Rightarrow> real) \<Rightarrow> fexpr \<Rightarrow> real" where
  "eval_fexpr env (ENum n) = of_int n"
| "eval_fexpr env (EVar x) = env x"
| "eval_fexpr env (EAdd a b) = eval_fexpr env a + eval_fexpr env b"
| "eval_fexpr env (EBetween x a b) =
     (if eval_fexpr env a \<le> eval_fexpr env x \<and> eval_fexpr env x \<le> eval_fexpr env b then 1 else 0)"
| "eval_fexpr env (ENot a) = (if eval_fexpr env a = 0 then 1 else 0)"

definition is_ident_char :: "char \<Rightarrow> bool" where
  "is_ident_char c \<longleftrightarrow> is_key_char c \<and> c \<noteq> CHR ''-'' \<and> c \<noteq> CHR ''/'' \<and> c \<noteq> CHR ''.''"

definition var_t :: "fexpr parser" where
  "var_t s = (case s of
                c # r \<Rightarrow> if c = CHR ''t'' \<and> (case r of [] \<Rightarrow> True | d # _ \<Rightarrow> \<not> is_ident_char d)
                         then Some (EVar ''t'', r) else None
              | [] \<Rightarrow> None)"

text \<open>
  The parser of sums and primaries. Its fuel bounds the nesting depth and the
  number of summands; the parse of a whole string (\<open>parse_fexpr\<close>) gives it more
  than the string's length and requires that all input is consumed.
\<close>

fun parse_sum :: "nat \<Rightarrow> fexpr parser"
and parse_sum_rest :: "nat \<Rightarrow> fexpr \<Rightarrow> fexpr parser"
and parse_prim :: "nat \<Rightarrow> fexpr parser" where
  "parse_sum 0 s = None"
| "parse_sum (Suc f) s =
     Option.bind (parse_prim f s) (\<lambda>(e, r). parse_sum_rest f e r)"
| "parse_sum_rest f e r =
     (case r of
        c # r' \<Rightarrow>
          if c = CHR ''+'' then
            (case f of
               0 \<Rightarrow> None
             | Suc f' \<Rightarrow> Option.bind (parse_prim f' r') (\<lambda>(e2, r2). parse_sum_rest f' (EAdd e e2) r2))
          else Some (e, r)
      | [] \<Rightarrow> Some (e, r))"
| "parse_prim 0 s = None"
| "parse_prim (Suc f) s =
     (case match_lit ''between('' s of
        Some r \<Rightarrow>
          Option.bind (parse_sum f r) (\<lambda>(a, r1).
          Option.bind (match_lit '','' r1) (\<lambda>r1'.
          Option.bind (parse_sum f r1') (\<lambda>(b, r2).
          Option.bind (match_lit '','' r2) (\<lambda>r2'.
          Option.bind (parse_sum f r2') (\<lambda>(c, r3).
          Option.bind (match_lit '')'' r3) (\<lambda>r4. Some (EBetween a b c, r4)))))))
      | None \<Rightarrow>
          (case match_lit ''not('' s of
             Some r \<Rightarrow>
               Option.bind (parse_sum f r) (\<lambda>(a, r1).
               Option.bind (match_lit '')'' r1) (\<lambda>r2. Some (ENot a, r2)))
           | None \<Rightarrow>
               (case var_t s of
                  Some x \<Rightarrow> Some x
                | None \<Rightarrow> map_option (\<lambda>(n, r). (ENum n, r)) (parse_int s))))"

definition parse_fexpr :: "string \<Rightarrow> fexpr option" where
  "parse_fexpr s = (case parse_sum (length s + 1) s of Some (e, []) \<Rightarrow> Some e | _ \<Rightarrow> None)"

section \<open>Reading back the repository's expressions\<close>

lemma digit_or_minus_not:
  assumes "is_digit c \<or> c = CHR ''-''"
  shows "c \<noteq> CHR ''b'' \<and> c \<noteq> CHR ''n'' \<and> c \<noteq> CHR ''t'' \<and> c \<noteq> CHR ''+''"
  using assms by (auto simp: is_digit_def)

lemma parse_prim_t:
  "\<not> is_ident_char c \<Longrightarrow> parse_prim (Suc f) (CHR ''t'' # c # r) = Some (EVar ''t'', c # r)"
  by (simp add: var_t_def)

lemma parse_prim_int:
  assumes "no_digit_start r"
  shows "parse_prim (Suc f) (py_str_int n @ r) = Some (ENum n, r)"
proof -
  obtain c cs where c: "py_str_int n = c # cs" "is_digit c \<or> c = CHR ''-''"
    using py_str_int_Cons by blast
  then have "CHR ''b'' \<noteq> c \<and> CHR ''n'' \<noteq> c \<and> CHR ''t'' \<noteq> c \<and> c \<noteq> CHR ''t''"
    using digit_or_minus_not by metis
  then have "parse_prim (Suc f) (py_str_int n @ r) = map_option (\<lambda>(n, r). (ENum n, r)) (parse_int (py_str_int n @ r))"
    using c(1) by (simp add: var_t_def)
  then show ?thesis
    using parse_int_py_str_int [OF assms] by simp
qed

lemma parse_sum_single:
  assumes "parse_prim f s = Some (e, r)" "\<not> (\<exists>r'. r = CHR ''+'' # r')"
  shows "parse_sum (Suc f) s = Some (e, r)"
  using assms by (cases r) auto

lemma comma_not_ident: "\<not> is_ident_char CHR '',''"
  by (simp add: is_ident_char_def is_key_char_def)

lemma parse_prim_between:
  "parse_prim (Suc (Suc (Suc f)))
     (''between(t,'' @ py_str_int a @ '','' @ py_str_int b @ '')'' @ rest) =
   Some (EBetween (EVar ''t'') (ENum a) (ENum b), rest)"
proof -
  have t: "parse_sum (Suc (Suc f)) (''t,'' @ py_str_int a @ '','' @ py_str_int b @ '')'' @ rest) =
      Some (EVar ''t'', '','' @ py_str_int a @ '','' @ py_str_int b @ '')'' @ rest)"
    by (rule parse_sum_single) (simp_all add: var_t_def comma_not_ident)
  have na: "parse_sum (Suc (Suc f)) (py_str_int a @ '','' @ py_str_int b @ '')'' @ rest) =
      Some (ENum a, '','' @ py_str_int b @ '')'' @ rest)"
    by (rule parse_sum_single [OF parse_prim_int]) (simp_all add: is_digit_def)
  have nb: "parse_sum (Suc (Suc f)) (py_str_int b @ '')'' @ rest) = Some (ENum b, '')'' @ rest)"
    by (rule parse_sum_single [OF parse_prim_int]) (simp_all add: is_digit_def)
  show ?thesis
    using t na nb by (simp del: parse_sum.simps)
qed

lemma parse_fexpr_prim:
  assumes "\<And>f. k \<le> f \<Longrightarrow> parse_prim f s = Some (e, [])" "k \<le> length s"
  shows "parse_fexpr s = Some e"
proof -
  have "parse_prim (length s) s = Some (e, [])"
    using assms by blast
  then have "parse_sum (length s + 1) s = Some (e, [])"
    by (simp del: parse_prim.simps)
  then show ?thesis
    unfolding parse_fexpr_def by (simp only: option.case prod.case list.case)
qed

section \<open>Reading a whole description\<close>

text \<open>
  The filters of a description with their parsed options: the chain parser, then
  the option parser on each argument string.
\<close>

definition read_filters :: "string \<Rightarrow> (string \<times> (string option \<times> string) list) list option" where
  "read_filters s =
     Option.bind (parse_chain s) (\<lambda>fs.
       those (map (\<lambda>(n, a). map_option (Pair n) (parse_opts True (case a of None \<Rightarrow> [] | Some v \<Rightarrow> v))) fs))"

lemma plain_for_py_join:
  "plain_for stops sep \<Longrightarrow> \<forall>x \<in> set xs. plain_for stops x \<Longrightarrow> plain_for stops (py_join sep xs)"
  by (induction sep xs rule: py_join.induct) (simp_all add: plain_for_append)

lemma parse_opts_positional:
  assumes "get_key v = None" "value_ok v" "v \<noteq> []"
  shows "parse_opts True v = Some [(None, v)]"
proof -
  obtain c cs where v: "v = c # cs" using assms(3) by (cases v) auto
  have "av_get_token '':'' (v @ []) = (v, [])"
    using assms(2) by (intro av_get_token_plain) (simp_all add: value_ok_def at_stop_def is_ws_def)
  then show ?thesis
    using assms(1) v by simp
qed

text \<open>A chain of a filter with one quoted argument and a filter with a plain one.\<close>

lemma read_filters_quoted_plain:
  assumes "filter_name_ok n1" "filter_name_ok n2"
    and "get_key q = None" "value_ok q" "q \<noteq> []"
    and "plain_for ''[],;'' w" "trimmed w" "parse_opts True w = Some [(None, w)]"
  shows "read_filters (n1 @ CHR ''='' # [squote] @ q @ [squote] @ CHR '','' # n2 @ CHR ''='' # w) =
           Some [(n1, [(None, q)]), (n2, [(None, w)])]"
proof -
  have sq: "squote \<notin> set q"
    using assms(4) plain_for_no_squote by (auto simp: value_ok_def)
  have t1: "av_get_token ''[],;'' (render_segs ([] @ [Quoted q]) @ CHR '','' # n2 @ CHR ''='' # w) =
      (segs_text ([] @ [Quoted q]), CHR '','' # n2 @ CHR ''='' # w)"
    using sq by (intro av_get_token_segs) (simp_all add: render_segs_def starts_non_ws_def is_ws_def at_stop_def)
  have t2: "av_get_token ''[],;'' (w @ []) = (w, [])"
    using assms(6,7) by (intro av_get_token_plain) (simp_all add: at_stop_def is_ws_def)
  have "parse_chain (n2 @ CHR ''='' # w @ []) = Some [(n2, Some w)]"
    using parse_chain_filter [OF assms(2) t2] by simp
  then have "parse_chain (n1 @ CHR ''='' # [squote] @ q @ [squote] @ CHR '','' # n2 @ CHR ''='' # w) =
      Some [(n1, Some q), (n2, Some w)]"
    using parse_chain_filter [OF assms(1) t1] by (simp add: render_segs_def segs_text_def is_ws_def)
  then show ?thesis
    using parse_opts_positional [OF assms(3,4,5)] assms(8) by (simp add: read_filters_def)
qed

end
