(* ===== verification/Table.thy ===== *)
theory Table
  imports FFmpeg
begin

text \<open>
  The time-range tables of \<^verbatim>\<open>src/app.py\<close>. Both editors hold a pandas DataFrame
  whose rows carry four integer columns (\<^verbatim>\<open>Start time (min)\<close>, \<^verbatim>\<open>Start time (sec)\<close>,
  \<^verbatim>\<open>End time (min)\<close>, \<^verbatim>\<open>End time (sec)\<close>); the annotation table adds a
  \<^verbatim>\<open>Text\<close> column. A row is the record \<open>time_range\<close>, extended by
  \<open>annotation_row\<close> with the text. The type of the cells is a parameter because the
  two builders read them differently: a row of the mixed-dtype annotation frame is an
  object Series whose integers are Python ints (\<open>int\<close>), a row of the all-integer
  trimming frame is an \<open>int64\<close> Series whose arithmetic wraps (\<open>64 word\<close>).
  The table is the list of rows in DataFrame order, which \<open>iterrows\<close> follows.
\<close>

record 'n time_range =
  start_min :: 'n
  start_sec :: 'n
  end_min :: 'n
  end_sec :: 'n

record 'n annotation_row = "'n time_range" +
  row_text :: string

type_synonym annotation_table = "int annotation_row list"
type_synonym trimming_table = "int64 time_range list"

section \<open>Default tables\<close>

definition get_default_annotation_data :: annotation_table where
  "get_default_annotation_data =
     [\<lparr>start_min = 0, start_sec = 5, end_min = 0, end_sec = 10, row_text = ''Sample text''\<rparr>]"

definition get_default_trimming_data :: trimming_table where
  "get_default_trimming_data =
     [\<lparr>start_min = 0, start_sec = 5, end_min = 0, end_sec = 10\<rparr>]"

section \<open>Times in seconds\<close>

text \<open>
  Both builders compute \<open>row['... (min)'] * 60 + row['... (sec)']\<close> in the cell
  type: unbounded for Python ints, modulo \<open>2^64\<close> (read as signed) for numpy
  \<open>int64\<close>.
\<close>

definition start_total :: "('n::{times,plus,numeral}, 'z) time_range_scheme \<Rightarrow> 'n" where
  "start_total r = start_min r * 60 + start_sec r"

definition end_total :: "('n::{times,plus,numeral}, 'z) time_range_scheme \<Rightarrow> 'n" where
  "end_total r = end_min r * 60 + end_sec r"

text \<open>
  The expression both builders write for a row, \<open>between(t,{start},{end})\<close>, with the
  two totals already rendered.
\<close>

definition between_call :: "string \<Rightarrow> string \<Rightarrow> string" where
  "between_call a b = ''between(t,'' @ a @ '','' @ b @ '')''"

text \<open>
  The data model of the specification: minutes non-negative, seconds in
  \<open>[0, 60)\<close>, and the end after the start. The code checks none of it.
\<close>

definition wf_time_range :: "(int, 'z) time_range_scheme \<Rightarrow> bool" where
  "wf_time_range r \<longleftrightarrow>
     0 \<le> start_min r \<and> 0 \<le> start_sec r \<and> start_sec r < 60 \<and>
     0 \<le> end_min r \<and> 0 \<le> end_sec r \<and> end_sec r < 60 \<and>
     start_total r < end_total r"

text \<open>The signed reading of an \<open>int64\<close> cell, as numpy's \<open>str\<close> prints it.\<close>

definition int64_val :: "int64 \<Rightarrow> int" where
  "int64_val w = sint w"

text \<open>The abstract interval a row denotes, in whole seconds.\<close>

definition interval_of :: "(int, 'z) time_range_scheme \<Rightarrow> int \<times> int" where
  "interval_of r = (start_total r, end_total r)"

definition interval_of64 :: "(int64, 'z) time_range_scheme \<Rightarrow> int \<times> int" where
  "interval_of64 r = (int64_val (start_total r), int64_val (end_total r))"

section \<open>Lemmas\<close>

lemma minsec_div_mod:
  fixes m s :: int
  assumes "0 \<le> s" "s < 60"
  shows "(m * 60 + s) div 60 = m \<and> (m * 60 + s) mod 60 = s"
  using assms by simp

lemma sint_mult_add_60:
  fixes m s :: int64
  shows "sint (m * 60 + s) = signed_take_bit 63 (sint m * 60 + sint s)"
proof -
  have "sint (m * 60 + s) = signed_take_bit 63 (sint (m * 60) + sint s)"
    by (simp add: sint_word_add)
  also have "sint (m * 60) = signed_take_bit 63 (sint m * 60)"
    by (simp add: sint_word_mult)
  moreover have "signed_take_bit 63 (sint s) = sint s"
    using sint_ge [of s] sint_lt [of s] by (simp add: signed_take_bit_int_eq_self)
  ultimately have "sint (m * 60 + s) =
      signed_take_bit 63 (signed_take_bit 63 (sint m * 60) + signed_take_bit 63 (sint s))"
    by simp
  then show ?thesis
    by (simp only: signed_take_bit_add)
qed

lemma plain_for_py_str_int:
  assumes "\<forall>x \<in> set stops. \<not> is_digit x \<and> x \<noteq> CHR ''-''"
  shows "plain_for stops (py_str_int i)"
proof -
  have nb: "\<not> is_digit bslash" "\<not> is_digit squote"
    by (simp_all add: is_digit_def)
  have "x \<notin> set stops \<and> x \<noteq> bslash \<and> x \<noteq> squote" if x: "x \<in> set (py_str_int i)" for x
  proof -
    from x have d: "is_digit x \<or> x = CHR ''-''" by (rule py_str_int_chars)
    with assms have "x \<notin> set stops" by blast
    moreover from d nb have "x \<noteq> bslash \<and> x \<noteq> squote" by auto
    ultimately show ?thesis by simp
  qed
  then show ?thesis by (simp add: plain_for_def)
qed

lemma between_call_plain: "plain_for '':'' (between_call (py_str_int a) (py_str_int b))"
proof -
  have "plain_for '':'' (py_str_int i)" for i
    by (rule plain_for_py_str_int) (simp add: is_digit_def)
  then show ?thesis
    by (simp add: between_call_def plain_for_append)
qed

lemma between_call_no_squote: "squote \<notin> set (between_call (py_str_int a) (py_str_int b))"
  by (rule plain_for_no_squote [OF between_call_plain])

lemma between_call_trimmed: "trimmed (between_call x y)"
  by (simp add: between_call_def trimmed_def is_ws_def)

lemma parse_prim_between_call:
  assumes "3 \<le> f"
  shows "parse_prim f (between_call (py_str_int a) (py_str_int b) @ rest) =
           Some (EBetween (EVar ''t'') (ENum a) (ENum b), rest)"
proof -
  obtain g where g: "f = Suc (Suc (Suc g))"
    using assms by (intro that [of "f - 3"]) simp
  show ?thesis
    unfolding g between_call_def using parse_prim_between [of g a b rest]
    by (simp only: append_assoc)
qed

lemma parse_fexpr_between_call:
  "parse_fexpr (between_call (py_str_int a) (py_str_int b)) = Some (EBetween (EVar ''t'') (ENum a) (ENum b))"
proof (rule parse_fexpr_prim [of 3])
  fix f :: nat
  assume "3 \<le> f"
  from parse_prim_between_call [OF this, of a b "[]"] show
    "parse_prim f (between_call (py_str_int a) (py_str_int b)) = Some (EBetween (EVar ''t'') (ENum a) (ENum b), [])"
    by (simp only: append_Nil2)
qed (simp add: between_call_def)

lemma int64_val_range: "- (2 ^ 63) \<le> int64_val w \<and> int64_val w < 2 ^ 63"
  using sint_ge [of w] sint_lt [of w] by (simp add: int64_val_def)

end
