(* ===== verification/Annotation.thy ===== *)
theory Annotation
  imports Table FFmpeg
begin

text \<open>
  \<^verbatim>\<open>draw_text_on_video\<close> of \<^verbatim>\<open>src/app.py\<close>, its string building part: one
  \<^verbatim>\<open>drawtext\<close> filter per table row (the loop over \<^verbatim>\<open>df.iterrows()\<close>), joined with
  \<^verbatim>\<open>', '\<close>, embedded in the ffmpeg command line. The file-system effects of the
  function are in the theory \<open>Effects\<close>. The lemmas show what ffmpeg reads from the
  string: one filter per row, in order, with the row's text and its time window,
  as long as the text avoids the characters of ffmpeg's two quoting levels.
\<close>

section \<open>The builder\<close>

text \<open>One f-string per row (line 33); the totals are Python ints.\<close>

definition drawtext_string :: "int annotation_row \<Rightarrow> string" where
  "drawtext_string row =
     ''drawtext=text='' @ [squote] @ row_text row @ [squote] @
     '':fontcolor=yellow:fontsize=50:x=(w-text_w)/2:y=h-(text_h*2):box=1:boxcolor=black@0.5:enable='' @
     [squote] @ between_call (py_str_int (start_total row)) (py_str_int (end_total row)) @ [squote]"

definition drawtext_strings :: "annotation_table \<Rightarrow> string list" where
  "drawtext_strings df = map drawtext_string df"

definition draw_text_filter :: "annotation_table \<Rightarrow> string" where
  "draw_text_filter df = py_join '', '' (drawtext_strings df)"

text \<open>The command handed to \<^verbatim>\<open>os.system\<close> (line 40).\<close>

definition draw_text_command :: "annotation_table \<Rightarrow> path \<Rightarrow> path \<Rightarrow> string" where
  "draw_text_command df input_mp4_file output_mp4_file =
     ''ffmpeg -i '' @ input_mp4_file @ '' -vf '' @ [dquote] @ draw_text_filter df @ [dquote] @
     '' '' @ output_mp4_file"

section \<open>What the filters should be\<close>

text \<open>The options a row is meant to give its \<^verbatim>\<open>drawtext\<close> filter.\<close>

definition drawtext_kvs :: "int annotation_row \<Rightarrow> (string \<times> string) list" where
  "drawtext_kvs row =
     [(''text'', row_text row), (''fontcolor'', ''yellow''), (''fontsize'', ''50''),
      (''x'', ''(w-text_w)/2''), (''y'', ''h-(text_h*2)''), (''box'', ''1''),
      (''boxcolor'', ''black@0.5''),
      (''enable'', between_call (py_str_int (start_total row)) (py_str_int (end_total row)))]"

text \<open>
  A text survives both quoting levels unchanged when it has no \<open>'\<close> (it would end
  the graph-level quote), no \<open>:\<close> (it would end the option value), no backslash
  (an escape at either level) and no whitespace at either end (\<open>av_get_token\<close>
  trims it).
\<close>

definition text_ok :: "string \<Rightarrow> bool" where
  "text_ok t \<longleftrightarrow> plain_for '':'' t \<and> trimmed t"

section \<open>Lemmas\<close>

text \<open>The argument of one \<^verbatim>\<open>drawtext\<close> filter as plain and quoted pieces.\<close>

definition drawtext_segs :: "int annotation_row \<Rightarrow> seg list" where
  "drawtext_segs row =
     [Plain ''text='', Quoted (row_text row),
      Plain '':fontcolor=yellow:fontsize=50:x=(w-text_w)/2:y=h-(text_h*2):box=1:boxcolor=black@0.5:enable='',
      Quoted (between_call (py_str_int (start_total row)) (py_str_int (end_total row)))]"

lemma drawtext_string_segs:
  "drawtext_string row = ''drawtext'' @ CHR ''='' # render_segs (drawtext_segs row)"
  by (simp add: drawtext_string_def drawtext_segs_def render_segs_def)

lemma drawtext_segs_text:
  "segs_text (drawtext_segs row) = py_join '':'' (map kv_string (drawtext_kvs row))"
  by (simp add: drawtext_segs_def drawtext_kvs_def segs_text_def kv_string_def)

lemma drawtext_name_ok: "filter_name_ok ''drawtext''"
  by (simp add: filter_name_ok_def trimmed_def is_ws_def)

lemma av_get_token_drawtext:
  assumes "squote \<notin> set (row_text row)" "at_stop ''[],;'' rest"
  shows "av_get_token ''[],;'' (render_segs (drawtext_segs row) @ rest) =
           (segs_text (drawtext_segs row), rest)"
proof -
  let ?ss = "[Plain ''text='', Quoted (row_text row),
      Plain '':fontcolor=yellow:fontsize=50:x=(w-text_w)/2:y=h-(text_h*2):box=1:boxcolor=black@0.5:enable='']"
  let ?q = "between_call (py_str_int (start_total row)) (py_str_int (end_total row))"
  have ss: "drawtext_segs row = ?ss @ [Quoted ?q]"
    by (simp add: drawtext_segs_def)
  have ok: "\<forall>x \<in> set (?ss @ [Quoted ?q]). seg_ok ''[],;'' x"
    using assms(1) between_call_no_squote by simp
  have start: "starts_non_ws (render_segs (?ss @ [Quoted ?q]) @ rest)"
    by (simp add: render_segs_def starts_non_ws_def is_ws_def)
  show ?thesis
    unfolding ss by (rule av_get_token_segs [OF _ ok start assms(2)]) simp
qed

lemma parse_chain_draw_text:
  assumes "\<forall>r \<in> set df. squote \<notin> set (row_text r)" "df \<noteq> []"
  shows "parse_chain (draw_text_filter df) =
           Some (map (\<lambda>r. (''drawtext'', Some (segs_text (drawtext_segs r)))) df)"
  using assms
proof (induction df)
  case Nil
  then show ?case by simp
next
  case (Cons r df)
  show ?case
  proof (cases "df = []")
    case True
    have "av_get_token ''[],;'' (render_segs (drawtext_segs r) @ []) = (segs_text (drawtext_segs r), [])"
      using Cons.prems by (intro av_get_token_drawtext) (simp_all add: at_stop_def)
    from parse_chain_filter [OF drawtext_name_ok this] True show ?thesis
      by (simp add: draw_text_filter_def drawtext_strings_def drawtext_string_segs)
  next
    case False
    let ?rest = "'', '' @ draw_text_filter df"
    have str: "draw_text_filter (r # df) =
        ''drawtext'' @ CHR ''='' # render_segs (drawtext_segs r) @ ?rest"
      using False
      by (simp add: draw_text_filter_def drawtext_strings_def drawtext_string_segs py_join_Cons)
    have tok: "av_get_token ''[],;'' (render_segs (drawtext_segs r) @ ?rest) =
        (segs_text (drawtext_segs r), ?rest)"
      using Cons.prems by (intro av_get_token_drawtext) (simp_all add: at_stop_def)
    have "parse_chain (draw_text_filter (r # df)) =
        map_option (Cons (''drawtext'', Some (segs_text (drawtext_segs r))))
          (parse_chain (CHR '' '' # draw_text_filter df))"
      unfolding str using parse_chain_filter [OF drawtext_name_ok tok] by (simp add: is_ws_def)
    also have "parse_chain (CHR '' '' # draw_text_filter df) = parse_chain (draw_text_filter df)"
      by (simp add: parse_chain_skip_ws is_ws_def)
    finally show ?thesis
      using Cons False by simp
  qed
qed

lemma drawtext_kvs_ok:
  assumes "text_ok (row_text row)"
  shows "\<forall>kv \<in> set (drawtext_kvs row). key_ok (fst kv) \<and> value_ok (snd kv)"
proof -
  have keys: "\<forall>kv \<in> set (drawtext_kvs row). key_ok (fst kv)"
    by (simp add: drawtext_kvs_def key_ok_def is_key_char_def)
  have fixed: "value_ok ''yellow''" "value_ok ''50''" "value_ok ''(w-text_w)/2''"
    "value_ok ''h-(text_h*2)''" "value_ok ''1''" "value_ok ''black@0.5''"
    by (simp_all add: value_ok_def trimmed_def is_ws_def)
  have "value_ok (between_call x y)" if "x = py_str_int a" "y = py_str_int b" for x y a b
    using that between_call_plain between_call_trimmed by (simp add: value_ok_def)
  then have "value_ok (between_call (py_str_int (start_total row)) (py_str_int (end_total row)))"
    by blast
  with keys fixed assms show ?thesis
    by (simp add: drawtext_kvs_def value_ok_def text_ok_def)
qed

lemma parse_opts_drawtext:
  "text_ok (row_text row) \<Longrightarrow>
     parse_opts True (segs_text (drawtext_segs row)) =
       Some (map (\<lambda>kv. (Some (fst kv), snd kv)) (drawtext_kvs row))"
  unfolding drawtext_segs_text by (rule parse_opts_kvs [OF drawtext_kvs_ok])

lemma text_ok_no_squote: "text_ok t \<Longrightarrow> squote \<notin> set t"
  unfolding text_ok_def using plain_for_no_squote by blast

lemma read_filters_draw_text_rows:
  assumes "\<forall>r \<in> set df. text_ok (row_text r)" "df \<noteq> []"
  shows "read_filters (draw_text_filter df) =
           Some (map (\<lambda>r. (''drawtext'', map (\<lambda>kv. (Some (fst kv), snd kv)) (drawtext_kvs r))) df)"
proof -
  have "parse_chain (draw_text_filter df) =
      Some (map (\<lambda>r. (''drawtext'', Some (segs_text (drawtext_segs r)))) df)"
    using assms text_ok_no_squote by (intro parse_chain_draw_text) auto
  moreover have "\<forall>r \<in> set df. parse_opts True (segs_text (drawtext_segs r)) =
      Some (map (\<lambda>kv. (Some (fst kv), snd kv)) (drawtext_kvs r))"
    using assms(1) parse_opts_drawtext by blast
  ultimately show ?thesis
    by (simp add: read_filters_def comp_def those_map_Some)
qed

section \<open>Properties\<close>

text \<open>
  C1. ffmpeg reads the \<^verbatim>\<open>-vf\<close> argument built by \<^verbatim>\<open>draw_text_on_video\<close> as one
  \<^verbatim>\<open>drawtext\<close> filter per table row, in table order, each with exactly the options
  the f-string means: the row's text, the fixed style options, and the enable
  condition \<open>between(t,start,end)\<close> with the row's totals in seconds; provided the
  table is not empty and no text contains a quote, a colon or a backslash, or
  starts or ends with whitespace.
\<close>

theorem read_filters_draw_text:
  assumes "\<forall>r \<in> set df. text_ok (row_text r)" "df \<noteq> []"
  shows "read_filters (draw_text_filter df) =
           Some (map (\<lambda>r. (''drawtext'', map (\<lambda>kv. (Some (fst kv), snd kv)) (drawtext_kvs r))) df)"
  using assms by (rule read_filters_draw_text_rows)

theorem read_filters_draw_text_witness:
  "text_ok ''Hello'' \<and>
   read_filters (draw_text_filter
     [\<lparr>start_min = 0, start_sec = 5, end_min = 0, end_sec = 10, row_text = ''Hello''\<rparr>]) =
   Some [(''drawtext'',
          [(Some ''text'', ''Hello''), (Some ''fontcolor'', ''yellow''), (Some ''fontsize'', ''50''),
           (Some ''x'', ''(w-text_w)/2''), (Some ''y'', ''h-(text_h*2)''), (Some ''box'', ''1''),
           (Some ''boxcolor'', ''black@0.5''), (Some ''enable'', ''between(t,5,10)'')])]"
proof -
  let ?r = "\<lparr>start_min = 0 :: int, start_sec = 5, end_min = 0, end_sec = 10, row_text = ''Hello''\<rparr>"
  have h: "\<forall>r \<in> set [?r]. text_ok (row_text r)"
    by (simp add: text_ok_def trimmed_def is_ws_def)
  have v: "map (\<lambda>r. (''drawtext'', map (\<lambda>kv. (Some (fst kv), snd kv)) (drawtext_kvs r))) [?r] =
      [(''drawtext'',
          [(Some ''text'', ''Hello''), (Some ''fontcolor'', ''yellow''), (Some ''fontsize'', ''50''),
           (Some ''x'', ''(w-text_w)/2''), (Some ''y'', ''h-(text_h*2)''), (Some ''box'', ''1''),
           (Some ''boxcolor'', ''black@0.5''), (Some ''enable'', ''between(t,5,10)'')])]"
    by code_simp
  show ?thesis
    using read_filters_draw_text [OF h] v h by simp
qed

text \<open>
  C4. The filter ffmpeg reads from a row's \<^verbatim>\<open>drawtext\<close> string has an
  \<^verbatim>\<open>enable\<close> option whose expression evaluates, at every timestamp \<open>t\<close>, to 1
  exactly when \<open>t\<close> lies in the closed interval from the row's start to its end in
  seconds, and to 0 otherwise.
\<close>

theorem drawtext_enable_window:
  assumes "text_ok (row_text row)"
  shows "\<exists>opts v e. read_filters (drawtext_string row) = Some [(''drawtext'', opts)] \<and>
           map_of opts (Some ''enable'') = Some v \<and> parse_fexpr v = Some e \<and>
           (\<forall>env. eval_fexpr env e =
              (if of_int (start_total row) \<le> env ''t'' \<and> env ''t'' \<le> of_int (end_total row) then 1 else 0))"
proof -
  have "read_filters (draw_text_filter [row]) =
      Some [(''drawtext'', map (\<lambda>kv. (Some (fst kv), snd kv)) (drawtext_kvs row))]"
    using read_filters_draw_text_rows [of "[row]"] assms by simp
  then have "read_filters (drawtext_string row) =
      Some [(''drawtext'', map (\<lambda>kv. (Some (fst kv), snd kv)) (drawtext_kvs row))]"
    by (simp add: draw_text_filter_def drawtext_strings_def)
  moreover have "map_of (map (\<lambda>kv. (Some (fst kv), snd kv)) (drawtext_kvs row)) (Some ''enable'') =
      Some (between_call (py_str_int (start_total row)) (py_str_int (end_total row)))"
    by (simp add: drawtext_kvs_def)
  ultimately show ?thesis
    using parse_fexpr_between_call by auto
qed

theorem drawtext_enable_window_witness:
  "\<exists>opts v e. read_filters (drawtext_string
       \<lparr>start_min = 0, start_sec = 5, end_min = 0, end_sec = 10, row_text = ''Hi''\<rparr>) =
         Some [(''drawtext'', opts)] \<and>
     map_of opts (Some ''enable'') = Some v \<and> parse_fexpr v = Some e \<and>
     (\<forall>env. eval_fexpr env e = (if 5 \<le> env ''t'' \<and> env ''t'' \<le> 10 then 1 else 0))"
proof -
  have h: "text_ok (row_text \<lparr>start_min = 0 :: int, start_sec = 5, end_min = 0, end_sec = 10, row_text = ''Hi''\<rparr>)"
    by (simp add: text_ok_def trimmed_def is_ws_def)
  show ?thesis
    using drawtext_enable_window [OF h] by (simp add: start_total_def end_total_def)
qed

end
