(* ===== verification/Trim.thy ===== *)
theory Trim
  imports Table FFmpeg
begin

text \<open>
  \<^verbatim>\<open>trim_video\<close> of \<^verbatim>\<open>src/app.py\<close>, its string building part: one
  \<^verbatim>\<open>between(t,start,end)\<close> per row of the trimming table, joined with \<^verbatim>\<open>+\<close>, and
  the command whose \<^verbatim>\<open>-vf\<close> and \<^verbatim>\<open>-af\<close> arguments keep only the frames and samples
  for which \<^verbatim>\<open>not(...)\<close> of that sum holds, renumbering the timestamps after them.
  The rows of the all-integer trimming frame are numpy \<open>int64\<close> Series, so the
  totals are computed in \<open>64 word\<close> and printed as signed values. The lemmas show
  that ffmpeg's \<^verbatim>\<open>select\<close> and \<^verbatim>\<open>aselect\<close> keep exactly the timestamps outside
  every row's closed interval, and where the \<open>int64\<close> arithmetic stops agreeing
  with the times the user typed.
\<close>

section \<open>The builder\<close>

definition between_string :: "int64 time_range \<Rightarrow> string" where
  "between_string row =
     between_call (py_str_int (int64_val (start_total row))) (py_str_int (int64_val (end_total row)))"

definition between_strings :: "trimming_table \<Rightarrow> string list" where
  "between_strings df = map between_string df"

definition trim_joined :: "trimming_table \<Rightarrow> string" where
  "trim_joined df = py_join ''+'' (between_strings df)"

text \<open>The two quoted arguments and the whole command of line 54.\<close>

definition trim_vf_arg :: "trimming_table \<Rightarrow> string" where
  "trim_vf_arg df =
     ''select='' @ [squote] @ ''not('' @ trim_joined df @ '')'' @ [squote] @ '',setpts=N/FRAME_RATE/TB''"

definition trim_af_arg :: "trimming_table \<Rightarrow> string" where
  "trim_af_arg df =
     ''aselect='' @ [squote] @ ''not('' @ trim_joined df @ '')'' @ [squote] @ '',asetpts=N/SR/TB''"

definition trim_command :: "trimming_table \<Rightarrow> path \<Rightarrow> path \<Rightarrow> string" where
  "trim_command df input_mp4_file output_mp4_file =
     ''ffmpeg -i '' @ input_mp4_file @ '' -vf '' @ [dquote] @ trim_vf_arg df @ [dquote] @
     '' -af '' @ [dquote] @ trim_af_arg df @ [dquote] @ '' '' @ output_mp4_file"

section \<open>Specification\<close>

text \<open>
  What trimming promises: a timestamp is kept exactly when it lies in none of the
  rows' closed intervals, as the rows' totals are printed.
\<close>

definition in_interval :: "real \<Rightarrow> int \<times> int \<Rightarrow> bool" where
  "in_interval t iv \<longleftrightarrow> of_int (fst iv) \<le> t \<and> t \<le> of_int (snd iv)"

definition kept :: "trimming_table \<Rightarrow> real \<Rightarrow> bool" where
  "kept df t \<longleftrightarrow> (\<forall>r \<in> set df. \<not> in_interval t (interval_of64 r))"

definition select_expr :: "trimming_table \<Rightarrow> string" where
  "select_expr df = ''not('' @ trim_joined df @ '')''"

text \<open>The expression tree ffmpeg builds for the sum: left-nested additions.\<close>

definition between_node :: "int64 time_range \<Rightarrow> fexpr" where
  "between_node r =
     EBetween (EVar ''t'') (ENum (int64_val (start_total r))) (ENum (int64_val (end_total r)))"

definition sum_tree :: "fexpr \<Rightarrow> trimming_table \<Rightarrow> fexpr" where
  "sum_tree acc rs = foldl (\<lambda>a r. EAdd a (between_node r)) acc rs"

section \<open>Lemmas\<close>

lemma parse_prim_between_string:
  "3 \<le> f \<Longrightarrow> parse_prim f (between_string r @ rest) = Some (between_node r, rest)"
  by (simp add: between_string_def between_node_def parse_prim_between_call)

lemma parse_sum_rest_betweens:
  assumes "length rs + 3 \<le> f" "\<not> (\<exists>r'. rest = CHR ''+'' # r')"
  shows "parse_sum_rest f acc (concat (map (\<lambda>r. ''+'' @ between_string r) rs) @ rest) =
           Some (sum_tree acc rs, rest)"
  using assms(1)
proof (induction rs arbitrary: f acc)
  case Nil
  with assms(2) show ?case by (cases rest) (auto simp: sum_tree_def)
next
  case (Cons r rs)
  obtain g where g: "f = Suc g" using Cons.prems by (cases f) auto
  have p: "parse_prim g (between_string r @ concat (map (\<lambda>r. ''+'' @ between_string r) rs) @ rest) =
      Some (between_node r, concat (map (\<lambda>r. ''+'' @ between_string r) rs) @ rest)"
    using Cons.prems g by (intro parse_prim_between_string) simp
  have ih: "parse_sum_rest g (EAdd acc (between_node r)) (concat (map (\<lambda>r. ''+'' @ between_string r) rs) @ rest) =
      Some (sum_tree (EAdd acc (between_node r)) rs, rest)"
    using Cons.prems g by (intro Cons.IH) simp
  show ?case
    using p ih by (simp add: g sum_tree_def)
qed

lemma trim_joined_Cons:
  "trim_joined (r # rs) = between_string r @ concat (map (\<lambda>r. ''+'' @ between_string r) rs)"
  by (simp add: trim_joined_def between_strings_def py_join_concat comp_def)

lemma parse_prim_select_expr:
  assumes "length rs + 5 \<le> f"
  shows "parse_prim f (select_expr (r # rs)) = Some (ENot (sum_tree (between_node r) rs), [])"
proof -
  obtain g where g: "f = Suc (Suc g)" and lg: "length rs + 3 \<le> g"
    using assms by (intro that [of "f - 2"]) auto
  have "parse_sum (Suc g) (trim_joined (r # rs) @ '')'') = Some (sum_tree (between_node r) rs, '')'')"
    using parse_prim_between_string [of g r] parse_sum_rest_betweens [OF lg, of "'')''"] lg
    by (simp add: trim_joined_Cons)
  then show ?thesis
    by (simp add: g select_expr_def del: parse_sum.simps)
qed

lemma length_concat_plus: "length rs \<le> length (concat (map (\<lambda>r. ''+'' @ h r) rs))"
  by (induction rs) auto

lemma parse_fexpr_select_expr:
  "parse_fexpr (select_expr (r # rs)) = Some (ENot (sum_tree (between_node r) rs))"
proof (rule parse_fexpr_prim [of "length rs + 5"])
  fix f :: nat
  assume "length rs + 5 \<le> f"
  then show "parse_prim f (select_expr (r # rs)) = Some (ENot (sum_tree (between_node r) rs), [])"
    by (rule parse_prim_select_expr)
next
  show "length rs + 5 \<le> length (select_expr (r # rs))"
    using length_concat_plus [of rs between_string]
    by (simp add: select_expr_def trim_joined_Cons between_string_def between_call_def)
qed

lemma eval_sum_tree:
  "eval_fexpr env (sum_tree acc rs) =
     eval_fexpr env acc + sum_list (map (\<lambda>r. if in_interval (env ''t'') (interval_of64 r) then 1 else 0) rs)"
  by (induction rs arbitrary: acc)
     (simp_all add: sum_tree_def between_node_def in_interval_def interval_of64_def)

lemma eval_not_sum_tree:
  "eval_fexpr env (ENot (sum_tree (between_node r) rs)) \<noteq> 0 \<longleftrightarrow> kept (r # rs) (env ''t'')"
proof -
  let ?ind = "\<lambda>r. if in_interval (env ''t'') (interval_of64 r) then 1 else (0::real)"
  have "eval_fexpr env (sum_tree (between_node r) rs) = sum_list (map ?ind (r # rs))"
    by (simp add: eval_sum_tree between_node_def in_interval_def interval_of64_def)
  moreover have "sum_list (map ?ind (r # rs)) = 0 \<longleftrightarrow> (\<forall>x \<in> set (map ?ind (r # rs)). x = 0)"
    by (rule sum_list_nonneg_eq_0_iff) auto
  ultimately show ?thesis
    by (simp only: indicators_all_zero kept_def eval_fexpr.simps) simp
qed

lemma between_string_plain: "plain_for '':'' (between_string r)"
  by (simp add: between_string_def between_call_plain)

lemma select_expr_value_ok: "value_ok (select_expr df)"
proof -
  have "plain_for '':'' (trim_joined df)"
    unfolding trim_joined_def between_strings_def
    by (rule plain_for_py_join) (simp_all add: between_string_plain)
  then show ?thesis
    by (simp add: value_ok_def select_expr_def plain_for_append trimmed_def is_ws_def)
qed

lemma get_key_select_expr: "get_key (select_expr df) = None"
  by (simp add: get_key_def select_expr_def is_key_char_def is_ws_def)

lemma select_expr_nonempty: "select_expr df \<noteq> []"
  by (simp add: select_expr_def)

lemma read_filters_trim_vf:
  "read_filters (trim_vf_arg df) =
     Some [(''select'', [(None, select_expr df)]), (''setpts'', [(None, ''N/FRAME_RATE/TB'')])]"
proof -
  have "trim_vf_arg df = ''select'' @ CHR ''='' # [squote] @ select_expr df @ [squote] @
      CHR '','' # ''setpts'' @ CHR ''='' # ''N/FRAME_RATE/TB''"
    by (simp add: trim_vf_arg_def select_expr_def)
  moreover have "parse_opts True ''N/FRAME_RATE/TB'' = Some [(None, ''N/FRAME_RATE/TB'')]"
    by code_simp
  ultimately show ?thesis
    using get_key_select_expr select_expr_value_ok select_expr_nonempty
    by (simp only:) (rule read_filters_quoted_plain,
        simp_all add: filter_name_ok_def trimmed_def is_ws_def)
qed

lemma read_filters_trim_af:
  "read_filters (trim_af_arg df) =
     Some [(''aselect'', [(None, select_expr df)]), (''asetpts'', [(None, ''N/SR/TB'')])]"
proof -
  have "trim_af_arg df = ''aselect'' @ CHR ''='' # [squote] @ select_expr df @ [squote] @
      CHR '','' # ''asetpts'' @ CHR ''='' # ''N/SR/TB''"
    by (simp add: trim_af_arg_def select_expr_def)
  moreover have "parse_opts True ''N/SR/TB'' = Some [(None, ''N/SR/TB'')]"
    by code_simp
  ultimately show ?thesis
    using get_key_select_expr select_expr_value_ok select_expr_nonempty
    by (simp only:) (rule read_filters_quoted_plain,
        simp_all add: filter_name_ok_def trimmed_def is_ws_def)
qed

lemma signed_take_bit_mod:
  "signed_take_bit 63 (x :: int) = (x + 2 ^ 63) mod 2 ^ 64 - 2 ^ 63"
  by (simp add: signed_take_bit_eq_take_bit_shift take_bit_eq_mod)

section \<open>Properties\<close>

text \<open>
  C2. For a non-empty trimming table, ffmpeg reads the \<^verbatim>\<open>-vf\<close> argument of
  \<^verbatim>\<open>trim_video\<close> as a \<^verbatim>\<open>select\<close> filter followed by \<^verbatim>\<open>setpts\<close>, and the
  \<^verbatim>\<open>-af\<close> argument as \<^verbatim>\<open>aselect\<close> followed by \<^verbatim>\<open>asetpts\<close>, both selecting with
  the same expression; that expression evaluates to a non-zero value at a timestamp
  exactly when the timestamp lies in none of the rows' closed intervals. So the
  intervals of the table are the parts removed, in video and audio alike.
\<close>

theorem trim_removes_intervals:
  assumes "df \<noteq> []"
  shows "\<exists>e. read_filters (trim_vf_arg df) =
                Some [(''select'', [(None, select_expr df)]), (''setpts'', [(None, ''N/FRAME_RATE/TB'')])] \<and>
             read_filters (trim_af_arg df) =
                Some [(''aselect'', [(None, select_expr df)]), (''asetpts'', [(None, ''N/SR/TB'')])] \<and>
             parse_fexpr (select_expr df) = Some e \<and>
             (\<forall>env. eval_fexpr env e \<noteq> 0 \<longleftrightarrow> kept df (env ''t''))"
proof -
  obtain r rs where df: "df = r # rs"
    using assms by (cases df) auto
  show ?thesis
    using read_filters_trim_vf read_filters_trim_af parse_fexpr_select_expr eval_not_sum_tree
    unfolding df by blast
qed

theorem trim_removes_intervals_witness:
  "select_expr [\<lparr>start_min = 0, start_sec = 5, end_min = 0, end_sec = 10\<rparr>,
                \<lparr>start_min = 1, start_sec = 0, end_min = 1, end_sec = 5\<rparr>] =
     ''not(between(t,5,10)+between(t,60,65))'' \<and>
   (\<exists>e. read_filters (trim_vf_arg [\<lparr>start_min = 0, start_sec = 5, end_min = 0, end_sec = 10\<rparr>,
                                   \<lparr>start_min = 1, start_sec = 0, end_min = 1, end_sec = 5\<rparr>]) =
          Some [(''select'', [(None, ''not(between(t,5,10)+between(t,60,65))'')]),
                (''setpts'', [(None, ''N/FRAME_RATE/TB'')])] \<and>
        parse_fexpr ''not(between(t,5,10)+between(t,60,65))'' = Some e \<and>
        (\<forall>env. eval_fexpr env e \<noteq> 0 \<longleftrightarrow>
           \<not> (5 \<le> env ''t'' \<and> env ''t'' \<le> 10) \<and> \<not> (60 \<le> env ''t'' \<and> env ''t'' \<le> 65)))"
proof -
  let ?df = "[\<lparr>start_min = 0 :: int64, start_sec = 5, end_min = 0, end_sec = 10\<rparr>,
              \<lparr>start_min = 1, start_sec = 0, end_min = 1, end_sec = 5\<rparr>]"
  have s: "select_expr ?df = ''not(between(t,5,10)+between(t,60,65))''"
    by code_simp
  have k: "kept ?df x \<longleftrightarrow> \<not> (5 \<le> x \<and> x \<le> 10) \<and> \<not> (60 \<le> x \<and> x \<le> 65)" for x
    by (simp add: kept_def in_interval_def interval_of64_def int64_val_def start_total_def end_total_def)
  show ?thesis
    using trim_removes_intervals [of ?df] s k by simp
qed

text \<open>
  C5. The number printed for a row's start (and likewise its end) is the true total
  \<open>minutes * 60 + seconds\<close> of the typed values exactly when that total fits in
  a signed 64-bit integer; otherwise numpy's \<open>int64\<close> arithmetic has wrapped it.
\<close>

theorem trim_total_exact_iff:
  "int64_val (start_total r) = sint (start_min r) * 60 + sint (start_sec r) \<longleftrightarrow>
     - (2 ^ 63) \<le> sint (start_min r) * 60 + sint (start_sec r) \<and>
     sint (start_min r) * 60 + sint (start_sec r) < 2 ^ 63"
  (is "?lhs \<longleftrightarrow> ?rng")
proof
  assume ?lhs
  then show ?rng
    using int64_val_range [of "start_total r"] by simp
next
  assume ?rng
  then show ?lhs
    by (simp add: int64_val_def start_total_def sint_mult_add_60 signed_take_bit_int_eq_self)
qed

theorem trim_total_exact_iff_witness:
  "int64_val (start_total \<lparr>start_min = 2, start_sec = 5, end_min = 3, end_sec = 0\<rparr>) = 125"
proof -
  have "int64_val (start_total \<lparr>start_min = 2 :: int64, start_sec = 5, end_min = 3, end_sec = 0\<rparr>) =
      sint (2 :: int64) * 60 + sint (5 :: int64)"
    using trim_total_exact_iff [of "\<lparr>start_min = 2 :: int64, start_sec = 5, end_min = 3, end_sec = 0\<rparr>"]
    by simp
  then show ?thesis by simp
qed

text \<open>
  C6. Wrap-around of the trimming totals: for every row, the number printed for its
  start and for its end is the true total \<open>minutes * 60 + seconds\<close> of the signed
  64-bit cells reduced modulo \<open>2\<^sup>6\<^sup>4\<close> into the signed range
  \<open>[-2\<^sup>6\<^sup>3, 2\<^sup>6\<^sup>3)\<close>, as numpy's \<open>int64\<close> arithmetic computes it.
\<close>

theorem trim_total_wraps:
  "int64_val (start_total r) =
     (sint (start_min r) * 60 + sint (start_sec r) + 2 ^ 63) mod 2 ^ 64 - 2 ^ 63 \<and>
   int64_val (end_total r) =
     (sint (end_min r) * 60 + sint (end_sec r) + 2 ^ 63) mod 2 ^ 64 - 2 ^ 63"
  by (simp add: int64_val_def start_total_def end_total_def sint_mult_add_60 signed_take_bit_mod)

end
