(* ===== verification/Effects.thy ===== *)
theory Effects
  imports Annotation Trim
begin

text \<open>
  The file-system side of \<^verbatim>\<open>src/app.py\<close>: \<^verbatim>\<open>draw_text_on_video\<close> and
  \<^verbatim>\<open>trim_video\<close> delete an existing output file and then run ffmpeg through
  \<^verbatim>\<open>os.system\<close>; the GIF button of \<^verbatim>\<open>main\<close> derives the GIF path with
  \<^verbatim>\<open>str.replace\<close>, deletes an existing file there and runs ffmpeg again. The file
  system is a map from paths to contents. The external process is a parameter
  \<open>tool\<close>: the effect of running a command line on the file system. Its exit status
  is not part of the model because the code discards it. \<^verbatim>\<open>os.remove\<close> raises on a
  missing file; that error is a value of \<open>py_error\<close>.
\<close>

type_synonym fs = "path \<rightharpoonup> string"
type_synonym tool = "string \<Rightarrow> fs \<Rightarrow> fs"

datatype py_error = FileNotFoundError path

definition os_path_exists :: "path \<Rightarrow> fs \<Rightarrow> bool" where
  "os_path_exists p fs \<longleftrightarrow> p \<in> dom fs"

definition os_remove :: "path \<Rightarrow> fs \<Rightarrow> py_error + fs" where
  "os_remove p fs = (if p \<in> dom fs then Inr (fs(p := None)) else Inl (FileNotFoundError p))"

text \<open>\<^verbatim>\<open>if os.path.exists(f): os.remove(f)\<close> (lines 35-36, 49-50, 164-165).\<close>

definition remove_if_exists :: "path \<Rightarrow> fs \<Rightarrow> py_error + fs" where
  "remove_if_exists p fs = (if os_path_exists p fs then os_remove p fs else Inr fs)"

definition draw_text_on_video :: "tool \<Rightarrow> annotation_table \<Rightarrow> path \<Rightarrow> path \<Rightarrow> fs \<Rightarrow> py_error + fs" where
  "draw_text_on_video tool df input_mp4_file output_mp4_file fs =
     (case remove_if_exists output_mp4_file fs of
        Inl e \<Rightarrow> Inl e
      | Inr fs' \<Rightarrow> Inr (tool (draw_text_command df input_mp4_file output_mp4_file) fs'))"

definition trim_video :: "tool \<Rightarrow> trimming_table \<Rightarrow> path \<Rightarrow> path \<Rightarrow> fs \<Rightarrow> py_error + fs" where
  "trim_video tool df input_mp4_file output_mp4_file fs =
     (case remove_if_exists output_mp4_file fs of
        Inl e \<Rightarrow> Inl e
      | Inr fs' \<Rightarrow> Inr (tool (trim_command df input_mp4_file output_mp4_file) fs'))"

section \<open>GIF export\<close>

definition gif_path :: "path \<Rightarrow> path" where
  "gif_path output_mp4_file = py_replace output_mp4_file ''.mp4'' ''.gif''"

definition gif_command :: "path \<Rightarrow> string" where
  "gif_command output_mp4_file = ''ffmpeg -i '' @ output_mp4_file @ '' '' @ gif_path output_mp4_file"

definition create_gif :: "tool \<Rightarrow> path \<Rightarrow> fs \<Rightarrow> py_error + fs" where
  "create_gif tool output_mp4_file fs =
     (case remove_if_exists (gif_path output_mp4_file) fs of
        Inl e \<Rightarrow> Inl e
      | Inr fs' \<Rightarrow> Inr (tool (gif_command output_mp4_file) fs'))"

section \<open>Lemmas\<close>

lemma remove_if_exists_ok [simp]: "remove_if_exists p fs = Inr (fs(p := None))"
  by (auto simp: remove_if_exists_def os_path_exists_def os_remove_def)

lemma gif_path_no_mp4: "\<not> sublist ''.mp4'' p \<Longrightarrow> gif_path p = p"
  by (simp add: gif_path_def py_replace_no_occurrence)

lemma create_gif_eq: "create_gif tool out fs = Inr (tool (gif_command out) (fs(gif_path out := None)))"
  by (simp add: create_gif_def)

section \<open>Properties\<close>

text \<open>
  C3. When the output name does not contain \<^verbatim>\<open>.mp4\<close> (for example
  \<^verbatim>\<open>clip.mov\<close>), the GIF path is the output name itself: the GIF button deletes
  the output video and then runs ffmpeg with that same, now missing, path as input
  and output.
\<close>

theorem create_gif_deletes_video:
  assumes "\<not> sublist ''.mp4'' out"
  shows "create_gif tool out fs = Inr (tool (''ffmpeg -i '' @ out @ '' '' @ out) (fs(out := None)))"
  using assms by (simp add: create_gif_eq gif_command_def gif_path_no_mp4)

theorem create_gif_deletes_video_witness:
  "\<not> sublist ''.mp4'' ''clip.mov'' \<and>
   create_gif (\<lambda>c fs. fs) ''clip.mov'' [''clip.mov'' \<mapsto> ''video''] = Inr Map.empty"
proof -
  have h: "\<not> sublist ''.mp4'' ''clip.mov''" by code_simp
  show ?thesis
    using create_gif_deletes_video [OF h, of "\<lambda>c fs. fs" "[''clip.mov'' \<mapsto> ''video'']"] h by simp
qed

text \<open>
  C7. Both processing functions delete the output path before ffmpeg runs and never
  raise: when ffmpeg does not produce the output (its run leaves that path as it
  found it), no file is left at the output path afterwards, so a stale video from
  an earlier run is never shown as the result.
\<close>

theorem no_stale_output:
  assumes "\<forall>c fs. tool c fs out = fs out"
  shows "(\<exists>fs'. draw_text_on_video tool df inp out fs = Inr fs' \<and> fs' out = None) \<and>
         (\<exists>fs'. trim_video tool df' inp out fs = Inr fs' \<and> fs' out = None)"
  using assms by (simp add: draw_text_on_video_def trim_video_def)

theorem no_stale_output_witness:
  "(\<exists>fs'. draw_text_on_video (\<lambda>c fs. fs) [] ''in.mp4'' ''output.mp4''
            [''output.mp4'' \<mapsto> ''old''] = Inr fs' \<and> fs' ''output.mp4'' = None) \<and>
   (\<exists>fs'. trim_video (\<lambda>c fs. fs) [] ''in.mp4'' ''output.mp4''
            [''output.mp4'' \<mapsto> ''old''] = Inr fs' \<and> fs' ''output.mp4'' = None)"
  by (rule no_stale_output) simp

text \<open>
  C8. Naming the output like the input (the default \<^verbatim>\<open>output.mp4\<close> is offered as an
  input once it exists) deletes the input video before ffmpeg starts; an ffmpeg that
  writes nothing when its input is missing then leaves neither file.
\<close>

theorem same_input_output_loses_input:
  assumes "\<forall>fs. fs p = None \<longrightarrow> tool (draw_text_command df p p) fs = fs"
  shows "draw_text_on_video tool df p p fs = Inr (fs(p := None))"
  using assms by (simp add: draw_text_on_video_def)

theorem same_input_output_loses_input_witness:
  "draw_text_on_video (\<lambda>c fs. fs) [] ''output.mp4'' ''output.mp4'' [''output.mp4'' \<mapsto> ''video''] =
     Inr Map.empty"
proof -
  have h: "\<forall>fs. fs ''output.mp4'' = None \<longrightarrow>
      (\<lambda>c fs. fs) (draw_text_command [] ''output.mp4'' ''output.mp4'') fs = fs" by simp
  show ?thesis
    using same_input_output_loses_input [OF h, where fs = "[''output.mp4'' \<mapsto> ''video'']"] by simp
qed

text \<open>
  C9. The GIF export does not depend on what lies at the GIF path beforehand: since
  lines 164-165 delete that path before ffmpeg runs, a GIF left by an earlier export
  (or any other file there) has no influence on the result: ffmpeg always starts
  from a file system with nothing at the GIF path.
\<close>

theorem create_gif_ignores_stale_gif:
  "create_gif tool out (fs(gif_path out := x)) = create_gif tool out fs"
  by (simp add: create_gif_eq)

end
