(* ===== verification/Session.thy ===== *)
theory Session
  imports Effects
begin

text \<open>
  The rerun loop of \<^verbatim>\<open>src/app.py\<close>. Streamlit runs \<^verbatim>\<open>main\<close> from the top after
  every interaction; what survives between runs is \<^verbatim>\<open>st.session_state\<close>, here the
  record \<open>session\<close> with one field per key the script uses (the field
  \<open>selected_function\<close> is the key \<^verbatim>\<open>'function'\<close>), plus the state of the data
  editor widgets, stored under their key. One run is \<open>main\<close>: it takes the widget
  values of that run (\<open>rerun_input\<close>), the session and the file system, and returns
  the new session, the new file system and either the rendered page or the exception
  that stopped the script (mutations of the session made before an exception are
  kept, as Streamlit keeps them). The two sections \<^verbatim>\<open>text_annotation_section\<close>
  and \<^verbatim>\<open>trimming_section\<close> are definitions of their own, as in the code; the
  table they return determines the process function (\<^verbatim>\<open>draw_text_on_video\<close> for
  the annotation table, \<^verbatim>\<open>trim_video\<close> for the trimming table).

  The environment is a parameter: ffmpeg (\<open>tool\<close>), and the parsing of a CSV file's
  contents into a table. The random digits of \<^verbatim>\<open>random.randint(0, 9)\<close> are inputs
  of the run: \<open>in_draw_init\<close> for the lazy initialisation of the editor key,
  \<open>in_draw_load\<close> for the new key after a load. The data editor's state is the
  user's edits, a transformation of the table it is given (Streamlit stores edits
  as row and cell changes relative to the frame passed in); it is read under the
  key the editor is rendered with, so a fresh key shows the frame unedited.
\<close>

type_synonym edit = "(annotation_table \<Rightarrow> annotation_table) \<times> (trimming_table \<Rightarrow> trimming_table)"

datatype table = AnnotationTable annotation_table | TrimmingTable trimming_table

record session =
  random_10_digit_string :: "string option"
  df_initial_annotations :: "annotation_table option"
  df_initial_trimmings :: "trimming_table option"
  selected_function :: "string option"
  output_gif_file :: "path option"
  editor_state :: "string \<rightharpoonup> edit"

definition init_session :: session where
  "init_session =
     \<lparr>random_10_digit_string = None, df_initial_annotations = None,
      df_initial_trimmings = None, selected_function = None, output_gif_file = None,
      editor_state = Map.empty\<rparr>"

text \<open>The widget values of one run, and the random digits it draws.\<close>

record rerun_input =
  in_function :: "string option"
  in_use_existing :: bool
  in_csv :: "path option"
  in_load :: bool
  in_edit :: "edit option"
  in_input_mp4 :: path
  in_output :: string
  in_process :: bool
  in_gif :: bool
  in_draw_init :: "int list"
  in_draw_load :: "int list"

datatype rerun_error =
  ValueError string | FileNotFound path | KeyError string | UnboundLocalError string
  | OSError py_error

record env =
  env_tool :: tool
  env_read_annotations :: "string \<Rightarrow> rerun_error + annotation_table"
  env_read_trimmings :: "string \<Rightarrow> rerun_error + trimming_table"

record page =
  editor_shown :: table
  process_button_text :: string
  messages :: "string list"
  shown_video :: "path option"
  shown_gif :: "path option"

section \<open>The two sections\<close>

text \<open>\<^verbatim>\<open>''.join([str(random.randint(0, 9)) for _ in range(10)])\<close>, given the digits drawn.\<close>

definition random_10_digits :: "int list \<Rightarrow> string" where
  "random_10_digits ds = py_join '''' (map py_str_int ds)"

text \<open>
  \<^verbatim>\<open>pd.read_csv(input_file)\<close>: the select box yields \<open>None\<close> when no CSV file is
  listed, and pandas raises \<^verbatim>\<open>ValueError\<close> on it; a listed file that has gone
  raises \<^verbatim>\<open>FileNotFoundError\<close>; otherwise the contents are parsed by the
  environment's parser, which either raises (pandas' \<^verbatim>\<open>EmptyDataError\<close> on an
  empty file, \<^verbatim>\<open>ParserError\<close> on a malformed one, both \<^verbatim>\<open>ValueError\<close>s) or
  yields the typed table the frame holds.
\<close>

definition read_csv :: "(string \<Rightarrow> rerun_error + 'a) \<Rightarrow> path option \<Rightarrow> fs \<Rightarrow> rerun_error + 'a" where
  "read_csv parse p fs =
     (case p of
        None \<Rightarrow> Inl (ValueError ''Invalid file path or buffer object type'')
      | Some f \<Rightarrow> (case fs f of None \<Rightarrow> Inl (FileNotFound f) | Some c \<Rightarrow> parse c))"

definition text_annotation_section ::
  "env \<Rightarrow> rerun_input \<Rightarrow> fs \<Rightarrow> session \<Rightarrow> session \<times> (rerun_error + table \<times> string)" where
  "text_annotation_section env inp fs s =
     (let s1 = (if random_10_digit_string s = None
                then s\<lparr>random_10_digit_string := Some (random_10_digits (in_draw_init inp))\<rparr>
                else s);
          s2 = (if df_initial_annotations s1 = None
                then s1\<lparr>df_initial_annotations := Some get_default_annotation_data\<rparr>
                else s1)
      in if in_load inp then
           (case (if in_use_existing inp
                  then read_csv (env_read_annotations env) (in_csv inp) fs
                  else Inr get_default_annotation_data) of
              Inl e \<Rightarrow> (s2, Inl e)
            | Inr t \<Rightarrow>
                (s2\<lparr>df_initial_annotations := Some t,
                    random_10_digit_string := Some (random_10_digits (in_draw_load inp))\<rparr>,
                 Inr (AnnotationTable t, ''Create MP4 with text overlay'')))
         else
           (case df_initial_annotations s2 of
              None \<Rightarrow> (s2, Inl (KeyError ''df_initial_annotations''))
            | Some t \<Rightarrow> (s2, Inr (AnnotationTable t, ''Create MP4 with text overlay''))))"

definition trimming_section ::
  "env \<Rightarrow> rerun_input \<Rightarrow> fs \<Rightarrow> session \<Rightarrow> session \<times> (rerun_error + table \<times> string)" where
  "trimming_section env inp fs s =
     (let s1 = (if random_10_digit_string s = None
                then s\<lparr>random_10_digit_string := Some (random_10_digits (in_draw_init inp))\<rparr>
                else s);
          s2 = (if df_initial_trimmings s1 = None
                then s1\<lparr>df_initial_trimmings := Some get_default_trimming_data\<rparr>
                else s1)
      in if in_load inp then
           (case (if in_use_existing inp
                  then read_csv (env_read_trimmings env) (in_csv inp) fs
                  else Inr get_default_trimming_data) of
              Inl e \<Rightarrow> (s2, Inl e)
            | Inr t \<Rightarrow>
                (s2\<lparr>df_initial_trimmings := Some t,
                    random_10_digit_string := Some (random_10_digits (in_draw_load inp))\<rparr>,
                 Inr (TrimmingTable t, ''Create trimmed MP4'')))
         else
           (case df_initial_trimmings s2 of
              None \<Rightarrow> (s2, Inl (KeyError ''df_initial_trimmings''))
            | Some t \<Rightarrow> (s2, Inr (TrimmingTable t, ''Create trimmed MP4''))))"

section \<open>Widgets with state\<close>

text \<open>
  Before the script runs, Streamlit writes the widget values the user changed into
  the session: the select box with \<^verbatim>\<open>key='function'\<close> (line 135), and the edits of
  the data editor rendered in the previous run, under that run's key (line 145).
\<close>

definition apply_widget_input :: "rerun_input \<Rightarrow> session \<Rightarrow> session" where
  "apply_widget_input inp s =
     s\<lparr>selected_function :=
         (case in_function inp of None \<Rightarrow> selected_function s | Some f \<Rightarrow> Some f),
       editor_state :=
         (case (random_10_digit_string s, in_edit inp) of
            (Some k, Some e) \<Rightarrow> (editor_state s)(k \<mapsto> e)
          | _ \<Rightarrow> editor_state s)\<rparr>"

text \<open>\<^verbatim>\<open>st.data_editor(df, key=k)\<close>: the frame with the edits stored under \<open>k\<close>.\<close>

definition data_editor :: "(string \<rightharpoonup> edit) \<Rightarrow> string \<Rightarrow> table \<Rightarrow> table" where
  "data_editor st k df =
     (case st k of
        None \<Rightarrow> df
      | Some e \<Rightarrow>
          (case df of
             AnnotationTable t \<Rightarrow> AnnotationTable (fst e t)
           | TrimmingTable t \<Rightarrow> TrimmingTable (snd e t)))"

section \<open>One run of \<^verbatim>\<open>main\<close>\<close>

definition process_function :: "tool \<Rightarrow> table \<Rightarrow> path \<Rightarrow> path \<Rightarrow> fs \<Rightarrow> py_error + fs" where
  "process_function tool df inp out fs =
     (case df of
        AnnotationTable t \<Rightarrow> draw_text_on_video tool t inp out fs
      | TrimmingTable t \<Rightarrow> trim_video tool t inp out fs)"

text \<open>Lines 149-153: the process button, and its success message.\<close>

definition process_step :: "env \<Rightarrow> rerun_input \<Rightarrow> table \<Rightarrow> fs \<Rightarrow> rerun_error + fs \<times> string list" where
  "process_step env inp df fs =
     (if in_process inp then
        (case process_function (env_tool env) df (in_input_mp4 inp) (in_output inp) fs of
           Inl e \<Rightarrow> Inl (OSError e)
         | Inr fs' \<Rightarrow> Inr (fs', [''Video file '' @ in_output inp @ '' created successfully!'']))
      else Inr (fs, []))"

text \<open>Lines 162-168: the GIF button, its message, and the GIF path kept in the session.\<close>

definition gif_step ::
  "env \<Rightarrow> rerun_input \<Rightarrow> session \<Rightarrow> fs \<Rightarrow> rerun_error + session \<times> fs \<times> string list" where
  "gif_step env inp s fs =
     (if in_gif inp then
        (case create_gif (env_tool env) (in_output inp) fs of
           Inl e \<Rightarrow> Inl (OSError e)
         | Inr fs' \<Rightarrow>
             Inr (s\<lparr>output_gif_file := Some (gif_path (in_output inp))\<rparr>, fs',
                  [''GIF file '' @ gif_path (in_output inp) @ '' created successfully!'']))
      else Inr (s, fs, []))"

text \<open>Lines 170-171: the expander shows the GIF kept in the session if it exists.\<close>

definition view_gif :: "session \<Rightarrow> fs \<Rightarrow> path option" where
  "view_gif s fs =
     (case output_gif_file s of
        None \<Rightarrow> None
      | Some g \<Rightarrow> if os_path_exists g fs then Some g else None)"

definition main_page ::
  "env \<Rightarrow> rerun_input \<Rightarrow> session \<Rightarrow> fs \<Rightarrow> table \<Rightarrow> string \<Rightarrow> session \<times> fs \<times> (rerun_error + page)" where
  "main_page env inp s fs df_edited label =
     (case process_step env inp df_edited fs of
        Inl e \<Rightarrow> (s, fs, Inl e)
      | Inr (fs1, m1) \<Rightarrow>
          (let video = (if os_path_exists (in_output inp) fs1 then Some (in_output inp) else None)
           in case gif_step env inp s fs1 of
                Inl e \<Rightarrow> (s, fs1, Inl e)
              | Inr (s3, fs2, m2) \<Rightarrow>
                  (s3, fs2, Inr \<lparr>editor_shown = df_edited, process_button_text = label,
                                 messages = m1 @ m2, shown_video = video,
                                 shown_gif = view_gif s3 fs2\<rparr>)))"

text \<open>Lines 133-134: the default of the \<^verbatim>\<open>'function'\<close> key.\<close>

definition function_default :: "session \<Rightarrow> session" where
  "function_default s =
     (if selected_function s = None then s\<lparr>selected_function := Some ''Text annotation''\<rparr> else s)"

text \<open>Line 135: the value of the \<^verbatim>\<open>'function'\<close> select box in this run.\<close>

definition function_value :: "rerun_input \<Rightarrow> session \<Rightarrow> string option" where
  "function_value inp s = selected_function (function_default (apply_widget_input inp s))"

text \<open>
  Lines 137-143: the section of the selected function; with neither, \<^verbatim>\<open>df\<close> is never
  bound and line 145 raises.
\<close>

definition run_section ::
  "env \<Rightarrow> rerun_input \<Rightarrow> fs \<Rightarrow> session \<Rightarrow> session \<times> (rerun_error + table \<times> string)" where
  "run_section env inp fs s =
     (if selected_function s = Some ''Text annotation'' then text_annotation_section env inp fs s
      else if selected_function s = Some ''Trimming'' then trimming_section env inp fs s
      else (s, Inl (UnboundLocalError ''df'')))"

definition main :: "env \<Rightarrow> rerun_input \<Rightarrow> session \<Rightarrow> fs \<Rightarrow> session \<times> fs \<times> (rerun_error + page)" where
  "main env inp s fs =
     (let (s2, r) = run_section env inp fs (function_default (apply_widget_input inp s))
      in case r of
           Inl e \<Rightarrow> (s2, fs, Inl e)
         | Inr (df, label) \<Rightarrow>
             (case random_10_digit_string s2 of
                None \<Rightarrow> (s2, fs, Inl (KeyError ''random_10_digit_string''))
              | Some k \<Rightarrow> main_page env inp s2 fs (data_editor (editor_state s2) k df) label))"

section \<open>What the session promises\<close>

text \<open>
  A draw of \<^verbatim>\<open>random.randint(0, 9)\<close> ten times, a valid run input (the function
  select box offers two options), the shape of an editor key, and the invariant of
  the session between runs: the key, once drawn, is ten decimal digits; once a
  function is selected the key exists and the selected section's table is loaded.
  \<open>reachable\<close> is the set of sessions some sequence of runs produces from the empty
  session, the file system changing arbitrarily in between.
\<close>

definition valid_draw :: "int list \<Rightarrow> bool" where
  "valid_draw ds \<longleftrightarrow> length ds = 10 \<and> list_all (\<lambda>d. 0 \<le> d \<and> d \<le> 9) ds"

definition valid_input :: "rerun_input \<Rightarrow> bool" where
  "valid_input inp \<longleftrightarrow>
     in_function inp \<in> {None, Some ''Text annotation'', Some ''Trimming''} \<and>
     valid_draw (in_draw_init inp) \<and> valid_draw (in_draw_load inp)"

definition editor_key_ok :: "string option \<Rightarrow> bool" where
  "editor_key_ok k = (case k of None \<Rightarrow> True | Some k \<Rightarrow> length k = 10 \<and> list_all is_digit k)"

definition session_inv :: "session \<Rightarrow> bool" where
  "session_inv s \<longleftrightarrow>
     editor_key_ok (random_10_digit_string s) \<and>
     (case selected_function s of
        None \<Rightarrow> True
      | Some f \<Rightarrow> random_10_digit_string s \<noteq> None \<and>
                  (f = ''Text annotation'' \<and> df_initial_annotations s \<noteq> None \<or>
                   f = ''Trimming'' \<and> df_initial_trimmings s \<noteq> None))"

inductive reachable :: "env \<Rightarrow> session \<Rightarrow> bool" for env where
  init: "reachable env init_session"
| step: "reachable env s \<Longrightarrow> valid_input inp \<Longrightarrow> main env inp s fs = (s', fs', r) \<Longrightarrow>
         reachable env s'"

definition csv_load_fails :: "env \<Rightarrow> string option \<Rightarrow> rerun_input \<Rightarrow> fs \<Rightarrow> bool" where
  "csv_load_fails env f inp fs =
     (if f = Some ''Trimming'' then isl (read_csv (env_read_trimmings env) (in_csv inp) fs)
      else isl (read_csv (env_read_annotations env) (in_csv inp) fs))"

definition initial_table :: "session \<Rightarrow> table option" where
  "initial_table s =
     (if selected_function s = Some ''Trimming''
      then map_option TrimmingTable (df_initial_trimmings s)
      else map_option AnnotationTable (df_initial_annotations s))"

definition idle :: "rerun_input \<Rightarrow> bool" where
  "idle inp \<longleftrightarrow>
     in_function inp = None \<and> in_edit inp = None \<and> \<not> in_load inp \<and> \<not> in_process inp \<and>
     \<not> in_gif inp"

abbreviation demo_env :: env where
  "demo_env \<equiv> \<lparr>env_tool = \<lambda>c fs. fs, env_read_annotations = \<lambda>c. Inr [],
                env_read_trimmings = \<lambda>c. Inr []\<rparr>"

abbreviation demo_input :: "bool \<Rightarrow> bool \<Rightarrow> bool \<Rightarrow> edit option \<Rightarrow> rerun_input" where
  "demo_input load process gif e \<equiv>
     \<lparr>in_function = None, in_use_existing = False, in_csv = None, in_load = load, in_edit = e,
      in_input_mp4 = ''in.mp4'', in_output = ''output.mp4'', in_process = process, in_gif = gif,
      in_draw_init = [0, 1, 2, 3, 4, 5, 6, 7, 8, 9], in_draw_load = [9, 8, 7, 6, 5, 4, 3, 2, 1, 0]\<rparr>"

abbreviation demo_session :: session where
  "demo_session \<equiv>
     \<lparr>random_10_digit_string = Some ''0123456789'', df_initial_annotations = Some [],
      df_initial_trimmings = None, selected_function = Some ''Text annotation'',
      output_gif_file = None, editor_state = [''0123456789'' \<mapsto> (\<lambda>t. [], \<lambda>t. [])]\<rparr>"

section \<open>Lemmas\<close>

lemma py_join_Nil_sep: "py_join [] xs = concat xs"
  by (induction "[]::string" xs rule: py_join.induct) simp_all

lemma py_str_int_digit: "0 \<le> d \<Longrightarrow> d \<le> 9 \<Longrightarrow> py_str_int d = [digit_char (nat d)]"
  by (simp add: py_str_int_def string_of_nat.simps)

lemma random_10_digits_ok:
  assumes "valid_draw ds"
  shows "editor_key_ok (Some (random_10_digits ds))"
proof -
  have m: "map py_str_int ds = map (\<lambda>d. [digit_char (nat d)]) ds"
    using assms by (auto simp: valid_draw_def list_all_iff py_str_int_digit)
  have "random_10_digits ds = concat (map (\<lambda>d. [digit_char (nat d)]) ds)"
    unfolding random_10_digits_def py_join_Nil_sep m ..
  also have "\<dots> = map (\<lambda>d. digit_char (nat d)) ds"
    by (induction ds) simp_all
  finally show ?thesis
    using assms by (auto simp: editor_key_ok_def valid_draw_def list_all_iff)
qed

lemma text_annotation_section_inv:
  assumes "text_annotation_section env inp fs s = (s', r)"
    and "valid_draw (in_draw_init inp)" "valid_draw (in_draw_load inp)"
    and "editor_key_ok (random_10_digit_string s)"
  shows "editor_key_ok (random_10_digit_string s') \<and> random_10_digit_string s' \<noteq> None \<and>
         df_initial_annotations s' \<noteq> None \<and> selected_function s' = selected_function s \<and>
         df_initial_trimmings s' = df_initial_trimmings s"
  using assms random_10_digits_ok
  by (auto simp: text_annotation_section_def Let_def split: if_splits sum.splits option.splits)

lemma trimming_section_inv:
  assumes "trimming_section env inp fs s = (s', r)"
    and "valid_draw (in_draw_init inp)" "valid_draw (in_draw_load inp)"
    and "editor_key_ok (random_10_digit_string s)"
  shows "editor_key_ok (random_10_digit_string s') \<and> random_10_digit_string s' \<noteq> None \<and>
         df_initial_trimmings s' \<noteq> None \<and> selected_function s' = selected_function s \<and>
         df_initial_annotations s' = df_initial_annotations s"
  using assms random_10_digits_ok
  by (auto simp: trimming_section_def Let_def split: if_splits sum.splits option.splits)

lemma process_function_Inr:
  "process_function tool df i out fs =
     Inr (tool (case df of AnnotationTable t \<Rightarrow> draw_text_command t i out
                         | TrimmingTable t \<Rightarrow> trim_command t i out) (fs(out := None)))"
  by (cases df) (simp_all add: process_function_def draw_text_on_video_def trim_video_def)

lemma main_page_eq:
  "main_page env inp s fs df label =
     (let out = in_output inp;
          fs1 = (if in_process inp
                 then env_tool env (case df of AnnotationTable t \<Rightarrow> draw_text_command t (in_input_mp4 inp) out
                                     | TrimmingTable t \<Rightarrow> trim_command t (in_input_mp4 inp) out) (fs(out := None))
                 else fs);
          fs2 = (if in_gif inp then env_tool env (gif_command out) (fs1(gif_path out := None)) else fs1);
          s3 = (if in_gif inp then s\<lparr>output_gif_file := Some (gif_path out)\<rparr> else s)
      in (s3, fs2, Inr \<lparr>editor_shown = df, process_button_text = label,
                         messages = (if in_process inp then [''Video file '' @ out @ '' created successfully!''] else []) @
                                    (if in_gif inp then [''GIF file '' @ gif_path out @ '' created successfully!''] else []),
                         shown_video = (if os_path_exists out fs1 then Some out else None),
                         shown_gif = view_gif s3 fs2\<rparr>))"
  by (simp add: main_page_def process_step_def gif_step_def process_function_Inr create_gif_eq Let_def)

lemma pre_section_inv:
  assumes "session_inv s" "valid_input inp"
  shows "editor_key_ok (random_10_digit_string (function_default (apply_widget_input inp s))) \<and>
         selected_function (function_default (apply_widget_input inp s))
           \<in> {Some ''Text annotation'', Some ''Trimming''}"
  using assms
  by (auto simp: session_inv_def valid_input_def function_default_def apply_widget_input_def
           split: option.splits)

lemma run_section_inv:
  assumes "run_section env inp fs s = (s2, r)"
    and "editor_key_ok (random_10_digit_string s)"
    and "selected_function s \<in> {Some ''Text annotation'', Some ''Trimming''}"
    and "valid_input inp"
  shows "session_inv s2 \<and> random_10_digit_string s2 \<noteq> None"
  using assms text_annotation_section_inv [of env inp fs s s2 r] trimming_section_inv [of env inp fs s s2 r]
  by (auto simp: run_section_def session_inv_def valid_input_def)

lemma run_section_error:
  assumes "run_section env inp fs s = (s2, r)"
    and "selected_function s \<in> {Some ''Text annotation'', Some ''Trimming''}"
  shows "isl r \<longleftrightarrow> in_load inp \<and> in_use_existing inp \<and> csv_load_fails env (selected_function s) inp fs"
  using assms
  by (auto simp: run_section_def text_annotation_section_def trimming_section_def Let_def
                 csv_load_fails_def split: if_splits sum.splits)

lemma main_cases:
  assumes "main env inp s fs = (s', fs', r)"
  obtains s2 r2 where "run_section env inp fs (function_default (apply_widget_input inp s)) = (s2, r2)"
    and "isl r2 \<Longrightarrow> s' = s2 \<and> isl r \<and> fs' = fs"
    and "\<not> isl r2 \<Longrightarrow> random_10_digit_string s2 \<noteq> None \<Longrightarrow>
           \<exists>k df label. random_10_digit_string s2 = Some k \<and> r2 = Inr (df, label) \<and>
             main_page env inp s2 fs (data_editor (editor_state s2) k df) label = (s', fs', r)"
  using assms
  by (cases "run_section env inp fs (function_default (apply_widget_input inp s))")
     (auto simp: main_def split: sum.splits option.splits)

lemma session_inv_gif [simp]: "session_inv (s\<lparr>output_gif_file := g\<rparr>) = session_inv s"
  by (simp add: session_inv_def split: option.split)

lemma main_inv:
  assumes "session_inv s" "valid_input inp" "main env inp s fs = (s', fs', r)"
  shows "session_inv s'"
proof -
  let ?s1 = "function_default (apply_widget_input inp s)"
  obtain s2 r2 where run: "run_section env inp fs ?s1 = (s2, r2)"
    and err: "isl r2 \<Longrightarrow> s' = s2 \<and> isl r \<and> fs' = fs"
    and ok: "\<not> isl r2 \<Longrightarrow> random_10_digit_string s2 \<noteq> None \<Longrightarrow>
           \<exists>k df label. random_10_digit_string s2 = Some k \<and> r2 = Inr (df, label) \<and>
             main_page env inp s2 fs (data_editor (editor_state s2) k df) label = (s', fs', r)"
    using main_cases [OF assms(3)] by blast
  have s2: "session_inv s2 \<and> random_10_digit_string s2 \<noteq> None"
    using run_section_inv [OF run] pre_section_inv [OF assms(1,2)] assms(2) by blast
  show ?thesis
  proof (cases "isl r2")
    case True
    then show ?thesis using err s2 by simp
  next
    case False
    then show ?thesis
      using ok s2 by (auto simp: main_page_eq Let_def)
  qed
qed

lemma reachable_session_inv: "reachable env s \<Longrightarrow> session_inv s"
proof (induction rule: reachable.induct)
  case init
  show ?case by (simp add: session_inv_def editor_key_ok_def init_session_def)
next
  case (step s inp fs s' fs' r)
  then show ?case by (blast intro: main_inv)
qed

lemma main_triple:
  "main env inp s fs = (fst (main env inp s fs), fst (snd (main env inp s fs)), snd (snd (main env inp s fs)))"
  by simp

lemma reachable_main:
  "reachable env s \<Longrightarrow> valid_input inp \<Longrightarrow> reachable env (fst (main env inp s fs))"
  by (rule reachable.step [where fs = fs and fs' = "fst (snd (main env inp s fs))"
                           and r = "snd (snd (main env inp s fs))"]) simp_all

lemma main_Inr:
  assumes "main env inp s fs = (s', fs', Inr p)"
  obtains s2 k df label where
    "run_section env inp fs (function_default (apply_widget_input inp s)) = (s2, Inr (df, label))"
    "random_10_digit_string s2 = Some k"
    "main_page env inp s2 fs (data_editor (editor_state s2) k df) label = (s', fs', Inr p)"
  using assms
  by (cases "run_section env inp fs (function_default (apply_widget_input inp s))")
     (auto simp: main_def split: sum.splits option.splits)

lemma main_page_state:
  "main_page env inp s fs df label = (s', fs', r) \<Longrightarrow>
   s' = (if in_gif inp then s\<lparr>output_gif_file := Some (gif_path (in_output inp))\<rparr> else s)"
  by (simp add: main_page_eq Let_def)

lemma pre_section_state [simp]:
  "random_10_digit_string (function_default (apply_widget_input inp s)) = random_10_digit_string s"
  "random_10_digit_string s \<noteq> Some k \<Longrightarrow>
     editor_state (function_default (apply_widget_input inp s)) k = editor_state s k"
  by (auto simp: function_default_def apply_widget_input_def split: option.split)

lemma text_annotation_section_load:
  assumes "text_annotation_section env inp fs s = (s2, Inr (df, label))" "in_load inp"
  shows "random_10_digit_string s2 = Some (random_10_digits (in_draw_load inp)) \<and>
         editor_state s2 = editor_state s \<and> selected_function s2 = selected_function s \<and>
         (\<exists>t. df = AnnotationTable t \<and> df_initial_annotations s2 = Some t)"
  using assms
  by (auto simp: text_annotation_section_def Let_def split: if_splits sum.splits)

lemma trimming_section_load:
  assumes "trimming_section env inp fs s = (s2, Inr (df, label))" "in_load inp"
  shows "random_10_digit_string s2 = Some (random_10_digits (in_draw_load inp)) \<and>
         editor_state s2 = editor_state s \<and> selected_function s2 = selected_function s \<and>
         (\<exists>t. df = TrimmingTable t \<and> df_initial_trimmings s2 = Some t)"
  using assms
  by (auto simp: trimming_section_def Let_def split: if_splits sum.splits)

lemma run_section_load:
  assumes "run_section env inp fs s = (s2, Inr (df, label))" "in_load inp"
  shows "random_10_digit_string s2 = Some (random_10_digits (in_draw_load inp)) \<and>
         editor_state s2 = editor_state s \<and> initial_table s2 = Some df"
proof (cases "selected_function s = Some ''Text annotation''")
  case True
  then show ?thesis
    using assms text_annotation_section_load [of env inp fs s s2 df label]
    by (auto simp: run_section_def initial_table_def)
next
  case False
  then have "selected_function s = Some ''Trimming''"
    using assms(1) by (auto simp: run_section_def split: if_splits)
  then show ?thesis
    using assms trimming_section_load [of env inp fs s s2 df label]
    by (auto simp: run_section_def initial_table_def)
qed

lemma main_page_shown:
  assumes "main_page env inp s fs df label = (s', fs', Inr p)"
  shows "editor_shown p = df"
  using arg_cong [OF assms, of "\<lambda>x. case snd (snd x) of Inr p \<Rightarrow> editor_shown p | Inl _ \<Rightarrow> df"]
  by (simp add: main_page_eq Let_def)

lemma random_10_digits_demo: "random_10_digits [9, 8, 7, 6, 5, 4, 3, 2, 1, 0] = ''9876543210''"
  by code_simp

lemma apply_widget_input_idle: "idle inp \<Longrightarrow> apply_widget_input inp s = s"
  by (simp add: idle_def apply_widget_input_def split: option.split prod.split)

lemma run_section_idle:
  assumes "session_inv s" "selected_function s \<noteq> None" "\<not> in_load inp"
  shows "\<exists>k t label. random_10_digit_string s = Some k \<and> initial_table s = Some t \<and>
           run_section env inp fs s = (s, Inr (t, label))"
  using assms
  by (auto simp: session_inv_def run_section_def text_annotation_section_def trimming_section_def
                 initial_table_def Let_def split: option.splits)

lemma main_page_idle:
  "\<not> in_process inp \<Longrightarrow> \<not> in_gif inp \<Longrightarrow>
   \<exists>p. main_page env inp s fs df label = (s, fs, Inr p) \<and> editor_shown p = df"
  by (simp add: main_page_eq Let_def)

lemma main_Inr_page:
  assumes "main env inp s fs = (s', fs', Inr p)"
  obtains s2 df label where "(s', fs', Inr p) = main_page env inp s2 fs df label"
  using main_Inr [OF assms] by metis

lemmas main_simps = main_def run_section_def function_default_def apply_widget_input_def
  text_annotation_section_def trimming_section_def data_editor_def main_page_eq Let_def

lemma main_error_cases:
  assumes "reachable env s" "valid_input inp" "main env inp s fs = (s', fs', r)"
  shows "isl r \<longleftrightarrow> in_load inp \<and> in_use_existing inp \<and> csv_load_fails env (function_value inp s) inp fs"
proof -
  let ?s1 = "function_default (apply_widget_input inp s)"
  have pre: "editor_key_ok (random_10_digit_string ?s1) \<and>
             selected_function ?s1 \<in> {Some ''Text annotation'', Some ''Trimming''}"
    using pre_section_inv [OF reachable_session_inv [OF assms(1)] assms(2)] .
  obtain s2 r2 where run: "run_section env inp fs ?s1 = (s2, r2)"
    and err: "isl r2 \<Longrightarrow> s' = s2 \<and> isl r \<and> fs' = fs"
    and ok: "\<not> isl r2 \<Longrightarrow> random_10_digit_string s2 \<noteq> None \<Longrightarrow>
           \<exists>k df label. random_10_digit_string s2 = Some k \<and> r2 = Inr (df, label) \<and>
             main_page env inp s2 fs (data_editor (editor_state s2) k df) label = (s', fs', r)"
    using main_cases [OF assms(3)] by blast
  have key: "random_10_digit_string s2 \<noteq> None"
    using run_section_inv [OF run] pre assms(2) by blast
  have "isl r \<longleftrightarrow> isl r2"
    using err ok key by (cases "isl r2") (auto simp: main_page_eq Let_def)
  then show ?thesis
    using run_section_error [OF run] pre by (simp add: function_value_def)
qed

section \<open>Properties\<close>

text \<open>
  C10. Invariant of the session: in every session reachable by runs of \<^verbatim>\<open>main\<close>
  from the empty session, the editor key, once drawn, is a string of ten decimal
  digits, and once a function is selected the key exists and the table of the
  selected section is loaded.
\<close>

theorem session_invariant: "reachable env s \<Longrightarrow> session_inv s"
  by (rule reachable_session_inv)

theorem session_invariant_witness:
  "session_inv (fst (main demo_env (demo_input False False False None) init_session Map.empty))"
proof -
  have v: "valid_input (demo_input False False False None)"
    by (simp add: valid_input_def valid_draw_def)
  show ?thesis
    by (rule session_invariant [OF reachable_main [OF reachable.init v]])
qed



text \<open>
  C12. The load button resets the editor: when the freshly drawn key differs from the
  old one and carries no stored edits, the editor shows exactly the table just
  loaded into the session, none of the user's earlier edits.
\<close>

theorem load_resets_editor:
  assumes "main env inp s fs = (s', fs', Inr p)" "in_load inp"
    and "random_10_digits (in_draw_load inp) \<notin> dom (editor_state s)"
    and "random_10_digit_string s \<noteq> Some (random_10_digits (in_draw_load inp))"
  shows "Some (editor_shown p) = initial_table s'"
proof -
  obtain s2 k df label where
    run: "run_section env inp fs (function_default (apply_widget_input inp s)) = (s2, Inr (df, label))"
    and k: "random_10_digit_string s2 = Some k"
    and pg: "main_page env inp s2 fs (data_editor (editor_state s2) k df) label = (s', fs', Inr p)"
    by (rule main_Inr [OF assms(1)])
  note l = run_section_load [OF run assms(2)]
  have "k = random_10_digits (in_draw_load inp)"
    using l k by simp
  moreover have "editor_state s (random_10_digits (in_draw_load inp)) = None"
    using assms(3) by (simp only: domIff not_not)
  ultimately have "editor_state s2 k = None"
    using l assms(4) by simp
  then have "editor_shown p = df"
    using main_page_shown [OF pg] by (simp add: data_editor_def)
  moreover have "initial_table s' = initial_table s2"
    using main_page_state [OF pg] by (simp add: initial_table_def)
  ultimately show ?thesis
    using l by simp
qed

theorem load_resets_editor_witness:
  "\<exists>s' fs' p. main demo_env (demo_input True False False None) demo_session Map.empty = (s', fs', Inr p) \<and>
     Some (editor_shown p) = initial_table s'"
proof -
  obtain s' fs' p where m: "main demo_env (demo_input True False False None) demo_session Map.empty = (s', fs', Inr p)"
    by (simp add: main_def run_section_def function_default_def apply_widget_input_def
                  text_annotation_section_def main_page_eq Let_def random_10_digits_demo)
  have "Some (editor_shown p) = initial_table s'"
    by (rule load_resets_editor [OF m]) (simp_all add: random_10_digits_demo)
  then show ?thesis using m by blast
qed

text \<open>
  C13. A run without interaction is stable: from a reachable session with a selected
  function, a run in which no widget changed and no button was pressed leaves the
  session and the file system as they were, raises nothing, and shows the loaded
  table with the edits stored under the current key.
\<close>

theorem idle_rerun_stable:
  assumes "reachable env s" "selected_function s \<noteq> None" "idle inp"
  shows "\<exists>k t p. random_10_digit_string s = Some k \<and> initial_table s = Some t \<and>
           main env inp s fs = (s, fs, Inr p) \<and> editor_shown p = data_editor (editor_state s) k t"
proof -
  have w: "function_default (apply_widget_input inp s) = s"
    using assms(2,3) by (simp add: apply_widget_input_idle function_default_def)
  have nl: "\<not> in_load inp"
    using assms(3) by (simp add: idle_def)
  obtain k t label where k: "random_10_digit_string s = Some k" and t: "initial_table s = Some t"
    and run: "run_section env inp fs s = (s, Inr (t, label))"
    using run_section_idle [OF reachable_session_inv [OF assms(1)] assms(2) nl, where env = env and fs = fs]
    by blast
  obtain p where "main_page env inp s fs (data_editor (editor_state s) k t) label = (s, fs, Inr p)"
    and "editor_shown p = data_editor (editor_state s) k t"
    using main_page_idle [of inp env s fs "data_editor (editor_state s) k t" label] assms(3)
    by (auto simp: idle_def)
  then show ?thesis
    using k t run w by (auto simp: main_def)
qed

theorem idle_rerun_stable_witness:
  "\<exists>k t p. random_10_digit_string (fst (main demo_env (demo_input False False False None) init_session Map.empty)) = Some k \<and>
     initial_table (fst (main demo_env (demo_input False False False None) init_session Map.empty)) = Some t \<and>
     main demo_env (demo_input False False False None) (fst (main demo_env (demo_input False False False None) init_session Map.empty)) Map.empty =
       (fst (main demo_env (demo_input False False False None) init_session Map.empty), Map.empty, Inr p) \<and>
     editor_shown p = data_editor (editor_state (fst (main demo_env (demo_input False False False None) init_session Map.empty))) k t"
proof -
  have v: "valid_input (demo_input False False False None)"
    by (simp add: valid_input_def valid_draw_def)
  have sel: "selected_function (fst (main demo_env (demo_input False False False None) init_session Map.empty)) \<noteq> None"
    by (simp add: main_def run_section_def function_default_def apply_widget_input_def init_session_def
                  text_annotation_section_def main_page_eq Let_def)
  have i: "idle (demo_input False False False None)"
    by (simp add: idle_def)
  show ?thesis
    by (rule idle_rerun_stable [OF reachable_main [OF reachable.init v] sel i])
qed

text \<open>
  C14. The success message of the process button is unconditional: even when ffmpeg
  produces no output file, the page says the video was created, while no video is
  shown and no file exists at the output path.
\<close>

theorem success_message_unconditional:
  assumes "\<forall>c fs. env_tool env c fs (in_output inp) = fs (in_output inp)"
    and "in_process inp" "main env inp s fs = (s', fs', Inr p)"
  shows "''Video file '' @ in_output inp @ '' created successfully!'' \<in> set (messages p) \<and>
         shown_video p = None \<and> fs' (in_output inp) = None"
proof -
  obtain s2 df label where "(s', fs', Inr p) = main_page env inp s2 fs df label"
    by (rule main_Inr_page [OF assms(3)])
  then show ?thesis
    using assms(1,2) by (clarsimp simp: main_page_eq Let_def os_path_exists_def)
qed

theorem success_message_unconditional_witness:
  "\<exists>s' fs' p. main demo_env (demo_input False True False None) demo_session Map.empty = (s', fs', Inr p) \<and>
     ''Video file output.mp4 created successfully!'' \<in> set (messages p) \<and>
     shown_video p = None \<and> fs' ''output.mp4'' = None"
proof -
  obtain s' fs' p where m: "main demo_env (demo_input False True False None) demo_session Map.empty = (s', fs', Inr p)"
    by (simp add: main_simps)
  have "''Video file '' @ ''output.mp4'' @ '' created successfully!'' \<in> set (messages p) \<and>
        shown_video p = None \<and> fs' ''output.mp4'' = None"
    using success_message_unconditional [OF _ _ m] by simp
  then show ?thesis using m by auto
qed

text \<open>
  C15. The GIF button records the GIF path in the session and the GIF view shows that
  path exactly when a file exists there after the run; the last message names it.
\<close>

theorem gif_export_view:
  assumes "in_gif inp" "main env inp s fs = (s', fs', Inr p)"
  shows "output_gif_file s' = Some (gif_path (in_output inp)) \<and>
         shown_gif p = (if gif_path (in_output inp) \<in> dom fs' then Some (gif_path (in_output inp)) else None) \<and>
         last (messages p) = ''GIF file '' @ gif_path (in_output inp) @ '' created successfully!''"
proof -
  obtain s2 df label where "(s', fs', Inr p) = main_page env inp s2 fs df label"
    by (rule main_Inr_page [OF assms(2)])
  then show ?thesis
    using assms(1) by (clarsimp simp: main_page_eq Let_def view_gif_def os_path_exists_def)
qed

theorem gif_export_view_witness:
  "\<exists>s' fs' p. main (demo_env\<lparr>env_tool := \<lambda>c fs. fs(''output.gif'' \<mapsto> c)\<rparr>) (demo_input False False True None)
       demo_session Map.empty = (s', fs', Inr p) \<and>
     output_gif_file s' = Some ''output.gif'' \<and> shown_gif p = Some ''output.gif''"
proof -
  have g: "gif_path ''output.mp4'' = ''output.gif''" by code_simp
  obtain s' fs' p where m: "main (demo_env\<lparr>env_tool := \<lambda>c fs. fs(''output.gif'' \<mapsto> c)\<rparr>)
      (demo_input False False True None) demo_session Map.empty = (s', fs', Inr p)"
    by (simp add: main_simps)
  have "output_gif_file s' = Some (gif_path ''output.mp4'') \<and>
        shown_gif p = (if gif_path ''output.mp4'' \<in> dom fs' then Some (gif_path ''output.mp4'') else None) \<and>
        last (messages p) = ''GIF file '' @ gif_path ''output.mp4'' @ '' created successfully!''"
    using gif_export_view [OF _ m] by simp
  moreover have "fs' ''output.gif'' \<noteq> None"
    using sym [OF m] by (simp add: main_simps g)
  ultimately show ?thesis using m g by auto
qed

end
