(* ===== verification/Dispatch.thy ===== *)
theory Dispatch
  imports Session
begin

text \<open>
  Two properties of the rerun loop that span the sections and the page: the kind of
  table a run hands to the data editor and to the process button always matches the
  selected function (so the button runs \<^verbatim>\<open>draw_text_on_video\<close> exactly in the
  annotation section and \<^verbatim>\<open>trim_video\<close> exactly in the trimming section), and
  from every reachable session the user can restore the default table in one run.
  \<open>reset_input\<close> is the run in which only the load button is pressed, with
  "use existing file" unticked.
\<close>

abbreviation reset_input :: "int list \<Rightarrow> rerun_input" where
  "reset_input ds \<equiv>
     \<lparr>in_function = None, in_use_existing = False, in_csv = None, in_load = True, in_edit = None,
      in_input_mp4 = ''in.mp4'', in_output = ''output.mp4'', in_process = False, in_gif = False,
      in_draw_init = ds, in_draw_load = ds\<rparr>"

section \<open>Lemmas\<close>

lemma run_section_kind:
  assumes "run_section env inp fs s = (s', Inr (df, label))"
  shows "(case df of
            AnnotationTable t \<Rightarrow> selected_function s = Some ''Text annotation'' \<and>
                                 label = ''Create MP4 with text overlay''
          | TrimmingTable t \<Rightarrow> selected_function s = Some ''Trimming'' \<and>
                               label = ''Create trimmed MP4'') \<and>
         selected_function s' = selected_function s"
  using assms
  by (auto simp: run_section_def text_annotation_section_def trimming_section_def Let_def
           split: if_splits sum.splits option.splits)

lemma data_editor_kind:
  "(\<exists>t. data_editor st k df = AnnotationTable t) \<longleftrightarrow> (\<exists>t. df = AnnotationTable t)"
  by (auto simp: data_editor_def split: option.splits table.splits)

lemma section_reset:
  assumes "session_inv s" "selected_function s \<noteq> None"
  shows "run_section env (reset_input ds) fs s =
           (if selected_function s = Some ''Trimming''
            then (s\<lparr>df_initial_trimmings := Some get_default_trimming_data,
                    random_10_digit_string := Some (random_10_digits ds)\<rparr>,
                  Inr (TrimmingTable get_default_trimming_data, ''Create trimmed MP4''))
            else (s\<lparr>df_initial_annotations := Some get_default_annotation_data,
                    random_10_digit_string := Some (random_10_digits ds)\<rparr>,
                  Inr (AnnotationTable get_default_annotation_data, ''Create MP4 with text overlay'')))"
  using assms
  by (auto simp: session_inv_def run_section_def text_annotation_section_def trimming_section_def
                 Let_def split: option.splits)

section \<open>Properties\<close>

text \<open>
  C21. Type of the dispatched table: after every successful run the data editor
  shows an annotation table exactly when the selected function is
  \<^verbatim>\<open>Text annotation\<close>, the process button carries that function's label, and the
  selected function is one of the two options; since \<open>process_function\<close> chooses
  the processing by the table's kind, the button always runs the selected function's
  processing.
\<close>

theorem dispatch_matches_function:
  assumes "main env inp s fs = (s', fs', Inr p)"
  shows "((\<exists>t. editor_shown p = AnnotationTable t) \<longleftrightarrow> selected_function s' = Some ''Text annotation'') \<and>
         process_button_text p =
           (if selected_function s' = Some ''Trimming'' then ''Create trimmed MP4''
            else ''Create MP4 with text overlay'') \<and>
         selected_function s' \<in> {Some ''Text annotation'', Some ''Trimming''}"
proof -
  obtain s2 k df label where
    run: "run_section env inp fs (function_default (apply_widget_input inp s)) = (s2, Inr (df, label))"
    and pg: "main_page env inp s2 fs (data_editor (editor_state s2) k df) label = (s', fs', Inr p)"
    by (rule main_Inr [OF assms]) 
  have shown: "editor_shown p = data_editor (editor_state s2) k df"
    using main_page_shown [OF pg] .
  have lab: "process_button_text p = label"
    using arg_cong [OF pg, of "\<lambda>x. case snd (snd x) of Inr p \<Rightarrow> process_button_text p | Inl _ \<Rightarrow> label"]
    by (simp add: main_page_eq Let_def)
  have sel: "selected_function s' = selected_function s2"
    using main_page_state [OF pg] by simp
  note kind = run_section_kind [OF run]
  show ?thesis
    using kind shown lab sel data_editor_kind [of "editor_state s2" k df]
    by (cases df) auto
qed

theorem dispatch_matches_function_witness:
  "\<exists>s' fs' p. main demo_env (demo_input False False False None) init_session Map.empty = (s', fs', Inr p) \<and>
     ((\<exists>t. editor_shown p = AnnotationTable t) \<longleftrightarrow> selected_function s' = Some ''Text annotation'') \<and>
     process_button_text p =
       (if selected_function s' = Some ''Trimming'' then ''Create trimmed MP4''
        else ''Create MP4 with text overlay'') \<and>
     selected_function s' \<in> {Some ''Text annotation'', Some ''Trimming''}"
proof -
  obtain s' fs' p where m: "main demo_env (demo_input False False False None) init_session Map.empty = (s', fs', Inr p)"
    by (simp add: main_simps init_session_def)
  show ?thesis using dispatch_matches_function [OF m] m by blast
qed

text \<open>
  C22. Liveness of the reset: from every reachable session with a selected function,
  and for every draw of ten digits, the run that presses only the load button (no
  existing file) succeeds, leaves the file system alone, keeps the selected function,
  and stores that function's default table; the session it reaches is again
  reachable.
\<close>

theorem reset_always_possible:
  assumes "reachable env s" "selected_function s \<noteq> None" "valid_draw ds"
  shows "\<exists>s' p. main env (reset_input ds) s fs = (s', fs, Inr p) \<and> reachable env s' \<and>
           selected_function s' = selected_function s \<and>
           initial_table s' =
             Some (if selected_function s = Some ''Trimming'' then TrimmingTable get_default_trimming_data
                   else AnnotationTable get_default_annotation_data)"
proof -
  have inv: "session_inv s" using assms(1) by (rule reachable_session_inv)
  have w: "function_default (apply_widget_input (reset_input ds) s) = s"
    using assms(2) by (simp add: apply_widget_input_def function_default_def split: option.split prod.split)
  have v: "valid_input (reset_input ds)" using assms(3) by (simp add: valid_input_def)
  obtain s' fs' r where m: "main env (reset_input ds) s fs = (s', fs', r)"
    by (cases "main env (reset_input ds) s fs") auto
  have "reachable env s'"
    using reachable.step [OF assms(1) v m] .
  moreover have "fs' = fs \<and> (\<exists>p. r = Inr p) \<and> selected_function s' = selected_function s \<and>
      initial_table s' =
        Some (if selected_function s = Some ''Trimming'' then TrimmingTable get_default_trimming_data
              else AnnotationTable get_default_annotation_data)"
    using m section_reset [OF inv assms(2), of env ds fs] w
    by (auto simp: main_def main_page_eq Let_def initial_table_def split: if_splits)
  ultimately show ?thesis using m by blast
qed

theorem reset_always_possible_witness:
  "\<exists>s' p. main demo_env (reset_input [9, 8, 7, 6, 5, 4, 3, 2, 1, 0])
        (fst (main demo_env (demo_input False False False None) init_session Map.empty)) Map.empty =
        (s', Map.empty, Inr p) \<and> reachable demo_env s' \<and>
      selected_function s' = selected_function (fst (main demo_env (demo_input False False False None) init_session Map.empty)) \<and>
      initial_table s' =
        Some (if selected_function (fst (main demo_env (demo_input False False False None) init_session Map.empty)) = Some ''Trimming''
              then TrimmingTable get_default_trimming_data else AnnotationTable get_default_annotation_data)"
proof -
  have v: "valid_input (demo_input False False False None)"
    by (simp add: valid_input_def valid_draw_def)
  have sel: "selected_function (fst (main demo_env (demo_input False False False None) init_session Map.empty)) \<noteq> None"
    by (simp add: main_simps init_session_def)
  have d: "valid_draw [9, 8, 7, 6, 5, 4, 3, 2, 1, 0]" by (simp add: valid_draw_def)
  show ?thesis
    by (rule reset_always_possible [OF reachable_main [OF reachable.init v] sel d])
qed

end
