(* ===== verification/Base64.thy ===== *)
theory Base64
  imports Prelude
begin

unbundle bit_operations_syntax

text \<open>
  \<^verbatim>\<open>base64.b64encode\<close>, which the GIF preview of \<^verbatim>\<open>main\<close> applies to the bytes of the
  GIF file (line 174). The encoder is written the way CPython's \<^verbatim>\<open>binascii\<close>
  computes it, with shifts and masks on bytes (\<open>8 word\<close>), three bytes to four
  characters of the alphabet and \<open>=\<close> padding for a last group of one or two bytes.
  Beside it stand two reference definitions that are not repository code: the
  textbook encoder \<open>b64encode_ref\<close> (a 24-bit group written as four base-64 digits)
  and a decoder \<open>b64decode\<close>. The lemmas show that the bitwise encoder equals the
  textbook one, that decoding inverts it, and that its output stays in the alphabet
  and the pad; the preview's property (theory \<open>Preview\<close>) rests on them.
\<close>

type_synonym byte = "8 word"

definition b64_alphabet :: string where
  "b64_alphabet = ''ABCDEFGHIJKLMNOPQRSTUVWXYZabcdefghijklmnopqrstuvwxyz0123456789+/''"

definition b64_char :: "byte \<Rightarrow> char" where
  "b64_char w = b64_alphabet ! unat w"

fun b64encode :: "byte list \<Rightarrow> string" where
  "b64encode [] = []"
| "b64encode [a] =
     [b64_char (drop_bit 2 a), b64_char (push_bit 4 (a AND 3)), CHR ''='', CHR ''='']"
| "b64encode [a, b] =
     [b64_char (drop_bit 2 a), b64_char (push_bit 4 (a AND 3) OR drop_bit 4 b),
      b64_char (push_bit 2 (b AND 15)), CHR ''='']"
| "b64encode (a # b # c # rest) =
     [b64_char (drop_bit 2 a), b64_char (push_bit 4 (a AND 3) OR drop_bit 4 b),
      b64_char (push_bit 2 (b AND 15) OR drop_bit 6 c), b64_char (c AND 63)] @ b64encode rest"

definition b64_digit :: "nat \<Rightarrow> char" where
  "b64_digit n = b64_alphabet ! n"

fun b64encode_ref :: "byte list \<Rightarrow> string" where
  "b64encode_ref [] = []"
| "b64encode_ref [a] =
     (let n = unat a * 65536 in
      [b64_digit (n div 262144), b64_digit (n div 4096 mod 64), CHR ''='', CHR ''=''])"
| "b64encode_ref [a, b] =
     (let n = unat a * 65536 + unat b * 256 in
      [b64_digit (n div 262144), b64_digit (n div 4096 mod 64), b64_digit (n div 64 mod 64),
       CHR ''=''])"
| "b64encode_ref (a # b # c # rest) =
     (let n = unat a * 65536 + unat b * 256 + unat c in
      [b64_digit (n div 262144), b64_digit (n div 4096 mod 64), b64_digit (n div 64 mod 64),
       b64_digit (n mod 64)] @ b64encode_ref rest)"

fun pos_of :: "'a \<Rightarrow> 'a list \<Rightarrow> nat option" where
  "pos_of x [] = None"
| "pos_of x (y # ys) = (if x = y then Some 0 else map_option Suc (pos_of x ys))"

definition b64_val :: "char \<Rightarrow> nat option" where
  "b64_val c = pos_of c b64_alphabet"

fun b64decode :: "string \<Rightarrow> byte list option" where
  "b64decode [] = Some []"
| "b64decode (c0 # c1 # c2 # c3 # rest) =
     (case (b64_val c0, b64_val c1) of
        (Some s0, Some s1) \<Rightarrow>
          if rest = [] \<and> c2 = CHR ''='' \<and> c3 = CHR ''='' then Some [of_nat (s0 * 4 + s1 div 16)]
          else
            (case b64_val c2 of
               None \<Rightarrow> None
             | Some s2 \<Rightarrow>
                 if rest = [] \<and> c3 = CHR ''='' then
                   Some [of_nat (s0 * 4 + s1 div 16), of_nat (s1 mod 16 * 16 + s2 div 4)]
                 else
                   (case (b64_val c3, b64decode rest) of
                      (Some s3, Some bs) \<Rightarrow>
                        Some ([of_nat (s0 * 4 + s1 div 16), of_nat (s1 mod 16 * 16 + s2 div 4),
                               of_nat (s2 mod 4 * 64 + s3)] @ bs)
                    | _ \<Rightarrow> None))
      | _ \<Rightarrow> None)"
| "b64decode _ = None"

section \<open>Lemmas\<close>

lemma pos_of_nth: "distinct xs \<Longrightarrow> i < length xs \<Longrightarrow> pos_of (xs ! i) xs = Some i"
proof (induction xs arbitrary: i)
  case Nil
  then show ?case by simp
next
  case (Cons y ys)
  then show ?case by (cases i) (auto simp: nth_mem)
qed

lemma b64_alphabet_distinct: "distinct b64_alphabet"
  by (simp add: b64_alphabet_def)

lemma b64_alphabet_length: "length b64_alphabet = 64"
  by (simp add: b64_alphabet_def)

lemma b64_val_digit: "n < 64 \<Longrightarrow> b64_val (b64_digit n) = Some n"
  by (simp add: b64_val_def b64_digit_def pos_of_nth b64_alphabet_distinct b64_alphabet_length)

lemma pad_not_digit: "b64_digit n \<noteq> CHR ''=''" if "n < 64"
proof -
  have "CHR ''='' \<notin> set b64_alphabet" by (simp add: b64_alphabet_def)
  moreover have "b64_digit n \<in> set b64_alphabet"
    using that by (simp add: b64_digit_def b64_alphabet_length)
  ultimately show ?thesis by metis
qed

lemma unat_and_3: "unat ((a :: byte) AND 3) = unat a mod 4"
proof -
  have "a AND 3 = take_bit 2 a" by (simp add: take_bit_eq_mask mask_eq_exp_minus_1)
  then show ?thesis by (simp only: unsigned_take_bit_eq) (simp add: take_bit_eq_mod)
qed

lemma unat_and_15: "unat ((a :: byte) AND 15) = unat a mod 16"
proof -
  have "a AND 15 = take_bit 4 a" by (simp add: take_bit_eq_mask mask_eq_exp_minus_1)
  then show ?thesis by (simp only: unsigned_take_bit_eq) (simp add: take_bit_eq_mod)
qed

lemma unat_and_63: "unat ((a :: byte) AND 63) = unat a mod 64"
proof -
  have "a AND 63 = take_bit 6 a" by (simp add: take_bit_eq_mask mask_eq_exp_minus_1)
  then show ?thesis by (simp only: unsigned_take_bit_eq) (simp add: take_bit_eq_mod)
qed

lemma unat_drop_bit_byte: "unat (drop_bit n (a :: byte)) = unat a div 2 ^ n"
  by (simp only: unat_drop_bit_eq) (simp add: drop_bit_eq_div)

lemma unat_push_bit_byte: "unat (push_bit n (a :: byte)) = unat a * 2 ^ n mod 256"
  by (simp only: unsigned_push_bit_eq) (simp add: take_bit_eq_mod push_bit_eq_mult)

lemma unat_byte_lt: "unat (a :: byte) < 256"
  using unsigned_less [of a] by simp

lemma unat_add_byte: "unat (x :: byte) + unat y < 256 \<Longrightarrow> unat (x + y) = unat x + unat y"
  using unat_add_lem [of x y] by simp

lemma sextet_or:
  assumes "unat (x :: byte) + unat y < 256" "\<And>n. \<not> bit x n \<or> \<not> bit y n"
  shows "unat (x OR y) = unat x + unat y"
  using assms by (simp add: disjunctive_add [symmetric] unat_add_byte)

lemma push_and_3: "unat (push_bit 4 ((a :: byte) AND 3)) = unat a mod 4 * 16"
proof -
  have "unat a mod 4 * 16 < 256" by simp
  then show ?thesis by (simp only: unat_push_bit_byte unat_and_3) simp
qed

lemma push_and_15: "unat (push_bit 2 ((b :: byte) AND 15)) = unat b mod 16 * 4"
proof -
  have "unat b mod 16 * 4 < 256" by simp
  then show ?thesis by (simp only: unat_push_bit_byte unat_and_15) simp
qed

lemma sextet1:
  "unat (push_bit 4 ((a :: byte) AND 3) OR drop_bit 4 b) = unat a mod 4 * 16 + unat b div 16"
proof -
  have d: "unat (drop_bit 4 b) = unat b div 16"
    by (simp add: unat_drop_bit_byte)
  have "unat a mod 4 * 16 + unat b div 16 < 256"
    using unat_byte_lt [of b] by simp
  then have "unat (push_bit 4 (a AND 3)) + unat (drop_bit 4 b) < 256"
    by (simp only: push_and_3 d)
  moreover have "\<And>n. \<not> bit (push_bit 4 (a AND 3)) n \<or> \<not> bit (drop_bit 4 b) n"
    by (auto simp: bit_simps dest: bit_imp_le_length)
  ultimately show ?thesis
    by (simp only: sextet_or push_and_3 d)
qed

lemma sextet2:
  "unat (push_bit 2 ((b :: byte) AND 15) OR drop_bit 6 c) = unat b mod 16 * 4 + unat c div 64"
proof -
  have d: "unat (drop_bit 6 c) = unat c div 64"
    by (simp add: unat_drop_bit_byte)
  have "unat b mod 16 * 4 + unat c div 64 < 256"
    using unat_byte_lt [of c] by simp
  then have "unat (push_bit 2 (b AND 15)) + unat (drop_bit 6 c) < 256"
    by (simp only: push_and_15 d)
  moreover have "\<And>n. \<not> bit (push_bit 2 (b AND 15)) n \<or> \<not> bit (drop_bit 6 c) n"
    by (auto simp: bit_simps dest: bit_imp_le_length)
  ultimately show ?thesis
    by (simp only: sextet_or push_and_15 d)
qed

lemma b64_char_digit: "b64_char w = b64_digit (unat w)"
  by (simp add: b64_char_def b64_digit_def)

lemma div_mod_split: "(r :: nat) < m \<Longrightarrow> (q * m + r) div m = q \<and> (q * m + r) mod m = r"
  by simp

lemma b64_arith:
  fixes ua ub uc :: nat
  assumes "ua < 256" "ub < 256" "uc < 256"
  shows "(ua * 65536 + ub * 256 + uc) div 262144 = ua div 4"
    and "(ua * 65536 + ub * 256 + uc) div 4096 mod 64 = ua mod 4 * 16 + ub div 16"
    and "(ua * 65536 + ub * 256 + uc) div 64 mod 64 = ub mod 16 * 4 + uc div 64"
    and "(ua * 65536 + ub * 256 + uc) mod 64 = uc mod 64"
proof -
  have a: "ua = ua div 4 * 4 + ua mod 4" and b: "ub = ub div 16 * 16 + ub mod 16"
    and c: "uc = uc div 64 * 64 + uc mod 64"
    by simp_all
  have am: "ua mod 4 < 4" and bm: "ub mod 16 < 16" and cm: "uc mod 64 < 64" and
    bd: "ub div 16 < 16" and cd: "uc div 64 < 4"
    using assms by simp_all
  let ?n = "ua * 65536 + ub * 256 + uc"
  have n1: "?n = ua div 4 * 262144 + (ua mod 4 * 65536 + ub * 256 + uc)"
    using a by linarith
  show "?n div 262144 = ua div 4"
    using div_mod_split [of "ua mod 4 * 65536 + ub * 256 + uc" 262144 "ua div 4"] n1 am assms
    by linarith
  have "(ua * 16 + ub div 16) * 4096 = ua * 65536 + ub div 16 * 4096" by simp
  then have n2: "?n = (ua * 16 + ub div 16) * 4096 + (ub mod 16 * 256 + uc)"
    using b by linarith
  have q2: "ua * 16 + ub div 16 = ua div 4 * 64 + (ua mod 4 * 16 + ub div 16)"
    using a by linarith
  have "?n div 4096 = ua * 16 + ub div 16"
    using div_mod_split [of "ub mod 16 * 256 + uc" 4096 "ua * 16 + ub div 16"] n2 bm assms
    by linarith
  then show "?n div 4096 mod 64 = ua mod 4 * 16 + ub div 16"
    using div_mod_split [of "ua mod 4 * 16 + ub div 16" 64 "ua div 4"] q2 am bd by simp
  have "(ua * 1024 + ub * 4 + uc div 64) * 64 = ua * 65536 + ub * 256 + uc div 64 * 64" by simp
  then have n3: "?n = (ua * 1024 + ub * 4 + uc div 64) * 64 + uc mod 64"
    using c by linarith
  have "(ua * 16 + ub div 16) * 64 = ua * 1024 + ub div 16 * 64" by simp
  then have q3: "ua * 1024 + ub * 4 + uc div 64 = (ua * 16 + ub div 16) * 64 + (ub mod 16 * 4 + uc div 64)"
    using b by linarith
  have "?n div 64 = ua * 1024 + ub * 4 + uc div 64"
    using div_mod_split [of "uc mod 64" 64 "ua * 1024 + ub * 4 + uc div 64"] n3 cm by simp
  then show "?n div 64 mod 64 = ub mod 16 * 4 + uc div 64"
    using div_mod_split [of "ub mod 16 * 4 + uc div 64" 64 "ua * 16 + ub div 16"] q3 bm cd by simp
  show "?n mod 64 = uc mod 64"
    using div_mod_split [of "uc mod 64" 64 "ua * 1024 + ub * 4 + uc div 64"] cm by (simp only: n3)
qed

lemma b64_arith_short:
  fixes ua ub :: nat
  assumes "ua < 256" "ub < 256"
  shows "(ua * 65536) div 262144 = ua div 4"
    and "(ua * 65536) div 4096 mod 64 = ua mod 4 * 16"
    and "(ua * 65536 + ub * 256) div 262144 = ua div 4"
    and "(ua * 65536 + ub * 256) div 4096 mod 64 = ua mod 4 * 16 + ub div 16"
    and "(ua * 65536 + ub * 256) div 64 mod 64 = ub mod 16 * 4"
proof -
  have z: "(0 :: nat) < 256" by simp
  note a1 = b64_arith [OF assms(1) z z] and a2 = b64_arith [OF assms(1) assms(2) z]
  show "(ua * 65536) div 262144 = ua div 4"
    using a1(1) by (simp only: mult_zero_left add_0_right)
  show "(ua * 65536) div 4096 mod 64 = ua mod 4 * 16"
    using a1(2) by (simp only: mult_zero_left add_0_right div_0)
  show "(ua * 65536 + ub * 256) div 262144 = ua div 4"
    using a2(1) by (simp only: add_0_right)
  show "(ua * 65536 + ub * 256) div 4096 mod 64 = ua mod 4 * 16 + ub div 16"
    using a2(2) by (simp only: add_0_right)
  show "(ua * 65536 + ub * 256) div 64 mod 64 = ub mod 16 * 4"
    using a2(3) by (simp only: add_0_right div_0)
qed

lemma unat_drop_bit_2: "unat (drop_bit 2 (a :: byte)) = unat a div 4"
  by (simp add: unat_drop_bit_byte)

lemma b64encode_digits:
  "b64encode [a] =
     [b64_digit (unat a div 4), b64_digit (unat a mod 4 * 16), CHR ''='', CHR ''='']"
  "b64encode [a, b] =
     [b64_digit (unat a div 4), b64_digit (unat a mod 4 * 16 + unat b div 16),
      b64_digit (unat b mod 16 * 4), CHR ''='']"
  "b64encode (a # b # c # rest) =
     [b64_digit (unat a div 4), b64_digit (unat a mod 4 * 16 + unat b div 16),
      b64_digit (unat b mod 16 * 4 + unat c div 64), b64_digit (unat c mod 64)] @ b64encode rest"
  by (simp only: b64encode.simps b64_char_digit unat_drop_bit_2 push_and_3 push_and_15 sextet1
                 sextet2 unat_and_63)+

lemma b64encode_b64encode_ref: "b64encode bs = b64encode_ref bs"
proof (induction bs rule: b64encode.induct)
  case 1
  then show ?case by simp
next
  case (2 a)
  show ?case
    by (simp only: b64encode_digits b64encode_ref.simps Let_def
                   b64_arith_short [OF unat_byte_lt [of a] unat_byte_lt [of a]])
next
  case (3 a b)
  show ?case
    by (simp only: b64encode_digits b64encode_ref.simps Let_def
                   b64_arith_short [OF unat_byte_lt [of a] unat_byte_lt [of b]])
next
  case (4 a b c rest)
  show ?case
    by (simp only: b64encode_digits b64encode_ref.simps Let_def 4
                   b64_arith [OF unat_byte_lt [of a] unat_byte_lt [of b] unat_byte_lt [of c]])
qed

lemma decode_byte_a: "of_nat (unat a div 4 * 4 + (unat a mod 4 * 16 + x) div 16) = (a :: byte)"
  if "x < 16"
proof -
  have "(unat a mod 4 * 16 + x) div 16 = unat a mod 4" using that by simp
  then have "unat a div 4 * 4 + (unat a mod 4 * 16 + x) div 16 = unat a" by simp
  then show ?thesis by simp
qed

lemma decode_byte_b: "of_nat ((unat a mod 4 * 16 + unat b div 16) mod 16 * 16 + (unat b mod 16 * 4 + x) div 4) = (b :: byte)"
  if "x < 4"
proof -
  have "(unat a mod 4 * 16 + unat b div 16) mod 16 = unat b div 16"
    using unat_byte_lt [of b] by simp
  moreover have "(unat b mod 16 * 4 + x) div 4 = unat b mod 16" using that by simp
  ultimately have "(unat a mod 4 * 16 + unat b div 16) mod 16 * 16 + (unat b mod 16 * 4 + x) div 4 = unat b"
    by simp
  then show ?thesis by simp
qed

lemma decode_byte_c: "of_nat ((unat b mod 16 * 4 + unat c div 64) mod 4 * 64 + unat c mod 64) = (c :: byte)"
proof -
  have "(unat b mod 16 * 4 + unat c div 64) mod 4 = unat c div 64"
    using unat_byte_lt [of c] by simp
  then have "(unat b mod 16 * 4 + unat c div 64) mod 4 * 64 + unat c mod 64 = unat c" by simp
  then show ?thesis by simp
qed

lemma b64_digit_bounds:
  "unat (a :: byte) div 4 < 64"
  "unat (a :: byte) mod 4 * 16 < 64"
  "unat (a :: byte) mod 4 * 16 + unat (b :: byte) div 16 < 64"
  "unat (b :: byte) mod 16 * 4 < 64"
  "unat (b :: byte) mod 16 * 4 + unat (c :: byte) div 64 < 64"
  "unat (c :: byte) mod 64 < 64"
  using unat_byte_lt [of a] unat_byte_lt [of b] unat_byte_lt [of c] by simp_all

lemma b64decode_b64encode: "b64decode (b64encode bs) = Some bs"
proof (induction bs rule: b64encode.induct)
  case 1
  then show ?case by simp
next
  case (2 a)
  have "of_nat (unat a div 4 * 4 + (unat a mod 4 * 16 + 0) div 16) = a"
    by (rule decode_byte_a) simp
  then show ?case
    by (simp only: b64encode_digits) (simp add: b64_val_digit b64_digit_bounds)
next
  case (3 a b)
  have "of_nat (unat a div 4 * 4 + (unat a mod 4 * 16 + unat b div 16) div 16) = a"
    using unat_byte_lt [of b] by (intro decode_byte_a) simp
  moreover have "of_nat ((unat a mod 4 * 16 + unat b div 16) mod 16 * 16 + (unat b mod 16 * 4 + 0) div 4) = b"
    by (rule decode_byte_b) simp
  ultimately show ?case
    by (simp only: b64encode_digits) (simp add: b64_val_digit b64_digit_bounds pad_not_digit)
next
  case (4 a b c rest)
  have "of_nat (unat a div 4 * 4 + (unat a mod 4 * 16 + unat b div 16) div 16) = a"
    using unat_byte_lt [of b] by (intro decode_byte_a) simp
  moreover have "of_nat ((unat a mod 4 * 16 + unat b div 16) mod 16 * 16 + (unat b mod 16 * 4 + unat c div 64) div 4) = b"
    using unat_byte_lt [of c] by (intro decode_byte_b) simp
  ultimately show ?case
    using 4 decode_byte_c [of b c]
    by (simp only: b64encode_digits) (simp add: b64_val_digit b64_digit_bounds pad_not_digit)
qed

lemma b64_digit_mem: "n < 64 \<Longrightarrow> b64_digit n \<in> set b64_alphabet"
  by (simp add: b64_digit_def b64_alphabet_length)

lemma b64encode_chars: "set (b64encode bs) \<subseteq> insert CHR ''='' (set b64_alphabet)"
proof (induction bs rule: b64encode.induct)
  case (4 a b c rest)
  then show ?case
    by (simp only: b64encode_digits) (simp add: b64_digit_mem b64_digit_bounds)
qed (simp_all only: b64encode_digits, simp_all add: b64_digit_mem b64_digit_bounds)

end
