(* ===== verification/Preview.thy ===== *)
theory Preview
  imports Session Base64
begin

text \<open>
  The \<^verbatim>\<open>View GIF\<close> expander of \<^verbatim>\<open>main\<close>, lines 170-180: when the session holds
  a GIF path and the file exists, the script reads the file's bytes, encodes them
  with \<^verbatim>\<open>base64.b64encode\<close>, decodes the ASCII result with \<^verbatim>\<open>.decode("utf-8")\<close>
  (the identity on ASCII, so the data URL is the encoder's text) and renders an
  \<^verbatim>\<open><img>\<close> element with the data URL. A file's contents are a \<open>string\<close> in the
  file-system model; reading it in binary mode gives one byte per character.
\<close>

definition bytes_of :: "string \<Rightarrow> byte list" where
  "bytes_of contents = map (\<lambda>x. of_nat (of_char x)) contents"

definition gif_data_url :: "string \<Rightarrow> string" where
  "gif_data_url contents = b64encode (bytes_of contents)"

definition gif_img_html :: "string \<Rightarrow> string" where
  "gif_img_html data_url =
     ''<img src='' @ [dquote] @ ''data:image/gif;base64,'' @ data_url @ [dquote] @
     '' alt='' @ [dquote] @ ''animated gif'' @ [dquote] @ ''>''"

definition view_gif_markup :: "session \<Rightarrow> fs \<Rightarrow> string option" where
  "view_gif_markup s fs =
     (case view_gif s fs of
        None \<Rightarrow> None
      | Some g \<Rightarrow> map_option (\<lambda>contents. gif_img_html (gif_data_url contents)) (fs g))"

section \<open>Lemmas\<close>

lemma chars_of_bytes_of: "map (\<lambda>b. char_of (unat b)) (bytes_of c) = c"
proof -
  have "char_of (unat (of_nat (of_char x) :: byte)) = x" for x
  proof -
    have "of_char x < (256 :: nat)" by (rule nat_of_char_less_256)
    then have "unat (of_nat (of_char x) :: byte) = of_char x" by (simp add: unat_of_nat)
    then show ?thesis by simp
  qed
  then show ?thesis by (induction c) (simp_all add: bytes_of_def)
qed

lemma dquote_not_b64: "dquote \<notin> set (b64encode bs)"
proof -
  have "dquote \<notin> insert CHR ''='' (set b64_alphabet)" by (simp add: b64_alphabet_def)
  then show ?thesis using b64encode_chars [of bs] by blast
qed

section \<open>Properties\<close>

text \<open>
  C20. The preview shows the GIF the session names: whenever the expander renders
  markup, it is the \<^verbatim>\<open><img>\<close> element around a data URL that contains no double
  quote (so the attribute is not cut short) and whose base64 decoding is exactly the
  contents of the file at the session's GIF path.
\<close>

theorem gif_preview_roundtrip:
  assumes "view_gif_markup s fs = Some m"
  shows "\<exists>g c u. output_gif_file s = Some g \<and> fs g = Some c \<and> m = gif_img_html u \<and>
           dquote \<notin> set u \<and> map_option (map (\<lambda>b. char_of (unat b))) (b64decode u) = Some c"
  using assms
  by (auto simp: view_gif_markup_def view_gif_def os_path_exists_def gif_data_url_def
                 b64decode_b64encode chars_of_bytes_of dquote_not_b64 split: option.splits if_splits)

theorem gif_preview_roundtrip_witness:
  "\<exists>g c u. output_gif_file (init_session\<lparr>output_gif_file := Some ''output.gif''\<rparr>) = Some g \<and>
     [''output.gif'' \<mapsto> ''GIF89a''] g = Some c \<and>
     gif_img_html (gif_data_url ''GIF89a'') = gif_img_html u \<and>
     dquote \<notin> set u \<and> map_option (map (\<lambda>b. char_of (unat b))) (b64decode u) = Some c"
proof -
  have m: "view_gif_markup (init_session\<lparr>output_gif_file := Some ''output.gif''\<rparr>)
             [''output.gif'' \<mapsto> ''GIF89a''] = Some (gif_img_html (gif_data_url ''GIF89a''))"
    by (simp add: view_gif_markup_def view_gif_def os_path_exists_def)
  show ?thesis by (rule gif_preview_roundtrip [OF m])
qed

end
