(* ===== verification/Fuel.thy ===== *)
theory Fuel
  imports FFmpeg
begin

text \<open>
  The expression parser of the ffmpeg model runs on fuel, and \<open>parse_fexpr\<close> gives
  it the length of the input plus one. This theory shows that this fuel is never the
  reason for a verdict: more fuel never changes a successful parse
  (\<open>parse_fuel_mono\<close>), a parse that consumes \<open>n\<close> characters needs at most \<open>n\<close>
  (primaries, continuations) or \<open>n + 1\<close> (sums) units of fuel
  (\<open>parse_fuel_need\<close>), and therefore \<open>parse_fexpr\<close> accepts a string exactly when
  some amount of fuel parses all of it (\<open>parse_fexpr_fuel_enough\<close>): a rejection
  means no parse exists, not that the parser ran out of fuel.
\<close>

lemma parse_fuel_mono:
  shows "parse_sum f s = Some x \<Longrightarrow> parse_sum (f + k) s = Some x"
    and "parse_sum_rest f e r = Some x \<Longrightarrow> parse_sum_rest (f + k) e r = Some x"
    and "parse_prim f s = Some x \<Longrightarrow> parse_prim (f + k) s = Some x"
proof (induction f s and f e r and f s arbitrary: x and x and x
       rule: parse_sum_parse_sum_rest_parse_prim.induct)
  case (1 s)
  then show ?case by simp
next
  case (2 f s)
  then show ?case by (cases x) (auto simp: bind_eq_Some_conv simp del: parse_sum_rest.simps)
next
  case (3 f e r)
  show ?case
  proof (cases r)
    case Nil
    then show ?thesis using 3 by simp
  next
    case (Cons c r')
    show ?thesis
    proof (cases "c = CHR ''+''")
      case False
      then show ?thesis using 3(3) Cons by simp
    next
      case True
      obtain f' where f: "f = Suc f'"
        using 3(3) Cons True by (cases f) auto
      obtain e2 r2 where p: "parse_prim f' r' = Some (e2, r2)"
        and q: "parse_sum_rest f' (EAdd e e2) r2 = Some x"
        using 3(3) Cons True f by (auto simp: bind_eq_Some_conv)
      have p': "parse_prim (f' + k) r' = Some (e2, r2)"
        using 3(1) [OF Cons True f p] .
      have q': "parse_sum_rest (f' + k) (EAdd e e2) r2 = Some x"
        using 3(2) [OF Cons True f p refl q] .
      show ?thesis
        using Cons True f p' q' by simp
    qed
  qed
next
  case (4 s)
  then show ?case by simp
next
  case (5 f s)
  then show ?case
    by (auto simp: bind_eq_Some_conv simp del: parse_sum.simps split: option.splits)
qed

lemma parse_fuel_mono_le:
  assumes "f \<le> g"
  shows "parse_sum f s = Some x \<Longrightarrow> parse_sum g s = Some x"
    and "parse_sum_rest f e r = Some x \<Longrightarrow> parse_sum_rest g e r = Some x"
    and "parse_prim f s = Some x \<Longrightarrow> parse_prim g s = Some x"
proof -
  have g: "g = f + (g - f)" using assms by simp
  show "parse_sum f s = Some x \<Longrightarrow> parse_sum g s = Some x"
    by (subst g) (rule parse_fuel_mono(1))
  show "parse_sum_rest f e r = Some x \<Longrightarrow> parse_sum_rest g e r = Some x"
    by (subst g) (rule parse_fuel_mono(2))
  show "parse_prim f s = Some x \<Longrightarrow> parse_prim g s = Some x"
    by (subst g) (rule parse_fuel_mono(3))
qed

lemma match_lit_Some: "match_lit p s = Some r \<Longrightarrow> s = p @ r"
  by (induction p s rule: match_lit.induct) (auto split: if_splits)

lemma digits_acc_length: "length (snd (digits_acc acc s)) \<le> length s"
  by (induction acc s rule: digits_acc.induct) auto

lemma parse_nat_length: "parse_nat s = Some (n, r) \<Longrightarrow> length r < length s"
proof -
  assume p: "parse_nat s = Some (n, r)"
  then obtain c cs where s: "s = c # cs" and d: "is_digit c" and a: "digits_acc 0 s = (n, r)"
    by (auto simp: parse_nat_def split: list.splits if_splits)
  have "digits_acc 0 s = digits_acc (of_char c - 48) cs" using s d by simp
  then have "r = snd (digits_acc (of_char c - 48) cs)"
    using a by (metis snd_conv)
  then have "length r \<le> length cs"
    using digits_acc_length [of "of_char c - 48" cs] by simp
  then show ?thesis using s by simp
qed

lemma parse_int_length: "parse_int s = Some (n, r) \<Longrightarrow> length r < length s"
  by (auto simp: parse_int_def dest!: parse_nat_length split: list.splits if_splits)

lemma var_t_length: "var_t s = Some (x, r) \<Longrightarrow> length r < length s"
  by (auto simp: var_t_def split: list.splits if_splits)

lemma parse_fuel_need:
  shows "parse_sum f s = Some (e, r) \<Longrightarrow>
           length r < length s \<and> parse_sum (length s - length r + 1) s = Some (e, r)"
    and "parse_sum_rest f e0 s = Some (e, r) \<Longrightarrow>
           length r \<le> length s \<and> parse_sum_rest (length s - length r) e0 s = Some (e, r)"
    and "parse_prim f s = Some (e, r) \<Longrightarrow>
           length r < length s \<and> parse_prim (length s - length r) s = Some (e, r)"
proof (induction f s and f e0 s and f s arbitrary: e r and e r and e r
       rule: parse_sum_parse_sum_rest_parse_prim.induct)
  case (1 s)
  then show ?case by simp
next
  case (2 f s)
  have "Option.bind (parse_prim f s) (\<lambda>(e1, r1). parse_sum_rest f e1 r1) = Some (e, r)"
    using 2(3) by (simp only: parse_sum.simps(2))
  then obtain e1 r1 where p: "parse_prim f s = Some (e1, r1)" and q: "parse_sum_rest f e1 r1 = Some (e, r)"
    by (cases "parse_prim f s") (auto simp del: parse_sum_rest.simps)
  note i1 = 2(1) [OF p] and i2 = 2(2) [OF p refl q]
  have l1: "length r1 < length s" and p1: "parse_prim (length s - length r1) s = Some (e1, r1)"
    using i1 by simp_all
  have l2: "length r \<le> length r1"
    and q1: "parse_sum_rest (length r1 - length r) e1 r1 = Some (e, r)"
    using i2 by simp_all
  have "length s - length r1 \<le> length s - length r" using l2 by linarith
  then have P: "parse_prim (length s - length r) s = Some (e1, r1)"
    using p1 by (rule parse_fuel_mono_le(3))
  have "length r1 - length r \<le> length s - length r" using l1 by linarith
  then have Q: "parse_sum_rest (length s - length r) e1 r1 = Some (e, r)"
    using q1 by (rule parse_fuel_mono_le(2))
  have "parse_sum (Suc (length s - length r)) s = Some (e, r)"
    using P Q by (simp del: parse_sum_rest.simps)
  moreover have "length s - length r + 1 = Suc (length s - length r)" by simp
  ultimately show ?case using l1 l2 by simp
next
  case (3 f e0 s)
  show ?case
  proof (cases s)
    case Nil
    then show ?thesis using 3(3) by simp
  next
    case (Cons c s')
    show ?thesis
    proof (cases "c = CHR ''+''")
      case False
      then show ?thesis using 3(3) Cons by auto
    next
      case True
      obtain f' where f: "f = Suc f'"
        using 3(3) Cons True by (cases f) auto
      obtain e2 r2 where p: "parse_prim f' s' = Some (e2, r2)"
        and q: "parse_sum_rest f' (EAdd e0 e2) r2 = Some (e, r)"
        using 3(3) Cons True f by (auto simp: bind_eq_Some_conv)
      note i1 = 3(1) [OF Cons True f p] and i2 = 3(2) [OF Cons True f p refl q]
      have l1: "length r2 < length s'" and p1: "parse_prim (length s' - length r2) s' = Some (e2, r2)"
        using i1 by simp_all
      have l2: "length r \<le> length r2"
        and q1: "parse_sum_rest (length r2 - length r) (EAdd e0 e2) r2 = Some (e, r)"
        using i2 by simp_all
      have "length s' - length r2 \<le> length s' - length r" using l2 by linarith
      then have P: "parse_prim (length s' - length r) s' = Some (e2, r2)"
        using p1 by (rule parse_fuel_mono_le(3))
      have "length r2 - length r \<le> length s' - length r" using l1 by linarith
      then have Q: "parse_sum_rest (length s' - length r) (EAdd e0 e2) r2 = Some (e, r)"
        using q1 by (rule parse_fuel_mono_le(2))
      have R: "parse_sum_rest (Suc (length s' - length r)) e0 s = Some (e, r)"
        using Cons True P Q by simp
      have "length s - length r = Suc (length s' - length r)"
        using Cons l1 l2 by simp
      then show ?thesis
        using R Cons l1 l2 by simp
    qed
  qed
next
  case (4 s)
  then show ?case by simp
next
  case (5 f s)
  consider (B) r0 where "match_lit ''between('' s = Some r0"
    | (N) r0 where "match_lit ''between('' s = None" "match_lit ''not('' s = Some r0"
    | (L) "match_lit ''between('' s = None" "match_lit ''not('' s = None"
    by (cases "match_lit ''between('' s"; cases "match_lit ''not('' s") auto
  then show ?case
  proof cases
    case B
    obtain a r1 r1' b r2 r2' c r3 where
      s1: "parse_sum f r0 = Some (a, r1)" and m1: "match_lit '','' r1 = Some r1'" and
      s2: "parse_sum f r1' = Some (b, r2)" and m2: "match_lit '','' r2 = Some r2'" and
      s3: "parse_sum f r2' = Some (c, r3)" and m3: "match_lit '')'' r3 = Some r" and
      e: "e = EBetween a b c"
      using 5(5) B by (auto simp: bind_eq_Some_conv simp del: parse_sum.simps)
    note i1 = 5(2) [OF B s1] and i2 = 5(3) [OF B s1 refl m1 s2]
      and i3 = 5(4) [OF B s1 refl m1 s2 refl m2 s3]
    have L: "length s = length r0 + 8" "length r1 = length r1' + 1" "length r2 = length r2' + 1"
      "length r3 = length r + 1"
      using match_lit_Some [OF B] match_lit_Some [OF m1] match_lit_Some [OF m2]
        match_lit_Some [OF m3] by simp_all
    have l: "length r1 < length r0" "length r2 < length r1'" "length r3 < length r2'"
      using i1 [THEN conjunct1] i2 [THEN conjunct1] i3 [THEN conjunct1] by simp_all
    define g where "g = length s - length r - 1"
    have g: "length s - length r = Suc g" using L l by (simp add: g_def)
    have "length r0 - length r1 + 1 \<le> g" using L l by (simp add: g_def)
    then have S1: "parse_sum g r0 = Some (a, r1)"
      using i1 [THEN conjunct2] by (rule parse_fuel_mono_le(1))
    have "length r1' - length r2 + 1 \<le> g" using L l by (simp add: g_def)
    then have S2: "parse_sum g r1' = Some (b, r2)"
      using i2 [THEN conjunct2] by (rule parse_fuel_mono_le(1))
    have "length r2' - length r3 + 1 \<le> g" using L l by (simp add: g_def)
    then have S3: "parse_sum g r2' = Some (c, r3)"
      using i3 [THEN conjunct2] by (rule parse_fuel_mono_le(1))
    have "parse_prim (Suc g) s = Some (e, r)"
      using B S1 m1 S2 m2 S3 m3 e by (simp del: parse_sum.simps)
    then show ?thesis using g L l by simp
  next
    case N
    obtain a r1 where s1: "parse_sum f r0 = Some (a, r1)" and m1: "match_lit '')'' r1 = Some r"
      and e: "e = ENot a"
      using 5(5) N by (auto simp: bind_eq_Some_conv simp del: parse_sum.simps)
    note i1 = 5(1) [OF N s1]
    have L: "length s = length r0 + 4" "length r1 = length r + 1"
      using match_lit_Some [OF N(2)] match_lit_Some [OF m1] by simp_all
    have l: "length r1 < length r0" using i1 [THEN conjunct1] .
    define g where "g = length s - length r - 1"
    have g: "length s - length r = Suc g" using L l by (simp add: g_def)
    have "length r0 - length r1 + 1 \<le> g" using L l by (simp add: g_def)
    then have S1: "parse_sum g r0 = Some (a, r1)"
      using i1 [THEN conjunct2] by (rule parse_fuel_mono_le(1))
    have "parse_prim (Suc g) s = Some (e, r)"
      using N S1 m1 e by (simp del: parse_sum.simps)
    then show ?thesis using g L l by simp
  next
    case L
    have p: "(case var_t s of Some x \<Rightarrow> Some x
              | None \<Rightarrow> map_option (\<lambda>(n, r). (ENum n, r)) (parse_int s)) = Some (e, r)"
      using 5(5) L by simp
    then have l: "length r < length s"
      by (auto dest: var_t_length parse_int_length split: option.splits)
    then have g: "length s - length r = Suc (length s - length r - 1)" by simp
    have "parse_prim (Suc (length s - length r - 1)) s = Some (e, r)"
      using L p by simp
    then show ?thesis using g l by simp
  qed
qed

theorem parse_fexpr_fuel_enough:
  "parse_fexpr s = Some e \<longleftrightarrow> (\<exists>f. parse_sum f s = Some (e, []))"
proof
  assume "parse_fexpr s = Some e"
  then have "parse_sum (length s + 1) s = Some (e, [])"
    by (auto simp: parse_fexpr_def simp del: parse_sum.simps split: option.splits list.splits)
  then show "\<exists>f. parse_sum f s = Some (e, [])" by blast
next
  assume "\<exists>f. parse_sum f s = Some (e, [])"
  then obtain f where "parse_sum f s = Some (e, [])" by blast
  then have "parse_sum (length s + 1) s = Some (e, [])"
    using parse_fuel_need(1) [of f s e "[]"] by simp
  then show "parse_fexpr s = Some e"
    by (simp add: parse_fexpr_def)
qed

end
