(* ===== verification/Listing.thy ===== *)
theory Listing
  imports Session
begin

text \<open>
  The select boxes of lines 61, 93 and 125 of \<^verbatim>\<open>src/app.py\<close> list the working directory:
  \<^verbatim>\<open>[file for file in os.listdir() if file.endswith(ext)]\<close>. \<^verbatim>\<open>os.listdir()\<close>
  returns the names of the directory in an arbitrary order; it is a parameter
  \<open>files\<close>, a list without duplicates whose elements are the paths of the file
  system (\<open>listing_of\<close>). \<^verbatim>\<open>st.selectbox(label, options)\<close> returns the option at
  the index the user picked (0 by default), and \<open>None\<close> when there are no options.
\<close>

definition listing_of :: "path list \<Rightarrow> fs \<Rightarrow> bool" where
  "listing_of files fs \<longleftrightarrow> distinct files \<and> set files = dom fs"

definition files_with_ext :: "string \<Rightarrow> path list \<Rightarrow> path list" where
  "files_with_ext ext files = filter (\<lambda>file. suffix ext file) files"

definition selectbox :: "'a list \<Rightarrow> nat \<Rightarrow> 'a option" where
  "selectbox options i = (if i < length options then Some (options ! i) else None)"

section \<open>Lemmas\<close>

lemma listing_set:
  "listing_of files fs \<Longrightarrow> set (files_with_ext ext files) = {p \<in> dom fs. suffix ext p}"
  by (auto simp: listing_of_def files_with_ext_def)

end
