(* ===== verification/Shell.thy ===== *)
theory Shell
  imports Effects
begin

text \<open>
  \<^verbatim>\<open>os.system(cmd)\<close> runs \<^verbatim>\<open>/bin/sh -c cmd\<close>: the shell splits the command line
  into the argument vector ffmpeg receives. This theory models the part of the POSIX
  shell's token recognition and quote removal that the script's command lines use:
  blanks separate words; single quotes preserve every character up to the next single
  quote; double quotes preserve every character except \<open>$\<close>, backquote, backslash
  and the closing double quote, and a backslash inside them escapes only \<open>$\<close>,
  backquote, double quote, backslash and newline; an unquoted backslash escapes the
  next character. Everything that would make the line more than one simple command
  with literal words (operators, redirections, parameter and command substitution,
  pathname patterns, comments, tilde prefixes, an unterminated quote) is outside this
  subset, and the scanner returns \<open>None\<close> on it. \<^verbatim>\<open>/bin/sh\<close> is not repository code
  and is not in the map.
\<close>

datatype sh_mode = Unquoted | InSingle | InDouble

definition sh_blank :: "char \<Rightarrow> bool" where
  "sh_blank c \<longleftrightarrow> c = CHR '' '' \<or> c = CHR 0x09 \<or> c = CHR 0x0A"

definition sh_special :: "char \<Rightarrow> bool" where
  "sh_special c \<longleftrightarrow> c \<in> set ''|&;<>()$`*?[#~''"

definition sh_dq_special :: "char \<Rightarrow> bool" where
  "sh_dq_special c \<longleftrightarrow> c = CHR ''$'' \<or> c = CHR ''`'' \<or> c = dquote \<or> c = bslash"

definition word_of :: "string option \<Rightarrow> string" where
  "word_of w = (case w of None \<Rightarrow> [] | Some x \<Rightarrow> x)"

definition end_word :: "string option \<Rightarrow> string list \<Rightarrow> string list" where
  "end_word w ws = (case w of None \<Rightarrow> ws | Some x \<Rightarrow> ws @ [x])"

fun sh_scan :: "sh_mode \<Rightarrow> string option \<Rightarrow> string list \<Rightarrow> string \<Rightarrow> string list option" where
  "sh_scan Unquoted w ws [] = Some (end_word w ws)"
| "sh_scan InSingle w ws [] = None"
| "sh_scan InDouble w ws [] = None"
| "sh_scan Unquoted w ws (c # cs) =
     (if sh_blank c then sh_scan Unquoted None (end_word w ws) cs
      else if c = squote then sh_scan InSingle (Some (word_of w)) ws cs
      else if c = dquote then sh_scan InDouble (Some (word_of w)) ws cs
      else if c = bslash then
        (case cs of
           [] \<Rightarrow> None
         | d # ds \<Rightarrow> if d = CHR 0x0A then sh_scan Unquoted w ws ds
                    else sh_scan Unquoted (Some (word_of w @ [d])) ws ds)
      else if sh_special c then None
      else sh_scan Unquoted (Some (word_of w @ [c])) ws cs)"
| "sh_scan InSingle w ws (c # cs) =
     (if c = squote then sh_scan Unquoted w ws cs
      else sh_scan InSingle (Some (word_of w @ [c])) ws cs)"
| "sh_scan InDouble w ws (c # cs) =
     (if c = dquote then sh_scan Unquoted w ws cs
      else if c = bslash then
        (case cs of
           [] \<Rightarrow> None
         | d # ds \<Rightarrow> if sh_dq_special d then sh_scan InDouble (Some (word_of w @ [d])) ws ds
                    else if d = CHR 0x0A then sh_scan InDouble w ws ds
                    else sh_scan InDouble (Some (word_of w @ [c])) ws cs)
      else if c = CHR ''$'' \<or> c = CHR ''`'' then None
      else sh_scan InDouble (Some (word_of w @ [c])) ws cs)"

definition sh_words :: "string \<Rightarrow> string list option" where
  "sh_words cmd = sh_scan Unquoted None [] cmd"

text \<open>
  Characters that stand for themselves outside quotes, and inside double quotes; a
  path is a safe word when it is non-empty and made of the former only.
\<close>

definition sh_plain :: "char \<Rightarrow> bool" where
  "sh_plain c \<longleftrightarrow> \<not> sh_blank c \<and> c \<noteq> squote \<and> c \<noteq> dquote \<and> c \<noteq> bslash \<and> \<not> sh_special c"

definition dq_plain :: "char \<Rightarrow> bool" where
  "dq_plain c \<longleftrightarrow> \<not> sh_dq_special c"

definition safe_word :: "string \<Rightarrow> bool" where
  "safe_word p \<longleftrightarrow> p \<noteq> [] \<and> list_all sh_plain p"

section \<open>Lemmas\<close>

lemma sh_scan_plain:
  "list_all sh_plain x \<Longrightarrow>
   sh_scan Unquoted w ws (x @ rest) = sh_scan Unquoted (if x = [] then w else Some (word_of w @ x)) ws rest"
proof (induction x arbitrary: w)
  case Nil
  then show ?case by simp
next
  case (Cons c x)
  then show ?case by (simp add: sh_plain_def word_of_def)
qed

lemma sh_scan_dq:
  "list_all dq_plain x \<Longrightarrow>
   sh_scan InDouble (Some y) ws (x @ rest) = sh_scan InDouble (Some (y @ x)) ws rest"
proof (induction x arbitrary: y)
  case Nil
  then show ?case by simp
next
  case (Cons c x)
  then show ?case by (simp add: dq_plain_def sh_dq_special_def word_of_def)
qed

lemma sh_scan_safe_word:
  "safe_word p \<Longrightarrow> sh_scan Unquoted None ws (p @ rest) = sh_scan Unquoted (Some p) ws rest"
  by (simp add: safe_word_def sh_scan_plain word_of_def)

lemma digit_sh_chars: "is_digit c \<Longrightarrow> dq_plain c \<and> sh_plain c"
  by (auto simp: is_digit_def dq_plain_def sh_dq_special_def sh_plain_def sh_blank_def sh_special_def)

lemma py_str_int_dq_plain: "list_all dq_plain (py_str_int i)"
  using py_str_int_chars [of _ i] digit_sh_chars
  by (fastforce simp: list_all_iff dq_plain_def sh_dq_special_def)

lemma list_all_py_join:
  "list_all P sep \<Longrightarrow> list_all (list_all P) xs \<Longrightarrow> list_all P (py_join sep xs)"
  by (induction sep xs rule: py_join.induct) simp_all

lemma sh_scan_safe_word_end:
  "safe_word p \<Longrightarrow> sh_scan Unquoted None ws p = Some (ws @ [p])"
  using sh_scan_safe_word [of p ws "[]"] by (simp add: end_word_def)

lemmas sh_char_simps = sh_blank_def sh_special_def sh_dq_special_def word_of_def end_word_def

lemma drawtext_string_dq_plain:
  "list_all dq_plain (row_text r) \<Longrightarrow> list_all dq_plain (drawtext_string r)"
  by (simp add: drawtext_string_def between_call_def py_str_int_dq_plain dq_plain_def sh_dq_special_def)

lemma draw_text_filter_dq_plain:
  assumes "\<forall>r \<in> set df. list_all dq_plain (row_text r)"
  shows "list_all dq_plain (draw_text_filter df)"
proof -
  have "list_all (list_all dq_plain) (map drawtext_string df)"
    using assms by (induction df) (simp_all add: drawtext_string_dq_plain)
  then show ?thesis
    unfolding draw_text_filter_def drawtext_strings_def
    by (rule list_all_py_join [rotated]) (simp add: dq_plain_def sh_dq_special_def)
qed

lemma between_string_dq_plain: "list_all dq_plain (between_string r)"
  by (simp add: between_string_def between_call_def py_str_int_dq_plain dq_plain_def sh_dq_special_def)

lemma trim_joined_dq_plain: "list_all dq_plain (trim_joined df)"
proof -
  have "list_all (list_all dq_plain) (map between_string df)"
    by (induction df) (simp_all add: between_string_dq_plain)
  then show ?thesis
    unfolding trim_joined_def between_strings_def
    by (rule list_all_py_join [rotated]) (simp add: dq_plain_def sh_dq_special_def)
qed

lemma replace_scan_set: "set (replace_scan old new s) \<subseteq> set s \<union> set new"
proof (induction old new s rule: replace_scan.induct)
  case (1 old new)
  then show ?case by simp
next
  case (2 old new c cs)
  then show ?case
    using set_drop_subset [of "length old" "c # cs"] by auto
qed

lemma replace_scan_nonempty: "new \<noteq> [] \<Longrightarrow> s \<noteq> [] \<Longrightarrow> replace_scan old new s \<noteq> []"
  by (cases s) simp_all

lemma gif_path_safe: "safe_word out \<Longrightarrow> safe_word (gif_path out)"
  using replace_scan_set [of "''.mp4''" "''.gif''" out]
  by (fastforce simp: safe_word_def gif_path_def py_replace_def replace_scan_nonempty list_all_iff
                      sh_plain_def sh_char_simps)

lemma sh_words_draw_text_command:
  assumes "safe_word inp" "safe_word out" "\<forall>r \<in> set df. list_all dq_plain (row_text r)"
  shows "sh_words (draw_text_command df inp out) =
           Some [''ffmpeg'', ''-i'', inp, ''-vf'', draw_text_filter df, out]"
  using assms draw_text_filter_dq_plain [OF assms(3)]
  by (simp add: sh_words_def draw_text_command_def sh_scan_safe_word sh_scan_safe_word_end sh_scan_dq
                sh_char_simps)

lemma sh_words_trim_command:
  assumes "safe_word inp" "safe_word out"
  shows "sh_words (trim_command df inp out) =
           Some [''ffmpeg'', ''-i'', inp, ''-vf'', trim_vf_arg df, ''-af'', trim_af_arg df, out]"
  using assms trim_joined_dq_plain [of df]
  by (simp add: sh_words_def trim_command_def trim_vf_arg_def trim_af_arg_def sh_scan_safe_word
                sh_scan_safe_word_end sh_scan_dq sh_char_simps)

lemma gif_path_differs: "gif_path out \<noteq> out \<longleftrightarrow> sublist ''.mp4'' out"
proof
  assume "gif_path out \<noteq> out"
  then show "sublist ''.mp4'' out"
    using gif_path_no_mp4 by blast
next
  assume "sublist ''.mp4'' out"
  then show "gif_path out \<noteq> out"
    using replace_scan_unchanged [of "''.mp4''" "''.gif''" out]
    by (auto simp: gif_path_def py_replace_def)
qed

section \<open>Properties\<close>

text \<open>
  C16. The shell passes the annotation command to ffmpeg as intended: when the input
  and output names are safe words and no text contains a double quote, a backslash,
  \<open>$\<close> or a backquote, the argument vector is \<^verbatim>\<open>ffmpeg -i\<close> input
  \<^verbatim>\<open>-vf\<close> filter output, the filter being exactly the joined drawtext string.
\<close>

theorem draw_text_command_argv:
  assumes "safe_word inp" "safe_word out" "\<forall>r \<in> set df. list_all dq_plain (row_text r)"
  shows "sh_words (draw_text_command df inp out) =
           Some [''ffmpeg'', ''-i'', inp, ''-vf'', draw_text_filter df, out]"
  using assms by (rule sh_words_draw_text_command)

theorem draw_text_command_argv_witness:
  "sh_words (draw_text_command get_default_annotation_data ''in.mp4'' ''output.mp4'') =
     Some [''ffmpeg'', ''-i'', ''in.mp4'', ''-vf'', draw_text_filter get_default_annotation_data, ''output.mp4'']"
  using draw_text_command_argv [of "''in.mp4''" "''output.mp4''" get_default_annotation_data]
  by (simp add: safe_word_def sh_plain_def sh_char_simps get_default_annotation_data_def dq_plain_def)

text \<open>
  C17. The trimming command needs no condition on the table: for safe input and
  output names the shell always yields \<^verbatim>\<open>ffmpeg -i\<close> input \<^verbatim>\<open>-vf\<close> the
  video select argument \<^verbatim>\<open>-af\<close> the audio select argument output, with the
  single quotes of the arguments kept for ffmpeg.
\<close>

theorem trim_command_argv:
  assumes "safe_word inp" "safe_word out"
  shows "sh_words (trim_command df inp out) =
           Some [''ffmpeg'', ''-i'', inp, ''-vf'', trim_vf_arg df, ''-af'', trim_af_arg df, out]"
  using assms by (rule sh_words_trim_command)

theorem trim_command_argv_witness:
  "sh_words (trim_command get_default_trimming_data ''in.mp4'' ''output.mp4'') =
     Some [''ffmpeg'', ''-i'', ''in.mp4'', ''-vf'', trim_vf_arg get_default_trimming_data,
           ''-af'', trim_af_arg get_default_trimming_data, ''output.mp4'']"
  using trim_command_argv [of "''in.mp4''" "''output.mp4''" get_default_trimming_data]
  by (simp add: safe_word_def sh_plain_def sh_char_simps)

text \<open>
  C18. The GIF command of a safe output name reaches ffmpeg as \<^verbatim>\<open>ffmpeg -i\<close>,
  the video and the GIF path, and these two paths differ exactly when the output
  name contains \<^verbatim>\<open>.mp4\<close>: only then does the export read one file and write
  another.
\<close>

theorem gif_command_argv:
  assumes "safe_word out"
  shows "sh_words (gif_command out) = Some [''ffmpeg'', ''-i'', out, gif_path out] \<and>
         (gif_path out \<noteq> out \<longleftrightarrow> sublist ''.mp4'' out)"
  using assms gif_path_safe [OF assms] gif_path_differs [of out]
  by (simp add: sh_words_def gif_command_def sh_scan_safe_word sh_scan_safe_word_end sh_char_simps)

theorem gif_command_argv_witness:
  "sh_words (gif_command ''output.mp4'') = Some [''ffmpeg'', ''-i'', ''output.mp4'', gif_path ''output.mp4''] \<and>
   gif_path ''output.mp4'' \<noteq> ''output.mp4''"
proof -
  have "sublist ''.mp4'' ''output.mp4''" by code_simp
  then show ?thesis
    using gif_command_argv [of "''output.mp4''"] by (simp add: safe_word_def sh_plain_def sh_char_simps)
qed

text \<open>
  C19. Paths are interpolated unquoted: an input name made of two safe words joined
  by a space reaches ffmpeg as two arguments, the first as the input file and the
  second as a stray argument before \<^verbatim>\<open>-vf\<close>, for every table and output name.
\<close>

theorem space_in_path_splits:
  assumes "safe_word a" "safe_word b" "safe_word out"
    and "\<forall>r \<in> set df. list_all dq_plain (row_text r)"
  shows "sh_words (draw_text_command df (a @ '' '' @ b) out) =
           Some [''ffmpeg'', ''-i'', a, b, ''-vf'', draw_text_filter df, out]"
  using assms draw_text_filter_dq_plain [OF assms(4)]
  by (simp add: sh_words_def draw_text_command_def sh_scan_safe_word sh_scan_safe_word_end sh_scan_dq
                sh_char_simps)

theorem space_in_path_splits_witness:
  "sh_words (draw_text_command get_default_annotation_data (''my'' @ '' '' @ ''video.mp4'') ''output.mp4'') =
     Some [''ffmpeg'', ''-i'', ''my'', ''video.mp4'', ''-vf'', draw_text_filter get_default_annotation_data,
           ''output.mp4'']"
  using space_in_path_splits [of "''my''" "''video.mp4''" "''output.mp4''" get_default_annotation_data]
  by (simp add: safe_word_def sh_plain_def sh_char_simps get_default_annotation_data_def dq_plain_def)

end
