(* ===== verification/Files.thy ===== *)
theory Files
  imports Listing Shell
begin

text \<open>
  What one run of \<^verbatim>\<open>main\<close> does to the working directory, and how runs
  compose through it. The input video comes from the select box of line 125
  (\<open>input_mp4_file\<close>); the f-strings of lines 40 and 54 format its value, so that
  the \<open>None\<close> of an empty select box reaches the command line as the word
  \<^verbatim>\<open>None\<close> (\<open>py_format_opt\<close>, Python's \<^verbatim>\<open>format(None)\<close>). A run writes
  to the file system only through the deletes of lines 35-36, 49-50 and 164-165 and
  through ffmpeg; the lemmas below make that a frame condition and follow the file
  written by one run into the select box of the next.
\<close>

definition input_mp4_file :: "path list \<Rightarrow> nat \<Rightarrow> path option" where
  "input_mp4_file files i = selectbox (files_with_ext ''.mp4'' files) i"

definition py_format_opt :: "string option \<Rightarrow> string" where
  "py_format_opt v = (case v of None \<Rightarrow> ''None'' | Some x \<Rightarrow> x)"

section \<open>Lemmas\<close>

lemma main_files:
  assumes "main env inp s fs = (s', fs', r)"
  shows "fs' = fs \<or> (\<exists>s2 df label. main_page env inp s2 fs df label = (s', fs', r))"
  using assms
  by (cases "run_section env inp fs (function_default (apply_widget_input inp s))")
     (auto simp: main_def split: sum.splits option.splits)

lemma main_page_frame:
  assumes "main_page env inp s fs df label = (s', fs', r)"
    and "\<forall>c g. env_tool env c g p = g p"
    and "p \<noteq> in_output inp" "p \<noteq> gif_path (in_output inp)"
  shows "fs' p = fs p"
  using assms by (auto simp: main_page_eq Let_def)

lemma main_process_files:
  assumes "main env inp s fs = (s', fs', Inr p)" "in_process inp" "\<not> in_gif inp"
  shows "fs' = env_tool env (case editor_shown p of
                               AnnotationTable t \<Rightarrow> draw_text_command t (in_input_mp4 inp) (in_output inp)
                             | TrimmingTable t \<Rightarrow> trim_command t (in_input_mp4 inp) (in_output inp))
                 (fs(in_output inp := None))"
proof -
  obtain s2 df label where "(s', fs', Inr p) = main_page env inp s2 fs df label"
    by (rule main_Inr_page [OF assms(1)])
  then show ?thesis
    using assms(2,3) by (simp add: main_page_eq Let_def)
qed

lemma input_mp4_file_empty:
  "listing_of files fs \<Longrightarrow> {p \<in> dom fs. suffix ''.mp4'' p} = {} \<Longrightarrow> input_mp4_file files i = None"
proof -
  assume l: "listing_of files fs" and e: "{p \<in> dom fs. suffix ''.mp4'' p} = {}"
  have "set (files_with_ext ''.mp4'' files) = {}"
    using listing_set [OF l] e by (rule trans)
  then have "files_with_ext ''.mp4'' files = []" by simp
  then show ?thesis by (simp add: input_mp4_file_def selectbox_def)
qed

lemma safe_word_None: "safe_word ''None''"
  by (simp add: safe_word_def sh_plain_def sh_char_simps)

lemma main_writes_output:
  assumes "main env inp s fs = (s', fs', Inr p)" "in_process inp"
    and "\<forall>c g. env_tool env c g (in_output inp) \<noteq> None"
  shows "fs' (in_output inp) \<noteq> None"
proof -
  obtain s2 df label where "(s', fs', Inr p) = main_page env inp s2 fs df label"
    by (rule main_Inr_page [OF assms(1)])
  then show ?thesis
    using assms(2,3) by (simp add: main_page_eq Let_def)
qed

section \<open>Properties\<close>

text \<open>
  C23. A run writes only where the script means to: every path other than the output
  video and its GIF path that ffmpeg leaves alone has the same contents after a run
  of \<^verbatim>\<open>main\<close> as before, whatever the buttons, the section and the outcome.
\<close>

theorem run_touches_only_outputs:
  assumes "main env inp s fs = (s', fs', r)"
    and "\<forall>c g. env_tool env c g p = g p"
    and "p \<noteq> in_output inp" "p \<noteq> gif_path (in_output inp)"
  shows "fs' p = fs p"
  using main_files [OF assms(1)] main_page_frame [OF _ assms(2-4)] by blast

theorem run_touches_only_outputs_witness:
  "fst (snd (main demo_env (demo_input False True True None) demo_session
      [''in.mp4'' \<mapsto> ''v'', ''output.mp4'' \<mapsto> ''o''])) ''in.mp4'' = Some ''v''"
proof -
  have "gif_path ''output.mp4'' = ''output.gif''" by code_simp
  then show ?thesis
    using run_touches_only_outputs [where env = demo_env and inp = "demo_input False True True None"
            and s = demo_session and fs = "[''in.mp4'' \<mapsto> ''v'', ''output.mp4'' \<mapsto> ''o'']"
            and p = "''in.mp4''", OF main_triple]
    by simp
qed

text \<open>
  C24. With no \<^verbatim>\<open>.mp4\<close> file in the directory the page still processes: the
  video select box yields \<open>None\<close>, and the process button runs ffmpeg with the
  word \<^verbatim>\<open>None\<close> as its input file, after deleting the output.
\<close>

theorem no_video_ffmpeg_reads_None:
  assumes "listing_of files fs" "{p \<in> dom fs. suffix ''.mp4'' p} = {}"
    and "in_input_mp4 inp = py_format_opt (input_mp4_file files i)"
    and "in_process inp" "\<not> in_gif inp" "safe_word (in_output inp)"
    and "\<forall>t. editor_shown p = AnnotationTable t \<longrightarrow> (\<forall>r \<in> set t. list_all dq_plain (row_text r))"
    and "main env inp s fs = (s', fs', Inr p)"
  shows "\<exists>c args. fs' = env_tool env c (fs(in_output inp := None)) \<and>
                 sh_words c = Some (''ffmpeg'' # ''-i'' # ''None'' # args)"
proof -
  have n: "in_input_mp4 inp = ''None''"
    using assms(3) input_mp4_file_empty [OF assms(1,2)] by (simp add: py_format_opt_def)
  note f = main_process_files [OF assms(8,4,5)]
  show ?thesis
  proof (cases "editor_shown p")
    case (AnnotationTable t)
    then have "sh_words (draw_text_command t ''None'' (in_output inp)) =
                 Some [''ffmpeg'', ''-i'', ''None'', ''-vf'', draw_text_filter t, in_output inp]"
      using sh_words_draw_text_command [OF safe_word_None assms(6)] assms(7) by simp
    then show ?thesis using f n AnnotationTable by auto
  next
    case (TrimmingTable t)
    have "sh_words (trim_command t ''None'' (in_output inp)) =
            Some [''ffmpeg'', ''-i'', ''None'', ''-vf'', trim_vf_arg t, ''-af'', trim_af_arg t, in_output inp]"
      by (rule sh_words_trim_command [OF safe_word_None assms(6)])
    then show ?thesis using f n TrimmingTable by auto
  qed
qed

theorem no_video_ffmpeg_reads_None_witness:
  "\<exists>c args. fst (snd (main demo_env ((demo_input False True False None)\<lparr>in_input_mp4 := ''None''\<rparr>)
                        demo_session Map.empty)) = env_tool demo_env c (Map.empty(''output.mp4'' := None)) \<and>
            sh_words c = Some (''ffmpeg'' # ''-i'' # ''None'' # args)"
proof -
  obtain s' fs' p where m: "main demo_env ((demo_input False True False None)\<lparr>in_input_mp4 := ''None''\<rparr>)
      demo_session Map.empty = (s', fs', Inr p)"
    by (simp add: main_simps)
  have e: "editor_shown p = AnnotationTable []"
    using sym [OF m] by (simp add: main_simps)
  have l: "listing_of [] Map.empty"
    by (simp add: listing_of_def)
  have i: "in_input_mp4 ((demo_input False True False None)\<lparr>in_input_mp4 := ''None''\<rparr>) =
           py_format_opt (input_mp4_file [] 0)"
    by (simp add: py_format_opt_def input_mp4_file_def selectbox_def files_with_ext_def)
  have o: "safe_word (in_output ((demo_input False True False None)\<lparr>in_input_mp4 := ''None''\<rparr>))"
    by (simp add: safe_word_def sh_plain_def sh_char_simps)
  show ?thesis
    using no_video_ffmpeg_reads_None [OF l _ i _ _ o _ m] e m by simp
qed

text \<open>
  C25. Two runs in sequence: a run whose ffmpeg writes the output video puts that
  file into the next run's video select box; a next run that picks it as input and
  keeps it as output (the default \<^verbatim>\<open>output.mp4\<close>) deletes it before ffmpeg
  reads it, so ffmpeg never sees the video the user selected.
\<close>

theorem output_reoffered_then_deleted:
  assumes "main env inp1 s fs = (s1, fs1, Inr p1)" "in_process inp1"
    and "\<forall>c g. env_tool env c g (in_output inp1) \<noteq> None"
    and "suffix ''.mp4'' (in_output inp1)" "listing_of files fs1"
  shows "in_output inp1 \<in> set (files_with_ext ''.mp4'' files) \<and> fs1 (in_output inp1) \<noteq> None \<and>
         (\<forall>inp2 s2 fs2 p2. main env inp2 s1 fs1 = (s2, fs2, Inr p2) \<longrightarrow> in_process inp2 \<longrightarrow>
            \<not> in_gif inp2 \<longrightarrow> in_input_mp4 inp2 = in_output inp1 \<longrightarrow> in_output inp2 = in_output inp1 \<longrightarrow>
            (\<exists>c. fs2 = env_tool env c (fs1(in_input_mp4 inp2 := None))))"
proof -
  have w: "fs1 (in_output inp1) \<noteq> None"
    by (rule main_writes_output [OF assms(1-3)])
  then have "in_output inp1 \<in> set (files_with_ext ''.mp4'' files)"
    using listing_set [OF assms(5)] assms(4) by auto
  moreover have "\<exists>c. fs2 = env_tool env c (fs1(in_input_mp4 inp2 := None))"
    if "main env inp2 s1 fs1 = (s2, fs2, Inr p2)" "in_process inp2" "\<not> in_gif inp2"
       "in_input_mp4 inp2 = in_output inp1" "in_output inp2 = in_output inp1" for inp2 s2 fs2 p2
    using main_process_files [OF that(1-3)] that(4,5) by auto
  ultimately show ?thesis using w by blast
qed

theorem output_reoffered_then_deleted_witness:
  "''output.mp4'' \<in> set (files_with_ext ''.mp4'' [''output.mp4'']) \<and>
   (\<exists>c. fst (snd (main (demo_env\<lparr>env_tool := \<lambda>c g. g(''output.mp4'' \<mapsto> c)\<rparr>)
                    ((demo_input False True False None)\<lparr>in_input_mp4 := ''output.mp4''\<rparr>)
                    (fst (main (demo_env\<lparr>env_tool := \<lambda>c g. g(''output.mp4'' \<mapsto> c)\<rparr>)
                           (demo_input False True False None) demo_session Map.empty))
                    (fst (snd (main (demo_env\<lparr>env_tool := \<lambda>c g. g(''output.mp4'' \<mapsto> c)\<rparr>)
                           (demo_input False True False None) demo_session Map.empty))))) =
        (fst (snd (main (demo_env\<lparr>env_tool := \<lambda>c g. g(''output.mp4'' \<mapsto> c)\<rparr>)
                   (demo_input False True False None) demo_session Map.empty)))
          (''output.mp4'' := None, ''output.mp4'' \<mapsto> c))"
proof -
  let ?E = "demo_env\<lparr>env_tool := \<lambda>c g. g(''output.mp4'' \<mapsto> c)\<rparr>"
  let ?I1 = "demo_input False True False None"
  let ?I2 = "(demo_input False True False None)\<lparr>in_input_mp4 := ''output.mp4''\<rparr>"
  obtain s1 fs1 p1 where m1: "main ?E ?I1 demo_session Map.empty = (s1, fs1, Inr p1)"
    by (simp add: main_simps)
  obtain s2 fs2 p2 where m2: "main ?E ?I2 s1 fs1 = (s2, fs2, Inr p2)"
    using sym [OF m1] by (simp add: main_simps)
  have d: "dom fs1 = {''output.mp4''}"
    using sym [OF m1] by (simp add: main_simps)
  have l: "listing_of [''output.mp4''] fs1"
    using d by (simp add: listing_of_def)
  have sfx: "suffix ''.mp4'' ''output.mp4''"
    unfolding suffix_def by (rule exI [of _ "''output''"]) simp
  have p: "in_process ?I1" by simp
  have t: "\<forall>c g. env_tool ?E c g (in_output ?I1) \<noteq> None" by simp
  have sfx': "suffix ''.mp4'' (in_output ?I1)" using sfx by simp
  note r = output_reoffered_then_deleted [OF m1 p t sfx' l]
  have "\<exists>c. fs2 = env_tool ?E c (fs1(in_input_mp4 ?I2 := None))"
    using r [THEN conjunct2, THEN conjunct2, rule_format, OF m2] by simp
  then show ?thesis using r m1 m2 by simp
qed

text \<open>
  C26. The GIF button has no guard on the video: when no file exists at the output
  path, a run pressing only the GIF button still deletes the GIF path, runs ffmpeg
  on the missing video and ends with the message that the GIF was created.
\<close>

theorem gif_without_video:
  assumes "in_gif inp" "\<not> in_process inp" "fs (in_output inp) = None"
    and "main env inp s fs = (s', fs', Inr p)"
  shows "fs' = env_tool env (gif_command (in_output inp)) (fs(gif_path (in_output inp) := None)) \<and>
         shown_video p = None \<and>
         last (messages p) = ''GIF file '' @ gif_path (in_output inp) @ '' created successfully!''"
proof -
  obtain s2 df label where "(s', fs', Inr p) = main_page env inp s2 fs df label"
    by (rule main_Inr_page [OF assms(4)])
  then show ?thesis
    using assms(1-3) by (clarsimp simp: main_page_eq Let_def os_path_exists_def)
qed

theorem gif_without_video_witness:
  "\<exists>p. main demo_env (demo_input False False True None) demo_session Map.empty =
          (demo_session\<lparr>output_gif_file := Some ''output.gif''\<rparr>, Map.empty, Inr p) \<and>
        shown_video p = None \<and> last (messages p) = ''GIF file output.gif created successfully!''"
proof -
  have g: "gif_path ''output.mp4'' = ''output.gif''" by code_simp
  obtain s' fs' p where m: "main demo_env (demo_input False False True None) demo_session Map.empty = (s', fs', Inr p)"
    by (simp add: main_simps)
  have s': "s' = demo_session\<lparr>output_gif_file := Some ''output.gif''\<rparr>"
    using sym [OF m] g by (simp add: main_simps)
  have "fs' = env_tool demo_env (gif_command ''output.mp4'') (Map.empty(gif_path ''output.mp4'' := None)) \<and>
        shown_video p = None \<and>
        last (messages p) = ''GIF file '' @ gif_path ''output.mp4'' @ '' created successfully!''"
    using gif_without_video [OF _ _ _ m] by simp
  then show ?thesis using m s' g by simp
qed

end
