(* ===== verification/Spec2Isabelle.thy ===== *)
theory Spec2Isabelle
  imports Dispatch Preview Fuel Files
begin

text \<open>
  \<^bold>\<open>A verification development for streamlit-video-editor.\<close>

  The repository is one Streamlit script, \<^verbatim>\<open>src/app.py\<close>. The user edits a table of
  time ranges; a button turns the table into an ffmpeg filter description and runs
  ffmpeg through \<^verbatim>\<open>os.system\<close>; another button converts the result to a GIF. The
  parts, and the theories that model them:

  \<^item> \<open>Prelude\<close>: the Python runtime the script relies on, as definitions:
    \<open>str(int)\<close> inside f-strings (\<open>py_str_int\<close>), \<open>str.join\<close> (\<open>py_join\<close>),
    \<open>str.replace\<close> (\<open>py_replace\<close>), with a decimal reader and the lemma that
    reading back a rendered integer gives it again.
  \<^item> \<open>FFmpeg\<close>: the external tool's reading of a filter description, for the subset
    the script writes: \<open>av_get_token\<close> (quotes, escapes, trimming), the filter
    chain (\<open>parse_chain\<close>), the \<open>key=value\<close> options (\<open>parse_opts\<close>), and the
    expression language with \<open>between\<close>, \<open>not\<close> and \<open>+\<close> (\<open>fexpr\<close>,
    \<open>parse_fexpr\<close>, \<open>eval_fexpr\<close>). This is not repository code and is not in the
    map; it gives the generated strings their meaning.
  \<^item> \<open>Table\<close>: the DataFrame rows as records (\<open>time_range\<close>, extended by
    \<open>annotation_row\<close>), the default tables of \<^verbatim>\<open>get_default_annotation_data\<close> and
    \<^verbatim>\<open>get_default_trimming_data\<close>, the totals \<open>minutes * 60 + seconds\<close>
    (\<open>start_total\<close>, \<open>end_total\<close>) in the cell type: Python \<open>int\<close> for the
    annotation table, whose mixed-dtype rows hold Python ints, and \<open>64 word\<close> for the
    all-integer trimming table, whose rows are numpy \<open>int64\<close>.
  \<^item> \<open>Annotation\<close>: \<^verbatim>\<open>draw_text_on_video\<close>, lines 29-40, the string part
    (\<open>drawtext_string\<close>, \<open>draw_text_filter\<close>, \<open>draw_text_command\<close>).
  \<^item> \<open>Trim\<close>: \<^verbatim>\<open>trim_video\<close>, lines 43-54, the string part
    (\<open>between_string\<close>, \<open>trim_joined\<close>, \<open>trim_vf_arg\<close>, \<open>trim_af_arg\<close>,
    \<open>trim_command\<close>), and the specification \<open>kept\<close> of what trimming keeps.
  \<^item> \<open>Effects\<close>: the file system as a map from paths to contents, \<^verbatim>\<open>os.remove\<close>
    after \<^verbatim>\<open>os.path.exists\<close> (\<open>remove_if_exists\<close>), both processing functions as
    state transformers (\<open>draw_text_on_video\<close>, \<open>trim_video\<close>), and the GIF export
    of \<^verbatim>\<open>main\<close>, lines 162-166 (\<open>gif_path\<close>, \<open>create_gif\<close>). ffmpeg itself is a
    parameter \<open>tool\<close>: the effect of a command line on the file system.
  \<^item> \<open>Session\<close>: the rerun loop. \<^verbatim>\<open>st.session_state\<close> is the record
    \<open>session\<close> (editor key, the two initial tables, the \<^verbatim>\<open>'function'\<close> key, the
    GIF path, and the data editors' stored edits by key). One Streamlit run of
    \<^verbatim>\<open>main\<close> is the function \<open>main\<close> from a session, the widget values of the
    run (\<open>rerun_input\<close>, including the digits \<^verbatim>\<open>random.randint\<close> returns) and the
    file system to the new session, file system and page or exception. It is composed
    as the code is: \<open>function_default\<close> (lines 133-134), \<open>run_section\<close> (137-143)
    calling \<open>text_annotation_section\<close> (57-84) or \<open>trimming_section\<close> (87-112),
    \<open>data_editor\<close> (145), \<open>process_step\<close> (149-153) over the processing
    functions of \<open>Effects\<close>, \<open>gif_step\<close> (162-168) over \<open>create_gif\<close>, and
    \<open>view_gif\<close> (170-171). Reading a CSV file on load (\<open>read_csv\<close>) fails
    when no file is selected, when the file is gone, or when the environment's
    parser rejects its contents. The inductive set \<open>reachable\<close> holds the sessions some
    sequence of runs produces from the empty session.
  \<^item> \<open>Shell\<close>: \<^verbatim>\<open>os.system\<close> hands each command line to \<^verbatim>\<open>/bin/sh\<close>, whose
    splitting into ffmpeg's argument vector is \<open>sh_words\<close>: blanks, single and
    double quotes and backslash escapes, with \<open>None\<close> for anything beyond a simple
    command of literal words (operators, expansions, patterns, unterminated quotes).
    Like the ffmpeg model it is not repository code and is not in the map.
  \<^item> \<open>Base64\<close> and \<open>Preview\<close>: the \<^verbatim>\<open>View GIF\<close> expander (lines 170-180) reads
    the GIF's bytes, encodes them with \<^verbatim>\<open>base64.b64encode\<close> (\<open>b64encode\<close>, shifts
    and masks on \<open>8 word\<close> as \<^verbatim>\<open>binascii\<close> computes them) and renders an
    \<^verbatim>\<open><img>\<close> element (\<open>view_gif_markup\<close>). A textbook encoder and a decoder
    stand beside the encoder as reference definitions.
  \<^item> \<open>Fuel\<close>: the fuel of the ffmpeg model's expression parser is shown to be
    sufficient, so the model's verdicts are those of a terminating parser.
  \<^item> \<open>Dispatch\<close>: properties of runs of \<^verbatim>\<open>main\<close> that span the sections and
    the page: the kind of table matches the selected function, and the default table
    can always be restored.
  \<^item> \<open>Listing\<close>: the select boxes of lines 61, 93 and 125: \<^verbatim>\<open>os.listdir()\<close> as
    a duplicate-free list of the file system's paths in any order (\<open>listing_of\<close>),
    the \<^verbatim>\<open>endswith\<close> filter (\<open>files_with_ext\<close>) and the default choice of
    \<^verbatim>\<open>st.selectbox\<close> (\<open>selectbox\<close>).
  \<^item> \<open>Files\<close>: what runs of \<^verbatim>\<open>main\<close> do to the working directory: the
    video select box of line 125 (\<open>input_mp4_file\<close>) and Python's formatting of its
    \<open>None\<close> (\<open>py_format_opt\<close>), a frame condition for a whole run, and
    sequences of two runs connected through the directory listing.

  What the theorems show. The annotation builder is correct with respect to
  ffmpeg's reading (C1, C4): one \<^verbatim>\<open>drawtext\<close> per row, in order, with the row's
  text and a window that is on exactly between the row's start and end. The
  trimming builder refines its specification (C2): the \<^verbatim>\<open>select\<close>/\<^verbatim>\<open>aselect\<close>
  expression is non-zero exactly outside every interval, for video and audio alike.
  The \<open>int64\<close> totals are exact exactly when they fit in 64 bits (C5), and are
  always the true total reduced into the signed 64-bit range (C6). The effects: the
  output path is always cleared before ffmpeg runs (C7); choosing the input as
  output destroys the input (C8); the GIF export deletes the video when its name has
  no \<^verbatim>\<open>.mp4\<close> (C3), and what lay at the GIF path before has no influence on it
  (C9). The session: every reachable session keeps a ten-digit editor key and the
  selected section's table (C10, by rule induction on \<open>reachable\<close>); the only
  exception a run can raise is a failed read of the CSV file on load (C11); the load
  button resets the editor through a fresh random key (C12); a run without
  interaction changes nothing (C13); the success message is shown whether or not
  ffmpeg wrote the video (C14); the GIF view shows the GIF just exported when it
  exists (C15). The shell: for safe file names, the annotation command (for texts
  free of the shell's special characters) and the trimming command (for every
  table) reach ffmpeg as the intended argument vectors (C16, C17); the GIF command
  reads one file and writes another exactly when the output name contains
  \<^verbatim>\<open>.mp4\<close> (C18); an input name with a space is split into two arguments
  (C19). The preview's markup carries exactly the GIF file's contents in a data URL
  that cannot break the attribute (C20). The table a run hands to the process button
  has the kind of the selected function (C21), and from every reachable session one
  run restores the default table (C22). A run changes no file other than the output
  video and its GIF path, apart from what ffmpeg itself writes (C23). With no
  \<^verbatim>\<open>.mp4\<close> file in the directory the process button runs ffmpeg on the word
  \<^verbatim>\<open>None\<close> (C24). Over two runs, the video one run writes is offered as input by
  the next, and choosing it with the same output name deletes it before ffmpeg reads
  it (C25). The GIF button runs ffmpeg and reports success even when there is no
  video at the output path (C26).

  Bounds and fuel. The only loops of the script are the loops over table rows,
  modelled by \<open>map\<close>. The parsers of the ffmpeg model recurse on the length of
  their input (\<open>function\<close> with a measure), except the expression parser, whose
  fuel is the length of the input plus one; the lemmas \<open>parse_fexpr_between_call\<close>
  and \<open>parse_fexpr_select_expr\<close> show this fuel is enough for every expression the
  script writes (a sum of \<open>n\<close> calls needs \<open>n + 5\<close>, and the string is longer),
  and the theory \<open>Fuel\<close> shows it is enough for every string: a parse that consumes
  \<open>k\<close> characters needs at most \<open>k + 1\<close> units.

  Not modelled. The Streamlit page layout and rendering, the order of the directory
  listing (any order is allowed), what \<^verbatim>\<open>st.video\<close> shows for the input video
  (line 127, also when the select box yields \<open>None\<close>), the browser's rendering of
  the preview markup, and the shell's expansions (the scanner stops at them instead of
  expanding). \<^verbatim>\<open>pd.read_csv\<close> is a parameter of the environment that either raises
  (empty or malformed file) or yields a table of typed rows; a CSV file whose frame is
  not such a table (other columns, float or string cells) is outside the model, so
  the \<^verbatim>\<open>KeyError\<close> or \<^verbatim>\<open>TypeError\<close> that lines 33 and 47 raise on it when
  the process button is pressed is not modelled. Cells that pandas turns into floats
  (a row added in the editor holds \<open>None\<close>, which makes the column float) are
  likewise outside the model. The file system is a flat map from paths to contents:
  there are no directories, so \<^verbatim>\<open>os.remove\<close> of a path that names a directory
  (\<^verbatim>\<open>IsADirectoryError\<close>) or a permission failure cannot arise; the claims that a
  run raises nothing on the file side hold under this model. The data editor's stored
  edits are a transformation of the frame it is given, looked up by the editor's key
  alone; whether Streamlit also ties a widget's identity to the frame passed in is not
  modelled. The random digits are inputs, so the theorems hold for every draw, not
  with a probability. \<^verbatim>\<open>base64\<close> is library code: its encoder is modelled (with
  a reference encoder and a decoder) only to state what the preview shows.
  With these, every function of \<^verbatim>\<open>src/app.py\<close> is modelled; what remains are
  refinements of the external models (ffmpeg's expression evaluation over frames, the
  shell's expansions) rather than repository code.
\<close>

end
